theory Spec2Isabelle
  imports Main "HOL-Library.Word"
begin

section \<open>Binary record framer (decoder\_node/decoder.py)\<close>

text \<open>
  \<^verbatim>\<open>decode_all_ber_records(raw_data, spec)\<close> walks a byte buffer with a cursor
  \<^verbatim>\<open>offset\<close>. The ASN.1 codec \<^verbatim>\<open>spec\<close> is the external asn1tools object; it is a
  parameter of the model. A call that raises is \<open>None\<close>.
\<close>

type_synonym byte = "8 word"

record 'r asn1_spec =
  decode_with_length :: "(byte list \<Rightarrow> ('r \<times> nat) option) option"
  decode :: "byte list \<Rightarrow> 'r option"
  encode :: "'r \<Rightarrow> byte list option"

text \<open>
  The body of the \<^verbatim>\<open>try\<close> block up to the computation of \<^verbatim>\<open>record_len\<close>:
  \<^verbatim>\<open>decode_with_length\<close> when the codec has it, otherwise decode, re-encode and take
  the length of the re-encoding.
\<close>

definition try_decode :: "'r asn1_spec \<Rightarrow> byte list \<Rightarrow> ('r \<times> nat) option" where
  "try_decode spec slice_data =
     (case decode_with_length spec of
        Some dwl \<Rightarrow> dwl slice_data
      | None \<Rightarrow>
          (case decode spec slice_data of
             None \<Rightarrow> None
           | Some decoded \<Rightarrow>
               (case encode spec decoded of
                  None \<Rightarrow> None
                | Some encoded_bytes \<Rightarrow> Some (decoded, length encoded_bytes))))"

definition hex_digit :: "nat \<Rightarrow> char" where
  "hex_digit n = ''0123456789abcdef'' ! (n mod 16)"

definition hex02 :: "byte \<Rightarrow> string" where
  "hex02 b = [hex_digit (unat b div 16), hex_digit (unat b mod 16)]"

definition valid_tags :: "string list" where
  "valid_tags = [''a0'', ''a1'', ''a2'', ''a3'', ''a4'', ''a5'', ''a6'', ''bf8148'', ''31'']"

datatype log_event = Skip_unknown_tag string nat | Decoding_failed nat

record 'r decoded_record =
  record_name :: nat
  recordLength :: nat
  genericRecord :: 'r

record 'r frame_state =
  records :: "'r decoded_record list"
  offset :: nat
  record_count :: nat
  log :: "log_event list"

definition frame_init :: "'r frame_state" where
  "frame_init = \<lparr>records = [], offset = 0, record_count = 1, log = []\<rparr>"

text \<open>One pass through the body of the \<^verbatim>\<open>while\<close> loop, entered with \<^verbatim>\<open>offset < total_len\<close>.\<close>

definition frame_step :: "'r asn1_spec \<Rightarrow> byte list \<Rightarrow> 'r frame_state \<Rightarrow> 'r frame_state" where
  "frame_step spec raw_data st =
     (let slice_data = drop (offset st) raw_data in
      case try_decode spec slice_data of
        Some (decoded, record_len) \<Rightarrow>
          st\<lparr>records := records st @
                 [\<lparr>record_name = record_count st, recordLength = record_len,
                   genericRecord = decoded\<rparr>],
             offset := offset st + record_len,
             record_count := record_count st + 1\<rparr>
      | None \<Rightarrow>
          (let first_byte = hex02 (hd slice_data) in
           if first_byte \<notin> set valid_tags
           then st\<lparr>offset := offset st + 1,
                   log := log st @ [Skip_unknown_tag first_byte (offset st)]\<rparr>
           else st\<lparr>offset := offset st + 1,
                   log := log st @ [Decoding_failed (offset st)]\<rparr>))"

text \<open>
  The loop, with the number of iterations it may still run as fuel: \<open>None\<close> is a loop
  that has not finished within the fuel. The result carries the iterations used.
\<close>

fun frame_loop :: "nat \<Rightarrow> 'r asn1_spec \<Rightarrow> byte list \<Rightarrow> 'r frame_state \<Rightarrow> nat
    \<Rightarrow> ('r frame_state \<times> nat) option" where
  "frame_loop fuel spec raw_data st iters =
     (if offset st < length raw_data then
        (if drop (offset st) raw_data = [] then Some (st, iters)
         else (case fuel of
                 0 \<Rightarrow> None
               | Suc fuel' \<Rightarrow> frame_loop fuel' spec raw_data (frame_step spec raw_data st) (Suc iters)))
      else Some (st, iters))"

definition decode_all_ber_records :: "nat \<Rightarrow> byte list \<Rightarrow> 'r asn1_spec
    \<Rightarrow> ('r decoded_record list \<times> nat) option" where
  "decode_all_ber_records fuel raw_data spec =
     map_option (\<lambda>(st, iters). (records st, iters)) (frame_loop fuel spec raw_data frame_init 0)"

text \<open>
  What the loop relies on: a successful decode reports a positive length. Every BER value
  has at least an identifier and a length octet.
\<close>

definition consumes :: "'r asn1_spec \<Rightarrow> bool" where
  "consumes spec = (\<forall>bs r n. try_decode spec bs = Some (r, n) \<longrightarrow> 0 < n)"

text \<open>
  A small codec for trying the loop on concrete bytes: a record is the tag \<open>0xa0\<close>, a
  length octet and that many content octets.
\<close>

definition tlv_spec :: "byte list asn1_spec" where
  "tlv_spec = \<lparr>decode_with_length = None,
     decode = (\<lambda>bs. case bs of
                 t # l # rest \<Rightarrow>
                   if t = 0xa0 \<and> unat l \<le> length rest then Some (take (unat l) rest) else None
               | _ \<Rightarrow> None),
     encode = (\<lambda>v. Some (0xa0 # of_nat (length v) # v))\<rparr>"

section \<open>Python values used by the mappers\<close>

text \<open>
  The mappers read JSON and call a few built-ins of Python. This section models what
  they use of \<^verbatim>\<open>str\<close>, \<^verbatim>\<open>int\<close>, \<^verbatim>\<open>decimal.Decimal\<close>, \<^verbatim>\<open>dict\<close> and \<^verbatim>\<open>list\<close>. Strings are
  lists of 8-bit characters; \<open>upper\<close> and \<open>lower\<close> change the ASCII letters only.
\<close>

subsection \<open>Strings and integers\<close>

definition whitespace :: "char list" where
  "whitespace = [CHR 0x09, CHR 0x0A, CHR 0x0B, CHR 0x0C, CHR 0x0D, CHR 0x1C, CHR 0x1D, CHR 0x1E,
     CHR 0x1F, CHR 0x20, CHR 0x85, CHR 0xA0]"

definition is_space :: "char \<Rightarrow> bool" where
  "is_space c = (c \<in> set whitespace)"

definition strip :: "string \<Rightarrow> string" where
  "strip s = rev (dropWhile is_space (rev (dropWhile is_space s)))"

definition digit_chars :: "(char \<times> int) list" where
  "digit_chars = [(CHR ''0'', 0), (CHR ''1'', 1), (CHR ''2'', 2), (CHR ''3'', 3), (CHR ''4'', 4),
     (CHR ''5'', 5), (CHR ''6'', 6), (CHR ''7'', 7), (CHR ''8'', 8), (CHR ''9'', 9)]"

definition is_digit :: "char \<Rightarrow> bool" where
  "is_digit c = (map_of digit_chars c \<noteq> None)"

definition digit_val :: "char \<Rightarrow> int" where
  "digit_val c = (case map_of digit_chars c of Some n \<Rightarrow> n | None \<Rightarrow> 0)"

definition int_of_digits :: "string \<Rightarrow> int" where
  "int_of_digits ds = foldl (\<lambda>acc c. 10 * acc + digit_val c) 0 ds"

definition lower_chars :: "(char \<times> char) list" where
  "lower_chars = zip ''ABCDEFGHIJKLMNOPQRSTUVWXYZ'' ''abcdefghijklmnopqrstuvwxyz''"

definition lower_char :: "char \<Rightarrow> char" where
  "lower_char c = (case map_of lower_chars c of Some l \<Rightarrow> l | None \<Rightarrow> c)"

definition upper_char :: "char \<Rightarrow> char" where
  "upper_char c =
     (case map_of (map (\<lambda>(u, l). (l, u)) lower_chars) c of Some u \<Rightarrow> u | None \<Rightarrow> c)"

definition lower :: "string \<Rightarrow> string" where
  "lower s = map lower_char s"

definition upper :: "string \<Rightarrow> string" where
  "upper s = map upper_char s"

definition digit_char :: "int \<Rightarrow> char" where
  "digit_char n = ''0123456789'' ! nat (n mod 10)"

text \<open>\<^verbatim>\<open>str(n)\<close> for an integer \<open>n \<ge> 0\<close>, and for any integer.\<close>

function str_nat :: "int \<Rightarrow> string" where
  "str_nat n = (if n < 10 then [digit_char n] else str_nat (n div 10) @ [digit_char (n mod 10)])"
  by pat_completeness auto
termination
  by (relation "measure nat") auto

declare str_nat.simps [simp del]

definition str_int :: "int \<Rightarrow> string" where
  "str_int i = (if i < 0 then CHR ''-'' # str_nat (- i) else str_nat i)"

definition startswith :: "string \<Rightarrow> string \<Rightarrow> bool" where
  "startswith s p = (take (length p) s = p)"

definition endswith :: "string \<Rightarrow> string \<Rightarrow> bool" where
  "endswith s suffix = (length suffix \<le> length s \<and> drop (length s - length suffix) s = suffix)"

text \<open>\<^verbatim>\<open>sep.join(parts)\<close> for strings.\<close>

fun join :: "string \<Rightarrow> string list \<Rightarrow> string" where
  "join sep [] = []"
| "join sep [x] = x"
| "join sep (x # y # ys) = x @ sep @ join sep (y # ys)"

subsection \<open>decimal.Decimal under the default context\<close>

text \<open>
  A decimal is a sign, a coefficient (never negative) and an exponent, or an infinity, or
  a NaN (sign, signalling flag, payload). The default context has 28 digits of precision,
  rounds half to even and traps \<^verbatim>\<open>InvalidOperation\<close> and \<^verbatim>\<open>Overflow\<close>: a trapped
  signal is an exception, \<open>Inl\<close> here.
\<close>

datatype decimal = Dec bool int int | DInf bool | DNaN bool bool int

datatype py_error = AttributeError | TypeError | InvalidOperation | Overflow | OverflowError

definition split_sign :: "string \<Rightarrow> bool \<times> string" where
  "split_sign t = (case t of
       c # r \<Rightarrow> if c = CHR ''-'' then (True, r) else if c = CHR ''+'' then (False, r) else (False, t)
     | [] \<Rightarrow> (False, []))"

definition parse_exponent :: "string \<Rightarrow> int option" where
  "parse_exponent r =
     (case r of
        [] \<Rightarrow> Some 0
      | c # r' \<Rightarrow>
          if c = CHR ''e'' then
            (let (neg, ds) = split_sign r' in
             if ds \<noteq> [] \<and> list_all is_digit ds
             then Some (if neg then - int_of_digits ds else int_of_digits ds)
             else None)
          else None)"

definition parse_number :: "bool \<Rightarrow> string \<Rightarrow> decimal option" where
  "parse_number sign u =
     (let intpart = takeWhile is_digit u;
          r1 = dropWhile is_digit u;
          (fracpart, r2) = (case r1 of
               c # r \<Rightarrow> if c = CHR ''.'' then (takeWhile is_digit r, dropWhile is_digit r)
                        else ([], r1)
             | [] \<Rightarrow> ([], []))
      in if intpart = [] \<and> fracpart = [] then None
         else (case parse_exponent r2 of
                 None \<Rightarrow> None
               | Some e \<Rightarrow>
                   Some (Dec sign (int_of_digits (intpart @ fracpart)) (e - int (length fracpart)))))"

text \<open>
  \<^verbatim>\<open>Decimal(s)\<close> for a string: surrounding whitespace and every underscore are dropped,
  letters are matched without case; \<open>None\<close> is \<^verbatim>\<open>InvalidOperation\<close>.
\<close>

definition parse_decimal :: "string \<Rightarrow> decimal option" where
  "parse_decimal s =
     (let (sign, u0) = split_sign (filter (\<lambda>c. c \<noteq> CHR ''_'') (strip s));
          u = lower u0
      in if u = ''inf'' \<or> u = ''infinity'' then Some (DInf sign)
         else if startswith u ''nan'' \<and> list_all is_digit (drop 3 u)
              then Some (DNaN sign False (int_of_digits (drop 3 u)))
         else if startswith u ''snan'' \<and> list_all is_digit (drop 4 u)
              then Some (DNaN sign True (int_of_digits (drop 4 u)))
         else parse_number sign u)"

definition prec :: nat where "prec = 28"
definition Emax :: int where "Emax = 999999"
definition Emin :: int where "Emin = - 999999"
definition Etiny :: int where "Etiny = Emin - int prec + 1"
definition Etop :: int where "Etop = Emax - int prec + 1"

definition ndigits :: "int \<Rightarrow> nat" where
  "ndigits c = length (str_nat c)"

text \<open>Drop the last \<open>k\<close> digits of \<open>c\<close>, rounding half to even.\<close>

definition round_half_even :: "int \<Rightarrow> nat \<Rightarrow> int" where
  "round_half_even c k =
     (if k = 0 then c
      else (let q = c div 10 ^ k; r = c mod 10 ^ k; half = 5 * 10 ^ (k - 1)
            in if r > half \<or> (r = half \<and> odd q) then q + 1 else q))"

text \<open>The context's rounding of a result (\<^verbatim>\<open>_fix\<close>).\<close>

definition dec_fix :: "decimal \<Rightarrow> py_error + decimal" where
  "dec_fix d =
     (case d of
        DNaN s sig p \<Rightarrow> Inr (DNaN s sig (p mod 10 ^ prec))
      | DInf s \<Rightarrow> Inr d
      | Dec s c e \<Rightarrow>
          if c = 0 then Inr (Dec s 0 (min (max e Etiny) Emax))
          else (let exp_min0 = int (ndigits c) + e - int prec in
                if exp_min0 > Etop then Inl Overflow
                else (let exp_min = (if exp_min0 < Etiny then Etiny else exp_min0) in
                      if e < exp_min then
                        (let coeff = round_half_even c (nat (exp_min - e)) in
                         if ndigits coeff > prec then
                           (if exp_min + 1 > Etop then Inl Overflow
                            else Inr (Dec s (coeff div 10) (exp_min + 1)))
                         else Inr (Dec s coeff exp_min))
                      else Inr d)))"

definition signed :: "bool \<Rightarrow> int \<Rightarrow> int" where
  "signed s c = (if s then - c else c)"

text \<open>\<^verbatim>\<open>a + b\<close>: the exact sum at the smaller exponent, then the context's rounding.\<close>

definition dec_add :: "decimal \<Rightarrow> decimal \<Rightarrow> py_error + decimal" where
  "dec_add a b =
     (case (a, b) of
        (DNaN s True p, _) \<Rightarrow> Inl InvalidOperation
      | (_, DNaN s True p) \<Rightarrow> Inl InvalidOperation
      | (DNaN s False p, _) \<Rightarrow> dec_fix a
      | (_, DNaN s False p) \<Rightarrow> dec_fix b
      | (DInf s1, DInf s2) \<Rightarrow> if s1 \<noteq> s2 then Inl InvalidOperation else Inr a
      | (DInf s1, _) \<Rightarrow> Inr a
      | (_, DInf s2) \<Rightarrow> Inr b
      | (Dec s1 c1 e1, Dec s2 c2 e2) \<Rightarrow>
          (let e = min e1 e2;
               v = signed s1 c1 * 10 ^ nat (e1 - e) + signed s2 c2 * 10 ^ nat (e2 - e)
           in if v = 0 then dec_fix (Dec (s1 \<and> s2) 0 e)
              else dec_fix (Dec (v < 0) \<bar>v\<bar> e)))"

definition copy_negate :: "decimal \<Rightarrow> decimal" where
  "copy_negate d = (case d of Dec s c e \<Rightarrow> Dec (\<not> s) c e | DInf s \<Rightarrow> DInf (\<not> s)
                    | DNaN s sig p \<Rightarrow> DNaN (\<not> s) sig p)"

text \<open>\<^verbatim>\<open>a - b\<close>.\<close>

definition dec_sub :: "decimal \<Rightarrow> decimal \<Rightarrow> py_error + decimal" where
  "dec_sub a b =
     (case (a, b) of
        (DNaN s True p, _) \<Rightarrow> Inl InvalidOperation
      | (_, DNaN s True p) \<Rightarrow> Inl InvalidOperation
      | (DNaN s False p, _) \<Rightarrow> dec_fix a
      | (_, DNaN s False p) \<Rightarrow> dec_fix b
      | _ \<Rightarrow> dec_add a (copy_negate b))"

text \<open>\<^verbatim>\<open>d >= Decimal(0)\<close>: an ordering comparison with a NaN is \<^verbatim>\<open>InvalidOperation\<close>.\<close>

definition dec_ge_zero :: "decimal \<Rightarrow> py_error + bool" where
  "dec_ge_zero d = (case d of DNaN s sig p \<Rightarrow> Inl InvalidOperation
                    | DInf s \<Rightarrow> Inr (\<not> s)
                    | Dec s c e \<Rightarrow> Inr (\<not> s \<or> c = 0))"

text \<open>
  \<^verbatim>\<open>d == Decimal(0)\<close> and \<^verbatim>\<open>d > Decimal(0)\<close>: equality signals on a signalling NaN only,
  an ordering comparison on every NaN.
\<close>

definition dec_eq_zero :: "decimal \<Rightarrow> py_error + bool" where
  "dec_eq_zero d = (case d of DNaN s sig p \<Rightarrow> if sig then Inl InvalidOperation else Inr False
                    | DInf s \<Rightarrow> Inr False
                    | Dec s c e \<Rightarrow> Inr (c = 0))"

definition dec_gt_zero :: "decimal \<Rightarrow> py_error + bool" where
  "dec_gt_zero d = (case d of DNaN s sig p \<Rightarrow> Inl InvalidOperation
                    | DInf s \<Rightarrow> Inr (\<not> s)
                    | Dec s c e \<Rightarrow> Inr (\<not> s \<and> c \<noteq> 0))"

text \<open>Truth value of a decimal: false for a zero only.\<close>

definition dec_truthy :: "decimal \<Rightarrow> bool" where
  "dec_truthy d = (case d of Dec s c e \<Rightarrow> c \<noteq> 0 | _ \<Rightarrow> True)"

definition dec_zero :: decimal where
  "dec_zero = Dec False 0 0"

text \<open>\<^verbatim>\<open>x or y\<close> on \<^verbatim>\<open>Optional[Decimal]\<close> operands.\<close>

definition dec_or :: "decimal option \<Rightarrow> decimal option \<Rightarrow> decimal option" where
  "dec_or x y = (case x of Some d \<Rightarrow> if dec_truthy d then x else y | None \<Rightarrow> y)"

text \<open>\<^verbatim>\<open>str(d)\<close>.\<close>

definition dec_str :: "decimal \<Rightarrow> string" where
  "dec_str d =
     (case d of
        DInf s \<Rightarrow> (if s then ''-'' else []) @ ''Infinity''
      | DNaN s sig p \<Rightarrow> (if s then ''-'' else []) @ (if sig then ''sNaN'' else ''NaN'')
                          @ (if p = 0 then [] else str_nat p)
      | Dec s c e \<Rightarrow>
          (let ds = str_nat c;
               leftdigits = e + int (length ds);
               dotplace = (if e \<le> 0 \<and> leftdigits > - 6 then leftdigits else 1);
               intpart = (if dotplace \<le> 0 then ''0''
                          else if dotplace \<ge> int (length ds)
                               then ds @ replicate (nat (dotplace - int (length ds))) CHR ''0''
                          else take (nat dotplace) ds);
               fracpart = (if dotplace \<le> 0
                           then CHR ''.'' # replicate (nat (- dotplace)) CHR ''0'' @ ds
                           else if dotplace \<ge> int (length ds) then []
                           else CHR ''.'' # drop (nat dotplace) ds);
               ex = (if leftdigits = dotplace then []
                     else ''E'' @ (if leftdigits - dotplace \<ge> 0 then ''+'' else [])
                          @ str_int (leftdigits - dotplace))
           in (if s then ''-'' else []) @ intpart @ fracpart @ ex))"

definition dec_rescale :: "decimal \<Rightarrow> int \<Rightarrow> decimal" where
  "dec_rescale d ex =
     (case d of
        Dec s c e \<Rightarrow>
          if c = 0 then Dec s 0 ex
          else if e \<ge> ex then Dec s (c * 10 ^ nat (e - ex)) ex
          else Dec s (round_half_even c (nat (ex - e))) ex
      | _ \<Rightarrow> d)"

definition dec_adjusted :: "decimal \<Rightarrow> int" where
  "dec_adjusted d = (case d of Dec s c e \<Rightarrow> e + int (ndigits c) - 1 | _ \<Rightarrow> 0)"

text \<open>\<^verbatim>\<open>d.quantize(q)\<close> for a finite \<open>q\<close> of exponent \<open>ex\<close>.\<close>

definition dec_quantize :: "decimal \<Rightarrow> int \<Rightarrow> py_error + decimal" where
  "dec_quantize d ex =
     (case d of
        DNaN s True p \<Rightarrow> Inl InvalidOperation
      | DNaN s False p \<Rightarrow> dec_fix d
      | DInf s \<Rightarrow> Inl InvalidOperation
      | Dec s c e \<Rightarrow>
          if \<not> (Etiny \<le> ex \<and> ex \<le> Emax) then Inl InvalidOperation
          else if c = 0 then dec_fix (Dec s 0 ex)
          else if dec_adjusted d > Emax then Inl InvalidOperation
          else if dec_adjusted d - ex + 1 > int prec then Inl InvalidOperation
          else (let ans = dec_rescale d ex in
                if dec_adjusted ans > Emax then Inl InvalidOperation
                else (case ans of
                        Dec s' c' e' \<Rightarrow>
                          if ndigits c' > prec then Inl InvalidOperation else dec_fix ans
                      | _ \<Rightarrow> dec_fix ans)))"

text \<open>\<^verbatim>\<open>format(d, 'f')\<close>.\<close>

definition dec_format_f :: "decimal \<Rightarrow> string" where
  "dec_format_f d =
     (case d of
        Dec s c e0 \<Rightarrow>
          (let e = (if c = 0 \<and> e0 > 0 then 0 else e0);
               ds = str_nat c;
               dotplace = e + int (length ds);
               intpart = (if dotplace < 0 then ''0''
                          else if dotplace > int (length ds)
                               then ds @ replicate (nat (dotplace - int (length ds))) CHR ''0''
                          else (if take (nat dotplace) ds = [] then ''0''
                                else take (nat dotplace) ds));
               fracpart = (if dotplace < 0 then replicate (nat (- dotplace)) CHR ''0'' @ ds
                           else if dotplace > int (length ds) then []
                           else drop (nat dotplace) ds)
           in (if s then ''-'' else []) @ intpart
              @ (if fracpart = [] then [] else CHR ''.'' # fracpart))
      | _ \<Rightarrow> dec_str d)"

subsection \<open>JSON values\<close>

text \<open>
  What \<^verbatim>\<open>json.load\<close> returns. A \<^verbatim>\<open>dict\<close> is an association list in insertion order with
  distinct keys. A \<^verbatim>\<open>float\<close> is written \<open>PFloat d\<close>: the double nearest to the decimal
  \<open>d\<close>, that is \<^verbatim>\<open>float(d)\<close>; two decimals may denote the same double, so the model never
  compares or prints floats by itself: those operations are parameters.
\<close>

datatype pyval =
    PNone
  | PBool bool
  | PInt int
  | PFloat decimal
  | PStr string
  | PList "pyval list"
  | PDict "(string \<times> pyval) list"

text \<open>
  The operations of Python this development does not define: what \<^verbatim>\<open>str\<close> prints for a
  float and for a list or dict, \<^verbatim>\<open>==\<close> and \<^verbatim>\<open><\<close> on floats, \<^verbatim>\<open>float(s)\<close> on a string
  (\<open>None\<close> when it raises) and \<^verbatim>\<open>==\<close> on two arbitrary values.
\<close>

record py_builtins =
  float_repr :: "decimal \<Rightarrow> string"
  float_eq :: "decimal \<Rightarrow> decimal \<Rightarrow> bool"
  float_lt :: "decimal \<Rightarrow> decimal \<Rightarrow> bool"
  float_of_str :: "string \<Rightarrow> decimal option"
  repr_container :: "pyval \<Rightarrow> string"
  py_eq :: "pyval \<Rightarrow> pyval \<Rightarrow> bool"

definition truthy :: "py_builtins \<Rightarrow> pyval \<Rightarrow> bool" where
  "truthy bi v =
     (case v of
        PNone \<Rightarrow> False
      | PBool b \<Rightarrow> b
      | PInt i \<Rightarrow> i \<noteq> 0
      | PFloat d \<Rightarrow> \<not> float_eq bi d dec_zero
      | PStr s \<Rightarrow> s \<noteq> []
      | PList xs \<Rightarrow> xs \<noteq> []
      | PDict kvs \<Rightarrow> kvs \<noteq> [])"

text \<open>\<^verbatim>\<open>a or b\<close>.\<close>

definition py_or :: "py_builtins \<Rightarrow> pyval \<Rightarrow> pyval \<Rightarrow> pyval" where
  "py_or bi a b = (if truthy bi a then a else b)"

text \<open>\<^verbatim>\<open>str(v)\<close>.\<close>

definition py_str :: "py_builtins \<Rightarrow> pyval \<Rightarrow> string" where
  "py_str bi v =
     (case v of
        PNone \<Rightarrow> ''None''
      | PBool b \<Rightarrow> (if b then ''True'' else ''False'')
      | PInt i \<Rightarrow> str_int i
      | PFloat d \<Rightarrow> float_repr bi d
      | PStr s \<Rightarrow> s
      | _ \<Rightarrow> repr_container bi v)"

text \<open>\<^verbatim>\<open>d.get(k)\<close> on a dict, and on any value: a value that is no dict has no \<^verbatim>\<open>get\<close>.\<close>

definition dict_get :: "(string \<times> pyval) list \<Rightarrow> string \<Rightarrow> pyval" where
  "dict_get kvs k = (case map_of kvs k of Some v \<Rightarrow> v | None \<Rightarrow> PNone)"

definition py_get :: "pyval \<Rightarrow> string \<Rightarrow> py_error + pyval" where
  "py_get v k = (case v of PDict kvs \<Rightarrow> Inr (dict_get kvs k) | _ \<Rightarrow> Inl AttributeError)"

text \<open>\<^verbatim>\<open>d.get(k, default)\<close>.\<close>

definition py_get_default :: "pyval \<Rightarrow> string \<Rightarrow> pyval \<Rightarrow> py_error + pyval" where
  "py_get_default v k dflt =
     (case v of
        PDict kvs \<Rightarrow> Inr (case map_of kvs k of Some x \<Rightarrow> x | None \<Rightarrow> dflt)
      | _ \<Rightarrow> Inl AttributeError)"

text \<open>\<^verbatim>\<open>d[k] = v\<close>: an existing key keeps its place, a new key goes last.\<close>

definition dict_set :: "(string \<times> 'v) list \<Rightarrow> string \<Rightarrow> 'v \<Rightarrow> (string \<times> 'v) list" where
  "dict_set kvs k v =
     (if k \<in> fst ` set kvs then map (\<lambda>(k', v'). if k' = k then (k', v) else (k', v')) kvs
      else kvs @ [(k, v)])"

text \<open>
  The elements a \<^verbatim>\<open>for\<close> loop visits: the items of a list, the keys of a dict, the
  characters of a string; anything else is not iterable.
\<close>

definition py_iter :: "pyval \<Rightarrow> py_error + pyval list" where
  "py_iter v =
     (case v of
        PList xs \<Rightarrow> Inr xs
      | PDict kvs \<Rightarrow> Inr (map (\<lambda>kv. PStr (fst kv)) kvs)
      | PStr s \<Rightarrow> Inr (map (\<lambda>c. PStr [c]) s)
      | _ \<Rightarrow> Inl TypeError)"

text \<open>Sequencing of steps that may raise, and a \<^verbatim>\<open>for\<close> loop threading a state.\<close>

definition ebind :: "py_error + 'a \<Rightarrow> ('a \<Rightarrow> py_error + 'b) \<Rightarrow> py_error + 'b" where
  "ebind m f = (case m of Inl e \<Rightarrow> Inl e | Inr x \<Rightarrow> f x)"

fun for_each :: "('a \<Rightarrow> 's \<Rightarrow> py_error + 's) \<Rightarrow> 'a list \<Rightarrow> 's \<Rightarrow> py_error + 's" where
  "for_each body [] s = Inr s"
| "for_each body (x # xs) s = ebind (body x s) (for_each body xs)"

datatype path_elem = Key string | Idx int

text \<open>\<^verbatim>\<open>safe_get(node, path, default)\<close>, the same function in every mapper.\<close>

fun safe_get :: "pyval \<Rightarrow> path_elem list \<Rightarrow> pyval \<Rightarrow> pyval" where
  "safe_get cur [] dflt = cur"
| "safe_get cur (p # ps) dflt =
     (if cur = PNone then dflt
      else (case p of
              Idx i \<Rightarrow>
                (case cur of
                   PList xs \<Rightarrow>
                     if i < 0 \<or> i \<ge> int (length xs) then dflt
                     else safe_get (xs ! nat i) ps dflt
                 | _ \<Rightarrow> dflt)
            | Key k \<Rightarrow>
                (case cur of
                   PDict kvs \<Rightarrow>
                     (case map_of kvs k of None \<Rightarrow> dflt | Some v \<Rightarrow> safe_get v ps dflt)
                 | _ \<Rightarrow> dflt)))"

text \<open>
  \<^verbatim>\<open>to_decimal(v)\<close>: \<^verbatim>\<open>None\<close> and the empty string give \<^verbatim>\<open>None\<close>, anything else goes through
  \<^verbatim>\<open>Decimal(str(v))\<close>. \<^verbatim>\<open>str\<close> of a bool, a list or a dict is never a numeral. \<^verbatim>\<open>str\<close> of
  an integer of more than 4300 digits raises \<^verbatim>\<open>ValueError\<close> (the default limit of CPython
  for the conversion of integers), which \<^verbatim>\<open>to_decimal\<close> catches.
\<close>

definition to_decimal :: "py_builtins \<Rightarrow> pyval \<Rightarrow> decimal option" where
  "to_decimal bi v =
     (case v of
        PNone \<Rightarrow> None
      | PStr s \<Rightarrow> if s = [] then None else parse_decimal s
      | PInt i \<Rightarrow> if length (str_nat \<bar>i\<bar>) \<le> 4300 then Some (Dec (i < 0) \<bar>i\<bar> 0) else None
      | PFloat d \<Rightarrow> parse_decimal (float_repr bi d)
      | _ \<Rightarrow> None)"

text \<open>
  \<^verbatim>\<open>fmt_decimal_to_float(d)\<close>, the float as the decimal it is the nearest double to:
  \<^verbatim>\<open>float(d)\<close> raises for a signalling NaN only, and so does the retry through \<^verbatim>\<open>str\<close>.
\<close>

definition fmt_decimal_to_float :: "decimal option \<Rightarrow> decimal option" where
  "fmt_decimal_to_float d =
     (case d of
        None \<Rightarrow> None
      | Some (DNaN s True p) \<Rightarrow> None
      | Some x \<Rightarrow> Some x)"

text \<open>The literal \<^verbatim>\<open>0.0\<close>.\<close>

definition float_zero :: pyval where
  "float_zero = PFloat dec_zero"

text \<open>A float or \<^verbatim>\<open>None\<close> as a value.\<close>

definition opt_float :: "decimal option \<Rightarrow> pyval" where
  "opt_float d = (case d of None \<Rightarrow> PNone | Some x \<Rightarrow> PFloat x)"

text \<open>
  An instance of the built-ins for trying the functions on concrete records. The theorems
  that speak of every \<open>bi\<close> do not depend on it. It is not CPython on every value: a float
  prints as the digits of its decimal, with \<^verbatim>\<open>.0\<close> added to a whole number, which is
  CPython's output for a whole number or a decimal without trailing zeros, of moderate
  size (the decimal \<^verbatim>\<open>60.00\<close> prints as \<^verbatim>\<open>60.00\<close> here and as \<^verbatim>\<open>60.0\<close> in CPython); floats
  are compared as decimals, not as doubles; and \<^verbatim>\<open>==\<close> is structural equality, so that
  \<^verbatim>\<open>True == 1\<close> is false here.
\<close>

definition demo_float_repr :: "decimal \<Rightarrow> string" where
  "demo_float_repr d =
     (case d of
        Dec s c e \<Rightarrow>
          (if e \<ge> 0 then dec_format_f (Dec s (c * 10 ^ nat e) 0) @ ''.0''
           else dec_format_f d)
      | DInf s \<Rightarrow> (if s then ''-inf'' else ''inf'')
      | DNaN s sig p \<Rightarrow> ''nan'')"

definition demo_scaled :: "decimal \<Rightarrow> decimal \<Rightarrow> (int \<times> int) option" where
  "demo_scaled a b =
     (case (a, b) of
        (Dec s1 c1 e1, Dec s2 c2 e2) \<Rightarrow>
          (let e = min e1 e2
           in Some (signed s1 c1 * 10 ^ nat (e1 - e), signed s2 c2 * 10 ^ nat (e2 - e)))
      | _ \<Rightarrow> None)"

definition demo_builtins :: py_builtins where
  "demo_builtins = \<lparr>
     float_repr = demo_float_repr,
     float_eq = (\<lambda>a b. case demo_scaled a b of Some (x, y) \<Rightarrow> x = y | None \<Rightarrow> False),
     float_lt = (\<lambda>a b. case demo_scaled a b of Some (x, y) \<Rightarrow> x < y | None \<Rightarrow> False),
     float_of_str = parse_decimal,
     repr_container = (\<lambda>v. ''[...]''),
     py_eq = (\<lambda>a b. a = b)\<rparr>"

section \<open>Tree normalization (decoder\_node/decoder.py)\<close>

text \<open>
  What the ASN.1 decoder returns: dicts with string keys, lists, tuples, strings and
  other scalars (\<open>Scalar\<close>: numbers, booleans, bytes, \<^verbatim>\<open>None\<close>). A dict is an association
  list in insertion order with distinct keys.
\<close>

datatype 'a dval =
    Scalar 'a
  | Str string
  | Lst "'a dval list"
  | Tup "'a dval list"
  | Dct "(string \<times> 'a dval) list"

text \<open>\<^verbatim>\<open>str(x)\<close>: a string is itself; what other values print as is a parameter.\<close>

definition dval_str :: "('a dval \<Rightarrow> string) \<Rightarrow> 'a dval \<Rightarrow> string" where
  "dval_str str_other v = (case v of Str s \<Rightarrow> s | _ \<Rightarrow> str_other v)"

definition is_var_pair :: "'a dval \<Rightarrow> bool" where
  "is_var_pair d =
     (case d of Dct kvs \<Rightarrow> set (map fst kvs) = {''varName'', ''varValue''} | _ \<Rightarrow> False)"

definition flatten_var_pair :: "('a dval \<Rightarrow> string) \<Rightarrow> 'a dval \<Rightarrow> 'a dval" where
  "flatten_var_pair str_other d =
     (case d of
        Dct kvs \<Rightarrow>
          (case (map_of kvs ''varName'', map_of kvs ''varValue'') of
             (Some x, Some y) \<Rightarrow> Dct [(dval_str str_other x, y)]
           | _ \<Rightarrow> d)
      | _ \<Rightarrow> d)"

definition is_single_key_dict :: "'a dval \<Rightarrow> bool" where
  "is_single_key_dict x = (case x of Dct [kv] \<Rightarrow> True | _ \<Rightarrow> False)"

text \<open>
  One step of the merge loop of \<^verbatim>\<open>_collapse_single_key_dicts\<close>: a key seen before
  accumulates its values in a list.
\<close>

definition merge_item :: "(string \<times> 'a dval) list \<Rightarrow> 'a dval \<Rightarrow> (string \<times> 'a dval) list" where
  "merge_item merged d =
     (case d of
        Dct [(k, v)] \<Rightarrow>
          (case map_of merged k of
             Some (Lst vs) \<Rightarrow> dict_set merged k (Lst (vs @ [v]))
           | Some old \<Rightarrow> dict_set merged k (Lst [old, v])
           | None \<Rightarrow> dict_set merged k v)
      | _ \<Rightarrow> merged)"

definition collapse_single_key_dicts :: "'a dval \<Rightarrow> 'a dval" where
  "collapse_single_key_dicts lst =
     (case lst of
        Lst xs \<Rightarrow>
          if xs = [] then lst
          else if \<not> list_all is_single_key_dict xs then lst
          else Dct (foldl merge_item [] xs)
      | _ \<Rightarrow> lst)"

definition untag_known_pairs :: "'a dval \<Rightarrow> 'a dval" where
  "untag_known_pairs obj =
     (case obj of
        Lst [Str t, Dct kvs] \<Rightarrow> Dct kvs
      | Tup [Str t, Dct kvs] \<Rightarrow> Dct kvs
      | _ \<Rightarrow> obj)"

lemma size_snd_set:
  "(k, v) \<in> set kvs \<Longrightarrow> size v < Suc (size_list (size_prod (\<lambda>_. 0) size) kvs)"
  by (induction kvs) auto

lemma size_untag: "size (untag_known_pairs obj) \<le> size obj"
  by (auto simp: untag_known_pairs_def split: dval.splits list.splits)

function flatten_and_collapse :: "('a dval \<Rightarrow> string) \<Rightarrow> 'a dval \<Rightarrow> 'a dval" where
  "flatten_and_collapse str_other obj0 =
     (let obj = untag_known_pairs obj0 in
      if is_var_pair obj then flatten_var_pair str_other obj
      else (case obj of
              Dct kvs \<Rightarrow>
                Dct (map (\<lambda>(key, v).
                       (key, if endswith key ''Elements'' \<or> key = ''recordElements''
                             then collapse_single_key_dicts (flatten_and_collapse str_other v)
                             else flatten_and_collapse str_other v)) kvs)
            | Lst xs \<Rightarrow> collapse_single_key_dicts (Lst (map (flatten_and_collapse str_other) xs))
            | _ \<Rightarrow> obj))"
  by pat_completeness auto
termination
proof (relation "measure (\<lambda>(s, obj). size obj)", goal_cases)
  case 1 show ?case by simp
next
  case (2 str_other obj0 x xs xa)
  from 2(4) have "size xa \<le> size_list size xs" by (rule size_list_estimation') simp
  then have "size xa < size (Lst xs)" by simp
  also from 2(1,3) have "size (Lst xs) = size (untag_known_pairs obj0)" by simp
  also have "\<dots> \<le> size obj0" by (rule size_untag)
  finally show ?case by simp
next
  case (3 str_other obj0 x kvs xa xb y)
  from 3(4,5) have "size y < size (Dct kvs)" by (auto dest: size_snd_set)
  also from 3(1,3) have "size (Dct kvs) = size (untag_known_pairs obj0)" by simp
  also have "\<dots> \<le> size obj0" by (rule size_untag)
  finally show ?case by simp
next
  case (4 str_other obj0 x kvs xa xb y)
  from 4(4,5) have "size y < size (Dct kvs)" by (auto dest: size_snd_set)
  also from 4(1,3) have "size (Dct kvs) = size (untag_known_pairs obj0)" by simp
  also have "\<dots> \<le> size obj0" by (rule size_untag)
  finally show ?case by simp
qed

declare flatten_and_collapse.simps [simp del]

text \<open>
  A tree in normal form holds, at every place the pass visits, no var-pair dict, no
  two-element \<^verbatim>\<open>[tag, dict]\<close> list or tuple, and no non-empty list made of single-key
  dicts only. The pass does not look inside tuples.
\<close>

definition tagged_pair :: "'a dval list \<Rightarrow> bool" where
  "tagged_pair xs = (case xs of [Str t, Dct kvs] \<Rightarrow> True | _ \<Rightarrow> False)"

definition collapsible :: "'a dval \<Rightarrow> bool" where
  "collapsible v =
     (case v of Lst xs \<Rightarrow> xs \<noteq> [] \<and> list_all is_single_key_dict xs | _ \<Rightarrow> False)"

fun normal :: "'a dval \<Rightarrow> bool" where
  "normal (Scalar a) = True"
| "normal (Str s) = True"
| "normal (Tup xs) = (\<not> tagged_pair xs)"
| "normal (Lst xs) =
     (\<not> tagged_pair xs \<and> \<not> collapsible (Lst xs) \<and> (\<forall>x \<in> set xs. normal x))"
| "normal (Dct kvs) = (\<not> is_var_pair (Dct kvs) \<and> (\<forall>kv \<in> set kvs. normal (snd kv)))"

text \<open>Inputs for trying the pass: a var pair, and a printer for scalars of type \<open>unit\<close>.\<close>

definition var_pair :: "string \<Rightarrow> 'a dval \<Rightarrow> 'a dval" where
  "var_pair n v = Dct [(''varName'', Str n), (''varValue'', v)]"

definition str_unit :: "unit dval \<Rightarrow> string" where
  "str_unit v = ''None''"

section \<open>Location decoding (voice\_usage\_datawarehouse\_mapper.py)\<close>

text \<open>\<^verbatim>\<open>s[a:b]\<close> for \<open>0 \<le> a \<le> b\<close>.\<close>

definition py_slice :: "string \<Rightarrow> nat \<Rightarrow> nat \<Rightarrow> string" where
  "py_slice s a b = take (b - a) (drop a s)"

definition last_n_chars :: "string \<Rightarrow> nat \<Rightarrow> string" where
  "last_n_chars s n = (if s = [] then [] else if length s \<ge> n then drop (length s - n) s else s)"

definition hex_chars :: "(char \<times> int) list" where
  "hex_chars = digit_chars @
     [(CHR ''a'', 10), (CHR ''b'', 11), (CHR ''c'', 12), (CHR ''d'', 13), (CHR ''e'', 14),
      (CHR ''f'', 15), (CHR ''A'', 10), (CHR ''B'', 11), (CHR ''C'', 12), (CHR ''D'', 13),
      (CHR ''E'', 14), (CHR ''F'', 15)]"

definition is_hex :: "char \<Rightarrow> bool" where
  "is_hex c = (map_of hex_chars c \<noteq> None)"

definition hex_val :: "char \<Rightarrow> int" where
  "hex_val c = (case map_of hex_chars c of Some n \<Rightarrow> n | None \<Rightarrow> 0)"

text \<open>The value of a string of hexadecimal digits.\<close>

definition hex_value :: "string \<Rightarrow> int" where
  "hex_value ds = foldl (\<lambda>acc c. 16 * acc + hex_val c) 0 ds"

fun double_underscore :: "string \<Rightarrow> bool" where
  "double_underscore (a # b # r) = ((a = CHR ''_'' \<and> b = CHR ''_'') \<or> double_underscore (b # r))"
| "double_underscore _ = False"

text \<open>
  \<^verbatim>\<open>int(s, 16)\<close>, \<open>None\<close> when it raises \<^verbatim>\<open>ValueError\<close>: surrounding whitespace, a sign,
  a \<^verbatim>\<open>0x\<close> prefix and single underscores between digits are accepted.
\<close>

definition int16_digits :: "string \<Rightarrow> int option" where
  "int16_digits ds =
     (if ds = [] \<or> hd ds = CHR ''_'' \<or> last ds = CHR ''_'' \<or> double_underscore ds
         \<or> \<not> list_all (\<lambda>c. c = CHR ''_'' \<or> is_hex c) ds
      then None
      else Some (hex_value (filter (\<lambda>c. c \<noteq> CHR ''_'') ds)))"

definition py_int16 :: "string \<Rightarrow> int option" where
  "py_int16 s =
     (let (neg, u) = split_sign (strip s);
          ds = (if lower (take 2 u) = ''0x''
                then (let r = drop 2 u in if r \<noteq> [] \<and> hd r = CHR ''_'' then tl r else r)
                else u)
      in map_option (\<lambda>n. if neg then - n else n) (int16_digits ds))"

fun pairs_of :: "string \<Rightarrow> string list" where
  "pairs_of (a # b # r) = [a, b] # pairs_of r"
| "pairs_of [a] = [[a]]"
| "pairs_of [] = []"

text \<open>
  \<^verbatim>\<open>decode_location_hex_field(hexstr)\<close> for \<^verbatim>\<open>hexstr: Optional[str]\<close>.
\<close>

definition decode_location_hex_field :: "string option \<Rightarrow> string" where
  "decode_location_hex_field hexstr =
     (case hexstr of
        None \<Rightarrow> []
      | Some h \<Rightarrow>
          if h = [] then []
          else (let s = last_n_chars h 18 in
                if length s < 18 then
                  (let s14 = last_n_chars h 14 in
                   if s14 = [] then []
                   else py_slice s14 0 6 @ ''-'' @ py_slice s14 6 10 @ ''-'' @ py_slice s14 10 14)
                else
                  (let tac_hex = py_slice s 0 4;
                       mccmnc_hex = py_slice s 4 10;
                       eci_hex = py_slice s 10 18;
                       tac_dec = (case py_int16 tac_hex of Some n \<Rightarrow> str_int n | None \<Rightarrow> tac_hex);
                       pairs = pairs_of mccmnc_hex;
                       swapped = concat (map rev pairs);
                       swapped_clean = filter (\<lambda>c. c \<noteq> CHR ''F'' \<and> c \<noteq> CHR ''f'') swapped;
                       eci_int = (case py_int16 eci_hex of Some n \<Rightarrow> n | None \<Rightarrow> 0);
                       enb = str_int (eci_int mod 256);
                       cell = str_int (eci_int div 256)
                   in swapped_clean @ ''-'' @ tac_dec @ ''-'' @ enb @ ''-'' @ cell)))"

section \<open>Warehouse mapping of voice records (voice\_usage\_datawarehouse\_mapper.py)\<close>

subsection \<open>Canonical shaping\<close>

definition CANONICAL_FIELDS :: "string list" where
  "CANONICAL_FIELDS =
  [''EL_CDR_ID'', ''EL_SRC_CDR_ID'', ''EL_CUST_LOCAL_START_DATE'', ''EL_SESSION_ID'',
    ''EL_ACTUAL_USAGE'', ''EL_RATE_USAGE'', ''EL_DEBIT_AMOUNT'',
    ''EL_FREE_UNIT_AMOUNT_OF_DURATION'', ''EL_ACCT_BALANCE_ID1'', ''EL_BALANCE_TYPE1'',
    ''EL_CUR_BALANCE1'', ''EL_CHG_BALANCE1'', ''EL_RATE_ID1'', ''EL_ACCT_BALANCE_ID2'',
    ''EL_BALANCE_TYPE2'', ''EL_CUR_BALANCE2'', ''EL_CHG_BALANCE2'', ''EL_RATE_ID2'',
    ''EL_ACCT_BALANCE_ID3'', ''EL_BALANCE_TYPE3'', ''EL_CUR_BALANCE3'', ''EL_CHG_BALANCE3'',
    ''EL_RATE_ID3'', ''EL_ACCT_BALANCE_ID4'', ''EL_BALANCE_TYPE4'', ''EL_CUR_BALANCE4'',
    ''EL_CHG_BALANCE4'', ''EL_RATE_ID4'', ''EL_ACCT_BALANCE_ID5'', ''EL_BALANCE_TYPE5'',
    ''EL_CUR_BALANCE5'', ''EL_CHG_BALANCE5'', ''EL_RATE_ID5'', ''EL_BUCKET_BALANCE_ID1'',
    ''EL_BUCKET_BALANCE_TYPE1'', ''EL_BUCKET_CUR_BALANCE1'', ''EL_BUCKET_CHG_BALANCE1'',
    ''EL_BUCKET_RATE_ID1'', ''EL_BUCKET_BALANCE_ID2'', ''EL_BUCKET_BALANCE_TYPE2'',
    ''EL_BUCKET_CUR_BALANCE2'', ''EL_BUCKET_CHG_BALANCE2'', ''EL_BUCKET_RATE_ID2'',
    ''EL_BUCKET_BALANCE_ID3'', ''EL_BUCKET_BALANCE_TYPE3'', ''EL_BUCKET_CUR_BALANCE3'',
    ''EL_BUCKET_CHG_BALANCE3'', ''EL_BUCKET_RATE_ID3'', ''EL_BUCKET_BALANCE_ID4'',
    ''EL_BUCKET_BALANCE_TYPE4'', ''EL_BUCKET_CUR_BALANCE4'', ''EL_BUCKET_CHG_BALANCE4'',
    ''EL_BUCKET_RATE_ID4'', ''EL_BUCKET_BALANCE_ID5'', ''EL_BUCKET_BALANCE_TYPE5'',
    ''EL_BUCKET_CUR_BALANCE5'', ''EL_BUCKET_CHG_BALANCE5'', ''EL_BUCKET_RATE_ID5'',
    ''EL_CALLING_PARTY_NUMBER'', ''EL_CALLED_PARTY_NUMBER'', ''EL_CALLING_PARTY_IMSI'',
    ''EL_CALLED_PARTY_IMSI'', ''EL_SERVICE_FLOW'', ''EL_CALLING_LOCATION_INFO'',
    ''EL_CALLED_LOCATION_INFO'', ''EL_SEND_RESULT'', ''EL_IMEI'', ''EL_REFUND_INDICATOR'',
    ''EL_MAIN_OFFERING_ID'', ''EL_CHARGING_PARTY_NUMBER'', ''EL_CHARGE_PARTY_IND'',
    ''EL_PAY_TYPE'', ''EL_ON_NET_INDICATOR'', ''EL_ROAM_STATE'', ''EL_OPPOSE_NETWORK_TYPE'',
    ''EL_CALLING_VPN_TOP_GROUP_NUMBER'', ''EL_CALLING_VPN_GROUP_NUMBER'',
    ''EL_CALLING_VPN_SHORT_NUMBERs'', ''EL_CALLED_VPN_TOP_GROUP_NUMBER'',
    ''EL_CALLED_VPN_GROUP_NUMBER'', ''EL_CALLED_VPN_SHORT_NUMBER'',
    ''EL_LAST_EFFECT_OFFERING'', ''EL_ALTERNATE_ID'', ''EL_HOME_ZONE_ID'',
    ''EL_USER_STATE'', ''EL_PAY_DEFAULT_ACCT_ID'', ''EL_TAX1'', ''EL_TAX2'',
    ''EL_USER_GROUP_ID'', ''EL_BUSINESS_TYPE'', ''EL_SUBSCRIBER_KEY'', ''EL_ACCOUNT_KEY'',
    ''EL_DISCOUNT_OF_LAST_EFF_PROD'', ''EL_ADDITIONALBALANCEINFO_CHARGINGSERVICENAME'',
    ''EL_ADDITIONALBALANCEINFO_USAGETYPE'', ''EL_ADDITIONALBALANCEINFO_USEDAS'',
    ''EL_ADDITIONALBALANCEINFO_BUCKETINFO_BUCKETNAME'',
    ''EL_ADDITIONALBALANCEINFO_BUCKETINFO_BUCKETUNITTYPE'',
    ''EL_ADDITIONALBALANCEINFO_BUCKETINFO_BUCKETKINDOFUNIT'',
    ''EL_ADDITIONALBALANCEINFO_BUCKETINFO_BUCKETBALANCEBEFORE'',
    ''EL_ADDITIONALBALANCEINFO_BUCKETINFO_BUCKETBALANCEAFTER'',
    ''EL_ADDITIONALBALANCEINFO_BUCKETINFO_CARRYOVERBUCKET'',
    ''EL_ADDITIONALBALANCEINFO_BUCKETINFO_BUCKETCOMMITEDUNITS'',
    ''EL_ADDITIONALBALANCEINFO_BUCKETINFO_BUCKETRESERVEDUNITS'',
    ''EL_ADDITIONALBALANCEINFO_BUCKETINFO_RATEID'',
    ''EL_ADDITIONALBALANCEINFO_BUCKETINFO_PRIMARYCOSTCOMMITTED'',
    ''EL_ADDITIONALBALANCEINFO_BUCKETINFO_SECONDARYCOSTCOMMITTED'',
    ''EL_ADDITIONALBALANCEINFO_BUCKETINFO_TAXATIONID'',
    ''EL_ADDITIONALBALANCEINFO_BUCKETINFO_TAXRATEAPPLIED'',
    ''EL_ADDITIONALBALANCEINFO_BUCKETINFO_COMMITTEDTAXAMOUNT'',
    ''EL_ADDITIONALBALANCEINFO_BUCKETINFO_TOTALTAXAMOUNT'',
    ''EL_ADDITIONALBALANCEINFO_BUCKETINFO_TARIFFID'',
    ''EL_ADDITIONALBALANCEINFO_BUCKETINFO_TOTALUNITSCHARGED'',
    ''EL_ADDITIONALBALANCEINFO_BUCKETINFO_TOTALTIMECHARGED'',
    ''EL_ADDITIONALBALANCEINFO_BUCKETINFO_ROUNDEDTIMECHARGED'',
    ''EL_ADDITIONALBALANCEINFO_BUCKETINFO_DELTATIME'', ''EL_UNLTD_BUNDLE_NAME'',
    ''EL_UNLTD_TOTAL_TIME_CHARGED'', ''EL_UNLTD_ROUNDED_UNITS_CHARGED'',
    ''EL_UNLTD_BUNDLE_UNIT_TYPE'', ''EL_ORIG_LOCATION'']"

definition numeric_fields :: "string list" where
  "numeric_fields =
     [''EL_DEBIT_AMOUNT'', ''EL_ON_NET_INDICATOR'', ''EL_TAX1'', ''EL_TAX2'',
      ''EL_UNLTD_ROUNDED_UNITS_CHARGED'', ''EL_UNLTD_TOTAL_TIME_CHARGED'']
     @ concat (map (\<lambda>i. [''EL_CUR_BALANCE'' @ str_nat i, ''EL_CHG_BALANCE'' @ str_nat i])
                   [1, 2, 3, 4, 5])"

text \<open>The type default of a field, and the value \<^verbatim>\<open>enforce_canonical\<close> stores under one key.\<close>

definition default_value :: "string \<Rightarrow> pyval" where
  "default_value key = (if key \<in> set numeric_fields then float_zero else PStr [])"

definition canonical_value :: "(string \<times> pyval) list \<Rightarrow> string \<Rightarrow> pyval" where
  "canonical_value mapped key =
     (case map_of mapped key of
        Some v \<Rightarrow> if v \<noteq> PNone \<and> v \<noteq> PStr [] then v else default_value key
      | None \<Rightarrow> default_value key)"

text \<open>A number, as \<^verbatim>\<open>json\<close> and the mapper make them: an \<^verbatim>\<open>int\<close> or a \<^verbatim>\<open>float\<close>.\<close>

definition is_number :: "pyval \<Rightarrow> bool" where
  "is_number v = (case v of PInt i \<Rightarrow> True | PFloat d \<Rightarrow> True | _ \<Rightarrow> False)"

definition enforce_canonical :: "(string \<times> pyval) list \<Rightarrow> (string \<times> pyval) list" where
  "enforce_canonical mapped =
     foldl (\<lambda>out key. dict_set out key (canonical_value mapped key)) [] CANONICAL_FIELDS"

subsection \<open>Walking the record tree\<close>

text \<open>
  \<^verbatim>\<open>safe_get(x, ["recordProperty"]) == p\<close>,
  \<^verbatim>\<open>safe_get(x, ["recordSubExtensions"], []) or []\<close> as the items a loop visits, and
  \<^verbatim>\<open>safe_get(x, ["recordElements"], {}) or {}\<close>.
\<close>

definition prop_is :: "pyval \<Rightarrow> string \<Rightarrow> bool" where
  "prop_is node p = (safe_get node [Key ''recordProperty''] PNone = PStr p)"

definition sub_extensions :: "py_builtins \<Rightarrow> pyval \<Rightarrow> py_error + pyval list" where
  "sub_extensions bi node =
     py_iter (py_or bi (safe_get node [Key ''recordSubExtensions''] (PList [])) (PList []))"

definition record_elements :: "py_builtins \<Rightarrow> pyval \<Rightarrow> pyval" where
  "record_elements bi node =
     py_or bi (safe_get node [Key ''recordElements''] (PDict [])) (PDict [])"

text \<open>
  \<^verbatim>\<open>for x in safe_get(node, ["recordSubExtensions"], []) or []:\<close>
  \<^verbatim>\<open>    if safe_get(x, ["recordProperty"]) == p: body\<close>
\<close>

definition for_children ::
  "py_builtins \<Rightarrow> pyval \<Rightarrow> string \<Rightarrow> (pyval \<Rightarrow> 's \<Rightarrow> py_error + 's) \<Rightarrow> 's \<Rightarrow> py_error + 's" where
  "for_children bi node p body st =
     ebind (sub_extensions bi node)
       (\<lambda>xs. for_each (\<lambda>x s. if prop_is x p then body x s else Inr s) xs st)"

text \<open>\<^verbatim>\<open>x if x is not None else 0.0\<close> for an optional float.\<close>

definition float_or_zero :: "decimal option \<Rightarrow> pyval" where
  "float_or_zero x = (case x of Some d \<Rightarrow> PFloat d | None \<Rightarrow> float_zero)"

subsection \<open>EL\_ACTUAL\_USAGE and EL\_RATE\_USAGE (lines 281 to 304)\<close>

text \<open>The first \<^verbatim>\<open>mscc\<close> block whose \<^verbatim>\<open>totalTimeConsumed\<close> is a decimal ends the loop.\<close>

fun usage_loop :: "py_builtins \<Rightarrow> pyval list \<Rightarrow> py_error + decimal option" where
  "usage_loop bi [] = Inr None"
| "usage_loop bi (mscc # rest) =
     (if prop_is mscc ''mscc'' then
        ebind (py_get (record_elements bi mscc) ''totalTimeConsumed'')
          (\<lambda>tv. if tv \<noteq> PNone
                then (case to_decimal bi tv of
                        Some d \<Rightarrow> Inr (fmt_decimal_to_float (Some d))
                      | None \<Rightarrow> usage_loop bi rest)
                else usage_loop bi rest)
      else usage_loop bi rest)"

definition usage_phase :: "py_builtins \<Rightarrow> pyval option \<Rightarrow> py_error + decimal option" where
  "usage_phase bi list_of_mscc_ext =
     (case list_of_mscc_ext of
        None \<Rightarrow> Inr None
      | Some ext \<Rightarrow> ebind (sub_extensions bi ext) (usage_loop bi))"

subsection \<open>EL\_DEBIT\_AMOUNT and EL\_FREE\_UNIT\_AMOUNT\_OF\_DURATION (lines 306 to 360)\<close>

text \<open>
  The state of the loops is \<^verbatim>\<open>(el_debit_amt, el_free_units)\<close>, two optional floats.
  First the second inner loop of a \<^verbatim>\<open>chargingServiceInfo\<close> block: the last
  \<^verbatim>\<open>accountInfo\<close> and the last \<^verbatim>\<open>noCharge\<close> value.
\<close>

definition scan_account_nocharge ::
  "py_builtins \<Rightarrow> pyval list \<Rightarrow> py_error + (pyval \<times> pyval)" where
  "scan_account_nocharge bi s4s =
     for_each
       (\<lambda>s4 (account_info, nocharge_val).
          let account_info' = (if prop_is s4 ''accountInfo'' then record_elements bi s4
                               else account_info)
          in if prop_is s4 ''noCharge''
             then ebind (py_get (record_elements bi s4) ''noChargeCommittedUnits'')
                    (\<lambda>v. Inr (account_info', v))
             else Inr (account_info', nocharge_val))
       s4s (PDict [], PNone)"

definition charging_service_debit ::
  "py_builtins \<Rightarrow> pyval \<Rightarrow> decimal option \<times> decimal option
     \<Rightarrow> py_error + (decimal option \<times> decimal option)" where
  "charging_service_debit bi s3 st =
     (case st of (el_debit_amt, el_free_units) \<Rightarrow>
      ebind (sub_extensions bi s3) (\<lambda>s4s.
      let has_bucket = list_ex (\<lambda>s4. prop_is s4 ''bucketInfo'') s4s in
      ebind (scan_account_nocharge bi s4s) (\<lambda>(account_info, nocharge_val).
      if \<not> has_bucket \<and> truthy bi account_info then
        ebind (py_get account_info ''accountBalanceCommittedBR'') (\<lambda>v0.
        ebind (if v0 = PNone then py_get account_info ''accountBalanceCommitted'' else Inr v0)
          (\<lambda>v.
        let debit' = (if v \<noteq> PNone \<and> el_debit_amt = None
                      then (case to_decimal bi v of
                              Some dv \<Rightarrow> fmt_decimal_to_float (Some dv)
                            | None \<Rightarrow> el_debit_amt)
                      else el_debit_amt);
            free' = (if nocharge_val \<noteq> PNone \<and> el_free_units = None
                     then fmt_decimal_to_float (to_decimal bi nocharge_val)
                     else el_free_units)
        in Inr (debit', free')))
      else if truthy bi account_info \<and> el_debit_amt = None then
        ebind (py_get account_info ''accountBalanceBefore'') (\<lambda>b.
        ebind (py_get account_info ''accountBalanceAfter'') (\<lambda>a.
        case (to_decimal bi b, to_decimal bi a) of
          (Some bef, Some aft) \<Rightarrow>
            ebind (dec_sub bef aft)
              (\<lambda>diff. Inr (fmt_decimal_to_float (Some diff), el_free_units))
        | _ \<Rightarrow> Inr (el_debit_amt, el_free_units)))
      else Inr (el_debit_amt, el_free_units))))"

definition mscc_debit ::
  "py_builtins \<Rightarrow> pyval \<Rightarrow> decimal option \<times> decimal option
     \<Rightarrow> py_error + (decimal option \<times> decimal option)" where
  "mscc_debit bi mscc st =
     for_children bi mscc ''deviceInfo''
       (\<lambda>sub. for_children bi sub ''subscriptionInfo''
          (\<lambda>s2. for_children bi s2 ''chargingServiceInfo'' (charging_service_debit bi)))
       st"

text \<open>The loop over the \<^verbatim>\<open>mscc\<close> blocks, which stops once both values are known.\<close>

fun mscc_debit_loop ::
  "py_builtins \<Rightarrow> pyval list \<Rightarrow> decimal option \<times> decimal option
     \<Rightarrow> py_error + (decimal option \<times> decimal option)" where
  "mscc_debit_loop bi [] st = Inr st"
| "mscc_debit_loop bi (mscc # rest) st =
     (if \<not> prop_is mscc ''mscc'' then mscc_debit_loop bi rest st
      else ebind (mscc_debit bi mscc st)
             (\<lambda>st'. if fst st' \<noteq> None \<and> snd st' \<noteq> None then Inr st'
                    else mscc_debit_loop bi rest st'))"

definition debit_phase ::
  "py_builtins \<Rightarrow> pyval option \<Rightarrow> py_error + (decimal option \<times> decimal option)" where
  "debit_phase bi list_of_mscc_ext =
     (case list_of_mscc_ext of
        None \<Rightarrow> Inr (None, None)
      | Some ext \<Rightarrow>
          ebind (sub_extensions bi ext) (\<lambda>msccs. mscc_debit_loop bi msccs (None, None)))"

subsection \<open>Account-only and bucket-bearing subscriptions (lines 553 to 587)\<close>

record bucket =
  bucketName :: pyval
  bucketUnitType :: pyval
  bucketBalanceBefore :: "decimal option"
  bucketBalanceAfter :: "decimal option"
  bucketCommitedUnits :: "decimal option"
  rateId :: pyval

record bucket_sub =
  bs_bundleName :: pyval
  buckets :: "bucket list"

record account_entry =
  ao_bundleName :: pyval
  acct :: pyval

definition make_bucket :: "py_builtins \<Rightarrow> pyval \<Rightarrow> py_error + bucket" where
  "make_bucket bi be =
     (case be of
        PDict kvs \<Rightarrow>
          Inr \<lparr>bucketName = py_or bi (dict_get kvs ''bucketName'') (PStr []),
               bucketUnitType = py_or bi (dict_get kvs ''bucketUnitType'') (PStr []),
               bucketBalanceBefore = to_decimal bi (dict_get kvs ''bucketBalanceBefore''),
               bucketBalanceAfter = to_decimal bi (dict_get kvs ''bucketBalanceAfter''),
               bucketCommitedUnits =
                 to_decimal bi (py_or bi (dict_get kvs ''bucketCommitedUnits'')
                                         (dict_get kvs ''bucketCommittedUnits'')),
               rateId = py_or bi (dict_get kvs ''rateId'') (PStr [])\<rparr>
      | _ \<Rightarrow> Inl AttributeError)"

text \<open>
  One \<^verbatim>\<open>s4\<close> block inside a \<^verbatim>\<open>chargingServiceInfo\<close>; the state is
  \<^verbatim>\<open>(has_bucket, acct_info, buckets)\<close>.
\<close>

definition scan_s4 ::
  "py_builtins \<Rightarrow> pyval \<Rightarrow> bool \<times> pyval option \<times> bucket list
     \<Rightarrow> py_error + (bool \<times> pyval option \<times> bucket list)" where
  "scan_s4 bi s4 st =
     (case st of (has_bucket, acct_info, bks) \<Rightarrow>
      ebind (if prop_is s4 ''bucketInfo''
             then ebind (make_bucket bi (record_elements bi s4)) (\<lambda>b. Inr (True, bks @ [b]))
             else Inr (has_bucket, bks))
        (\<lambda>(has_bucket', bks').
           Inr (has_bucket',
                (if prop_is s4 ''accountInfo'' \<and> acct_info = None
                 then Some (record_elements bi s4) else acct_info),
                bks')))"

text \<open>One \<^verbatim>\<open>subscriptionInfo\<close> block; the state is \<^verbatim>\<open>(account_only, bucket_subs)\<close>.\<close>

definition subscription_entry ::
  "py_builtins \<Rightarrow> pyval \<Rightarrow> account_entry list \<times> bucket_sub list
     \<Rightarrow> py_error + (account_entry list \<times> bucket_sub list)" where
  "subscription_entry bi s2 st =
     (case st of (account_only, bucket_subs) \<Rightarrow>
      let bundle = py_or bi
                     (py_or bi (safe_get s2 [Key ''recordElements'', Key ''bundleName''] PNone)
                               (safe_get s2 [Key ''recordElements'', Key ''bundle_name''] PNone))
                     (PStr [])
      in ebind (for_children bi s2 ''chargingServiceInfo''
                  (\<lambda>s3 st3. ebind (sub_extensions bi s3) (\<lambda>s4s. for_each (scan_s4 bi) s4s st3))
                  (False, None, []))
           (\<lambda>(has_bucket, acct_info, bks).
              if has_bucket \<and> bks \<noteq> []
              then Inr (account_only, bucket_subs @ [\<lparr>bs_bundleName = bundle, buckets = bks\<rparr>])
              else (case acct_info of
                      Some a \<Rightarrow>
                        if truthy bi a
                        then Inr (account_only @ [\<lparr>ao_bundleName = bundle, acct = a\<rparr>],
                                  bucket_subs)
                        else Inr (account_only, bucket_subs)
                    | None \<Rightarrow> Inr (account_only, bucket_subs))))"

definition phase2 ::
  "py_builtins \<Rightarrow> pyval option \<Rightarrow> py_error + (account_entry list \<times> bucket_sub list)" where
  "phase2 bi list_of_mscc_ext =
     (case list_of_mscc_ext of
        None \<Rightarrow> Inr ([], [])
      | Some ext \<Rightarrow>
          for_children bi ext ''mscc''
            (\<lambda>mscc. for_children bi mscc ''deviceInfo''
               (\<lambda>sub. for_children bi sub ''subscriptionInfo'' (subscription_entry bi)))
            ([], []))"

text \<open>A list comprehension or an appending loop whose body may raise.\<close>

fun map_err :: "('a \<Rightarrow> py_error + 'b) \<Rightarrow> 'a list \<Rightarrow> py_error + 'b list" where
  "map_err f [] = Inr []"
| "map_err f (x # xs) = ebind (f x) (\<lambda>y. ebind (map_err f xs) (\<lambda>ys. Inr (y # ys)))"

text \<open>
  Tree order, in the words of the specification: the children of a node that carry a
  given \<^verbatim>\<open>recordProperty\<close>, in the order of its \<^verbatim>\<open>recordSubExtensions\<close>, and the
  \<^verbatim>\<open>subscriptionInfo\<close> blocks below the \<^verbatim>\<open>deviceInfo\<close> blocks below the \<^verbatim>\<open>mscc\<close> blocks of
  the \<^verbatim>\<open>listOfMscc\<close> extension, in the order in which a reader of the tree meets them.
\<close>

definition children :: "py_builtins \<Rightarrow> pyval \<Rightarrow> string \<Rightarrow> py_error + pyval list" where
  "children bi node p =
     ebind (sub_extensions bi node) (\<lambda>xs. Inr (filter (\<lambda>x. prop_is x p) xs))"

definition subscription_blocks :: "py_builtins \<Rightarrow> pyval \<Rightarrow> py_error + pyval list" where
  "subscription_blocks bi ext =
     ebind (children bi ext ''mscc'') (\<lambda>msccs.
     ebind (map_err (\<lambda>mscc. children bi mscc ''deviceInfo'') msccs) (\<lambda>devs.
     ebind (map_err (\<lambda>sub. children bi sub ''subscriptionInfo'') (concat devs)) (\<lambda>subs.
       Inr (concat subs))))"

subsection \<open>The five account slots (lines 589 to 617)\<close>

definition slot_key :: "string \<Rightarrow> nat \<Rightarrow> string" where
  "slot_key name n = name @ str_nat (int n)"

text \<open>\<^verbatim>\<open>x or Decimal(0)\<close>.\<close>

definition dec_or_zero :: "decimal option \<Rightarrow> decimal" where
  "dec_or_zero x = (case x of Some d \<Rightarrow> if dec_truthy d then d else dec_zero | None \<Rightarrow> dec_zero)"

text \<open>The value of \<^verbatim>\<open>EL_CHG_BALANCE{n}\<close> for an account.\<close>

definition account_chg :: "py_builtins \<Rightarrow> (string \<times> pyval) list \<Rightarrow> py_error + pyval" where
  "account_chg bi kvs =
     (let cur = to_decimal bi (dict_get kvs ''accountBalanceAfter'');
          bef = to_decimal bi (dict_get kvs ''accountBalanceBefore'')
      in case (bef, cur) of
           (Some b, Some c) \<Rightarrow>
             ebind (dec_sub b c) (\<lambda>diff.
             ebind (dec_ge_zero diff) (\<lambda>ge.
               if ge then Inr (float_or_zero (fmt_decimal_to_float (Some diff)))
               else (let committed =
                           dec_or_zero
                             (dec_or (to_decimal bi (dict_get kvs ''accountBalanceCommitted''))
                                     (to_decimal bi (dict_get kvs ''accountBalanceCommittedBR'')));
                         secondary =
                           dec_or_zero (to_decimal bi (dict_get kvs ''secondaryCostCommitted''))
                     in ebind (dec_add committed secondary)
                          (\<lambda>ssum. Inr (float_or_zero (fmt_decimal_to_float (Some ssum)))))))
         | _ \<Rightarrow> Inr float_zero)"

text \<open>The five assignments of a populated account slot, in order.\<close>

definition account_slot ::
  "py_builtins \<Rightarrow> nat \<Rightarrow> pyval \<Rightarrow> py_error + (string \<times> pyval) list" where
  "account_slot bi n a =
     (case a of
        PDict kvs \<Rightarrow>
          (let cur = to_decimal bi (dict_get kvs ''accountBalanceAfter'') in
           ebind (account_chg bi kvs) (\<lambda>chg.
             Inr [(slot_key ''EL_ACCT_BALANCE_ID'' n, py_or bi (dict_get kvs ''accountID'') (PStr [])),
                  (slot_key ''EL_BALANCE_TYPE'' n, py_or bi (dict_get kvs ''accountType'') (PStr [])),
                  (slot_key ''EL_CUR_BALANCE'' n,
                     if cur \<noteq> None then opt_float (fmt_decimal_to_float cur) else float_zero),
                  (slot_key ''EL_CHG_BALANCE'' n, chg),
                  (slot_key ''EL_RATE_ID'' n, py_or bi (dict_get kvs ''rateId'') (PStr []))]))
      | _ \<Rightarrow> Inl AttributeError)"

definition account_defaults :: "nat \<Rightarrow> (string \<times> pyval) list" where
  "account_defaults n =
     [(slot_key ''EL_ACCT_BALANCE_ID'' n, PStr []),
      (slot_key ''EL_BALANCE_TYPE'' n, PStr []),
      (slot_key ''EL_CUR_BALANCE'' n, float_zero),
      (slot_key ''EL_CHG_BALANCE'' n, float_zero),
      (slot_key ''EL_RATE_ID'' n, PStr [])]"

definition assign_all :: "(string \<times> pyval) list \<Rightarrow> (string \<times> pyval) list \<Rightarrow> (string \<times> pyval) list" where
  "assign_all out kvs = foldl (\<lambda>acc kv. dict_set acc (fst kv) (snd kv)) out kvs"

text \<open>\<^verbatim>\<open>for idx in range(5):\<close> over the account-only entries.\<close>

definition populate_account_slots ::
  "py_builtins \<Rightarrow> account_entry list \<Rightarrow> (string \<times> pyval) list
     \<Rightarrow> py_error + (string \<times> pyval) list" where
  "populate_account_slots bi account_only out0 =
     for_each
       (\<lambda>idx out.
          if idx < length account_only
          then ebind (account_slot bi (idx + 1) (acct (account_only ! idx)))
                 (\<lambda>kvs. Inr (assign_all out kvs))
          else Inr (assign_all out (account_defaults (idx + 1))))
       [0, 1, 2, 3, 4] out0"

subsection \<open>The five bucket slots (lines 619 to 659)\<close>

text \<open>\<^verbatim>\<open>",".join(xs)\<close> for a list of values: every item must be a string.\<close>

definition join_vals :: "pyval list \<Rightarrow> py_error + string" where
  "join_vals xs =
     (if list_all (\<lambda>x. case x of PStr s \<Rightarrow> True | _ \<Rightarrow> False) xs
      then Inr (join '','' (map (\<lambda>x. case x of PStr s \<Rightarrow> s | _ \<Rightarrow> []) xs))
      else Inl TypeError)"

text \<open>One element of \<^verbatim>\<open>cur_vals\<close> and one of \<^verbatim>\<open>chg_vals\<close>.\<close>

definition bucket_cur_val :: "py_builtins \<Rightarrow> bucket \<Rightarrow> string" where
  "bucket_cur_val bi b =
     (case bucketBalanceAfter b of
        Some ba \<Rightarrow> py_str bi (opt_float (fmt_decimal_to_float (Some ba)))
      | None \<Rightarrow> ''0.0'')"

definition committed_str :: "py_builtins \<Rightarrow> bucket \<Rightarrow> string" where
  "committed_str bi b =
     py_str bi (float_or_zero (fmt_decimal_to_float (Some (dec_or_zero (bucketCommitedUnits b)))))"

definition bucket_chg_val :: "py_builtins \<Rightarrow> bucket \<Rightarrow> py_error + string" where
  "bucket_chg_val bi b =
     (case (bucketBalanceBefore b, bucketBalanceAfter b) of
        (Some bef, Some aft) \<Rightarrow>
          ebind (dec_sub bef aft) (\<lambda>diff.
          ebind (dec_ge_zero diff) (\<lambda>ge.
            if ge then Inr (py_str bi (float_or_zero (fmt_decimal_to_float (Some diff))))
            else Inr (committed_str bi b)))
      | _ \<Rightarrow> Inr (committed_str bi b))"

definition bucket_slot ::
  "py_builtins \<Rightarrow> nat \<Rightarrow> bucket_sub \<Rightarrow> py_error + (string \<times> pyval) list" where
  "bucket_slot bi n entry =
     (let bundle = py_or bi (bs_bundleName entry) (PStr []);
          bks = buckets entry;
          names = filter (truthy bi) (map bucketName bks)
      in ebind (if truthy bi bundle \<and> names \<noteq> []
                then (case bundle of
                        PStr s \<Rightarrow> ebind (join_vals names) (\<lambda>j. Inr (PStr (s @ ''-'' @ j)))
                      | _ \<Rightarrow> Inl TypeError)
                else if truthy bi bundle then Inr bundle
                else ebind (join_vals names) (\<lambda>j. Inr (PStr j)))
           (\<lambda>id_val.
         ebind (join_vals (filter (truthy bi) (map bucketUnitType bks))) (\<lambda>types.
         ebind (map_err (bucket_chg_val bi) bks) (\<lambda>chg_vals.
         ebind (join_vals (filter (truthy bi) (map rateId bks))) (\<lambda>rates.
           Inr [(slot_key ''EL_BUCKET_BALANCE_ID'' n, id_val),
                (slot_key ''EL_BUCKET_BALANCE_TYPE'' n, PStr types),
                (slot_key ''EL_BUCKET_CUR_BALANCE'' n, PStr (join '','' (map (bucket_cur_val bi) bks))),
                (slot_key ''EL_BUCKET_CHG_BALANCE'' n, PStr (join '','' chg_vals)),
                (slot_key ''EL_BUCKET_RATE_ID'' n, PStr rates)])))))"

definition bucket_defaults :: "nat \<Rightarrow> (string \<times> pyval) list" where
  "bucket_defaults n =
     [(slot_key ''EL_BUCKET_BALANCE_ID'' n, PStr []),
      (slot_key ''EL_BUCKET_BALANCE_TYPE'' n, PStr []),
      (slot_key ''EL_BUCKET_CUR_BALANCE'' n, float_zero),
      (slot_key ''EL_BUCKET_CHG_BALANCE'' n, float_zero),
      (slot_key ''EL_BUCKET_RATE_ID'' n, PStr [])]"

definition populate_bucket_slots ::
  "py_builtins \<Rightarrow> bucket_sub list \<Rightarrow> (string \<times> pyval) list
     \<Rightarrow> py_error + (string \<times> pyval) list" where
  "populate_bucket_slots bi bucket_subs out0 =
     for_each
       (\<lambda>idx out.
          if idx < length bucket_subs
          then ebind (bucket_slot bi (idx + 1) (bucket_subs ! idx))
                 (\<lambda>kvs. Inr (assign_all out kvs))
          else Inr (assign_all out (bucket_defaults (idx + 1))))
       [0, 1, 2, 3, 4] out0"

subsection \<open>Identifiers (lines 274 to 279)\<close>

text \<open>\<^verbatim>\<open>d.get(k1) or d.get(k2) or ... or default\<close>.\<close>

definition get_first :: "py_builtins \<Rightarrow> pyval \<Rightarrow> string list \<Rightarrow> pyval \<Rightarrow> py_error + pyval" where
  "get_first bi d ks dflt =
     (case d of
        PDict kvs \<Rightarrow> Inr (foldr (\<lambda>k rest. py_or bi (dict_get kvs k) rest) ks dflt)
      | _ \<Rightarrow> Inl AttributeError)"

definition phase1 :: "py_builtins \<Rightarrow> pyval \<Rightarrow> py_error + (string \<times> pyval) list" where
  "phase1 bi record_elems =
     ebind (get_first bi record_elems [''sessionId'', ''recordId''] (PStr [])) (\<lambda>cdr_id.
     ebind (get_first bi record_elems [''sessionSequenceNumber''] (PStr [])) (\<lambda>src_id.
     ebind (get_first bi record_elems
              [''callAnswerTime'', ''recordOpeningTime'', ''generationTimestamp''] (PStr []))
       (\<lambda>start.
     ebind (get_first bi record_elems [''sessionId''] (PStr [])) (\<lambda>session.
       Inr [(''EL_CDR_ID'', cdr_id), (''EL_SRC_CDR_ID'', src_id),
            (''EL_CUST_LOCAL_START_DATE'', start), (''EL_SESSION_ID'', session)]))))"

subsection \<open>EL\_ON\_NET\_INDICATOR (lines 469 to 476)\<close>

definition on_net_indicator :: "pyval \<Rightarrow> pyval" where
  "on_net_indicator on_net =
     (case on_net of
        PBool b \<Rightarrow> PInt (if b then 1 else 0)
      | PStr s \<Rightarrow> PInt (if lower s = ''true'' then 1 else 0)
      | _ \<Rightarrow> PInt 0)"

definition on_net_phase :: "pyval \<Rightarrow> py_error + (string \<times> pyval) list" where
  "on_net_phase record_elems =
     ebind (py_get record_elems ''isOnNet'')
       (\<lambda>on_net. Inr [(''EL_ON_NET_INDICATOR'', on_net_indicator on_net)])"

subsection \<open>EL\_TAX1 and EL\_TAX2 (lines 532 to 548)\<close>

text \<open>
  At line 536 the names \<^verbatim>\<open>account_only\<close> and \<^verbatim>\<open>bucket_subs\<close> are not bound yet (their
  first assignment is at lines 554 and 555), so \<^verbatim>\<open>'account_only' in locals()\<close> is
  false and both taxes come from \<^verbatim>\<open>CBL_TAG\<close>, when that is a dict.
\<close>

definition cbl_tax :: "py_builtins \<Rightarrow> pyval \<Rightarrow> string \<Rightarrow> pyval" where
  "cbl_tax bi cbl key =
     (case (case cbl of PDict kvs \<Rightarrow> to_decimal bi (dict_get kvs key) | _ \<Rightarrow> None) of
        Some d \<Rightarrow> opt_float (fmt_decimal_to_float (Some d))
      | None \<Rightarrow> float_zero)"

definition tax_phase :: "py_builtins \<Rightarrow> pyval \<Rightarrow> (string \<times> pyval) list" where
  "tax_phase bi cbl =
     [(''EL_TAX1'', cbl_tax bi cbl ''EL_TAX1''), (''EL_TAX2'', cbl_tax bi cbl ''EL_TAX2'')]"

subsection \<open>Unlimited bundle (lines 760 to 777)\<close>

text \<open>
  One entry of \<^verbatim>\<open>account_only\<close>: the three assignments when it is an unlimited bundle.
  The loop reads every entry, also those beyond the fifth, until the first hit.
\<close>

definition unlimited_entry ::
  "py_builtins \<Rightarrow> account_entry \<Rightarrow> py_error + (string \<times> pyval) list option" where
  "unlimited_entry bi entry =
     (let a = py_or bi (acct entry) (PDict []);
          bundle_name = py_or bi (ao_bundleName entry) (PStr [])
      in ebind (py_get a ''accountBalanceCommitted'') (\<lambda>c1.
         ebind (py_get a ''accountBalanceCommittedBR'') (\<lambda>c2.
         ebind (py_get a ''totalTimeCharged'') (\<lambda>t1.
         ebind (py_get a ''roundedTimeCharged'') (\<lambda>t2.
         let committed = dec_or (to_decimal bi c1) (to_decimal bi c2);
             total_time = dec_or (to_decimal bi t1) (to_decimal bi t2)
         in case committed of
              None \<Rightarrow> Inr None
            | Some c \<Rightarrow>
                ebind (dec_eq_zero c) (\<lambda>z.
                  if \<not> z then Inr None
                  else (case total_time of
                          None \<Rightarrow> Inr None
                        | Some t \<Rightarrow>
                            ebind (dec_gt_zero t) (\<lambda>g.
                              if \<not> g then Inr None
                              else Inr (Some
                                [(''EL_UNLTD_BUNDLE_NAME'', bundle_name),
                                 (''EL_UNLTD_TOTAL_TIME_CHARGED'',
                                    float_or_zero (fmt_decimal_to_float (Some t))),
                                 (''EL_UNLTD_BUNDLE_UNIT_TYPE'', PStr ''TIME'')])))))))))"

fun unlimited_loop ::
  "py_builtins \<Rightarrow> account_entry list \<Rightarrow> py_error + (string \<times> pyval) list" where
  "unlimited_loop bi [] = Inr []"
| "unlimited_loop bi (entry # rest) =
     ebind (unlimited_entry bi entry)
       (\<lambda>hit. case hit of Some kvs \<Rightarrow> Inr kvs | None \<Rightarrow> unlimited_loop bi rest)"

definition unlimited_defaults :: "(string \<times> pyval) list" where
  "unlimited_defaults =
     [(''EL_UNLTD_BUNDLE_NAME'', PStr []), (''EL_UNLTD_TOTAL_TIME_CHARGED'', float_zero),
      (''EL_UNLTD_ROUNDED_UNITS_CHARGED'', PStr []), (''EL_UNLTD_BUNDLE_UNIT_TYPE'', PStr [])]"

definition unlimited_phase ::
  "py_builtins \<Rightarrow> account_entry list \<Rightarrow> (string \<times> pyval) list
     \<Rightarrow> py_error + (string \<times> pyval) list" where
  "unlimited_phase bi account_only out =
     ebind (unlimited_loop bi account_only)
       (\<lambda>kvs. Inr (assign_all out (unlimited_defaults @ kvs)))"

subsection \<open>The numeric and balance fields of map\_voice\<close>

text \<open>
  \<^verbatim>\<open>map_voice\<close> fills a dict \<^verbatim>\<open>out\<close> phase by phase (\<open>map_voice_out\<close>) and returns
  \<^verbatim>\<open>enforce_canonical(out)\<close>. The phases modelled here, in the order of the source, are
  the identifiers of lines 274 to 279, the usage, the debit amount and free units, the
  on-net indicator, the taxes, the account and bucket slots, and the unlimited bundle.
  They are all the phases that write a field of \<^verbatim>\<open>numeric_fields\<close>, and the slot and usage
  fields. The phases not modelled (event label and service flow, IMSI and party numbers,
  location, IMEI, pay type, alternate ids, main offering, additional balance info) write
  other keys only; on ill-typed attributes they can raise, and then \<^verbatim>\<open>map_voice\<close>
  returns nothing. So every record \<^verbatim>\<open>map_voice\<close> returns agrees with the record of this
  model on the keys the model writes.
\<close>

text \<open>What lines 303, 304, 359 and 360 store.\<close>

definition usage_debit_fields ::
  "decimal option \<Rightarrow> decimal option \<times> decimal option \<Rightarrow> (string \<times> pyval) list" where
  "usage_debit_fields el_actual_usage st =
     (case st of (el_debit_amt, el_free_units) \<Rightarrow>
        [(''EL_ACTUAL_USAGE'', float_or_zero el_actual_usage),
         (''EL_RATE_USAGE'', float_or_zero el_actual_usage),
         (''EL_DEBIT_AMOUNT'', float_or_zero el_debit_amt),
         (''EL_FREE_UNIT_AMOUNT_OF_DURATION'',
            (case el_free_units of Some d \<Rightarrow> PFloat d | None \<Rightarrow> PStr []))])"

text \<open>
  Lines 264 to 290: the \<^verbatim>\<open>CBL_TAG\<close>, the record elements with the identifiers read from
  them, and the \<^verbatim>\<open>listOfMscc\<close> block.
\<close>

definition read_record ::
  "py_builtins \<Rightarrow> pyval
     \<Rightarrow> py_error + (pyval \<times> pyval \<times> (string \<times> pyval) list \<times> pyval option)" where
  "read_record bi cdr_json =
     (let generic = py_or bi (safe_get cdr_json
                                [Key ''original'', Key ''payload'', Key ''genericRecord'']
                                (PDict []))
                             cdr_json;
          record_elems = py_or bi (safe_get generic [Key ''recordElements''] (PDict []))
                                  (PDict []);
          extensions = py_or bi (safe_get generic [Key ''recordExtensions''] (PList []))
                                (PList [])
      in ebind (py_get cdr_json ''CBL_TAG'') (\<lambda>cbl_tag.
         ebind (phase1 bi record_elems) (\<lambda>ids.
         ebind (py_iter extensions) (\<lambda>exts.
           Inr (py_or bi cbl_tag (PDict []), record_elems, ids,
                find (\<lambda>ext. prop_is ext ''listOfMscc'') exts)))))"

text \<open>The dict \<^verbatim>\<open>out\<close> after line 548, on the keys modelled.\<close>

definition scalar_fields ::
  "py_builtins \<Rightarrow> pyval \<Rightarrow> pyval \<Rightarrow> (string \<times> pyval) list \<Rightarrow> pyval option
     \<Rightarrow> py_error + (string \<times> pyval) list" where
  "scalar_fields bi cbl record_elems ids list_of_mscc_ext =
     ebind (usage_phase bi list_of_mscc_ext) (\<lambda>el_actual_usage.
     ebind (debit_phase bi list_of_mscc_ext) (\<lambda>debit.
     ebind (on_net_phase record_elems) (\<lambda>on_net.
       Inr (assign_all []
              (ids @ usage_debit_fields el_actual_usage debit @ on_net @ tax_phase bi cbl)))))"

text \<open>Lines 553 to 777: the slots and the unlimited bundle.\<close>

definition slot_fields ::
  "py_builtins \<Rightarrow> pyval option \<Rightarrow> (string \<times> pyval) list
     \<Rightarrow> py_error + (string \<times> pyval) list" where
  "slot_fields bi list_of_mscc_ext out1 =
     ebind (phase2 bi list_of_mscc_ext) (\<lambda>(account_only, bucket_subs).
     ebind (populate_account_slots bi account_only out1) (\<lambda>out2.
     ebind (populate_bucket_slots bi bucket_subs out2) (\<lambda>out3.
       unlimited_phase bi account_only out3)))"

definition map_voice_out ::
  "py_builtins \<Rightarrow> pyval \<Rightarrow> py_error + (string \<times> pyval) list" where
  "map_voice_out bi cdr_json =
     ebind (read_record bi cdr_json) (\<lambda>(cbl, record_elems, ids, list_of_mscc_ext).
     ebind (scalar_fields bi cbl record_elems ids list_of_mscc_ext)
       (slot_fields bi list_of_mscc_ext))"

text \<open>
  The same computation as the list of assignments \<^verbatim>\<open>out[k] = v\<close> in the order of the
  source: every phase only assigns, so \<^verbatim>\<open>out\<close> is these assignments applied to the
  empty dict.
\<close>

definition slot_writes ::
  "py_builtins \<Rightarrow> account_entry list \<Rightarrow> bucket_sub list \<Rightarrow> py_error + (string \<times> pyval) list" where
  "slot_writes bi account_only bucket_subs =
     ebind (map_err (\<lambda>idx. if idx < length account_only
                              then account_slot bi (idx + 1) (acct (account_only ! idx))
                              else Inr (account_defaults (idx + 1)))
              [0, 1, 2, 3, 4]) (\<lambda>accounts.
     ebind (map_err (\<lambda>idx. if idx < length bucket_subs
                              then bucket_slot bi (idx + 1) (bucket_subs ! idx)
                              else Inr (bucket_defaults (idx + 1)))
              [0, 1, 2, 3, 4]) (\<lambda>bks.
     ebind (unlimited_loop bi account_only) (\<lambda>unlimited.
       Inr (concat accounts @ concat bks @ unlimited_defaults @ unlimited))))"

definition map_voice_writes ::
  "py_builtins \<Rightarrow> pyval \<Rightarrow> py_error + (string \<times> pyval) list" where
  "map_voice_writes bi cdr_json =
     ebind (read_record bi cdr_json) (\<lambda>(cbl, record_elems, ids, list_of_mscc_ext).
     ebind (usage_phase bi list_of_mscc_ext) (\<lambda>el_actual_usage.
     ebind (debit_phase bi list_of_mscc_ext) (\<lambda>debit.
     ebind (on_net_phase record_elems) (\<lambda>on_net.
     ebind (phase2 bi list_of_mscc_ext) (\<lambda>(account_only, bucket_subs).
     ebind (slot_writes bi account_only bucket_subs) (\<lambda>slots.
       Inr (ids @ usage_debit_fields el_actual_usage debit @ on_net @ tax_phase bi cbl
            @ slots)))))))"

text \<open>Assignments that give a numeric field a number, \<^verbatim>\<open>None\<close> or the empty string.\<close>

definition empty_or_number :: "pyval \<Rightarrow> bool" where
  "empty_or_number v \<longleftrightarrow> v = PNone \<or> v = PStr [] \<or> is_number v"

definition numbers_ok :: "(string \<times> pyval) list \<Rightarrow> bool" where
  "numbers_ok kvs =
     list_all (\<lambda>kv. fst kv \<in> set numeric_fields \<longrightarrow> empty_or_number (snd kv)) kvs"

definition map_voice_balances ::
  "py_builtins \<Rightarrow> pyval \<Rightarrow> py_error + (string \<times> pyval) list" where
  "map_voice_balances bi cdr_json =
     ebind (map_voice_out bi cdr_json) (\<lambda>out. Inr (enforce_canonical out))"

text \<open>One field of a mapped record; \<open>None\<close> when the mapping raised.\<close>

definition field :: "py_error + (string \<times> pyval) list \<Rightarrow> string \<Rightarrow> pyval option" where
  "field r key = (case r of Inr out \<Rightarrow> map_of out key | Inl e \<Rightarrow> None)"

text \<open>Records for trying the mapper: a node of the tree, and the nesting down to one
  \<^verbatim>\<open>subscriptionInfo\<close> list.\<close>

definition node :: "string \<Rightarrow> (string \<times> pyval) list \<Rightarrow> pyval list \<Rightarrow> pyval" where
  "node p elems subs =
     PDict [(''recordProperty'', PStr p), (''recordElements'', PDict elems),
            (''recordSubExtensions'', PList subs)]"

definition mscc_ext :: "pyval list \<Rightarrow> pyval" where
  "mscc_ext s2s = node ''listOfMscc'' [] [node ''mscc'' [] [node ''deviceInfo'' [] s2s]]"

definition cdr_of_subscriptions :: "pyval list \<Rightarrow> pyval" where
  "cdr_of_subscriptions s2s =
     PDict [(''recordElements'', PDict []), (''recordExtensions'', PList [mscc_ext s2s])]"

definition account_subscription :: "(string \<times> pyval) list \<Rightarrow> pyval" where
  "account_subscription acc =
     node ''subscriptionInfo'' []
       [node ''chargingServiceInfo'' [] [node ''accountInfo'' acc []]]"

definition bucket_subscription :: "string \<Rightarrow> (string \<times> pyval) list \<Rightarrow> pyval" where
  "bucket_subscription bundle be =
     node ''subscriptionInfo'' [(''bundleName'', PStr bundle)]
       [node ''chargingServiceInfo'' [] [node ''bucketInfo'' be []]]"

text \<open>A record with one \<^verbatim>\<open>accountInfo\<close> block that holds the two balances and nothing
  else, and no \<^verbatim>\<open>bucketInfo\<close> block.\<close>

definition one_account_record :: "pyval \<Rightarrow> pyval \<Rightarrow> pyval" where
  "one_account_record bef aft =
     cdr_of_subscriptions
       [account_subscription [(''accountBalanceBefore'', bef), (''accountBalanceAfter'', aft)]]"

text \<open>A bucket-bearing \<^verbatim>\<open>subscriptionInfo\<close> block numbered \<open>i\<close>, and a record made of such
  blocks.\<close>

definition numbered_bucket :: "int \<Rightarrow> pyval" where
  "numbered_bucket i =
     bucket_subscription (''B'' @ str_nat i)
       [(''bucketName'', PStr (''n'' @ str_nat i)),
        (''bucketBalanceBefore'', PInt (10 * i)),
        (''bucketBalanceAfter'', PInt i)]"

text \<open>What \<^verbatim>\<open>bucket_subs\<close> holds for the block numbered \<open>i\<close>.\<close>

definition numbered_entry :: "int \<Rightarrow> bucket_sub" where
  "numbered_entry i =
     \<lparr>bs_bundleName = PStr (''B'' @ str_nat i),
      buckets = [\<lparr>bucketName = PStr (''n'' @ str_nat i), bucketUnitType = PStr [],
                  bucketBalanceBefore = Some (Dec (i < 0) \<bar>10 * i\<bar> 0),
                  bucketBalanceAfter = Some (Dec (i < 0) \<bar>i\<bar> 0),
                  bucketCommitedUnits = None, rateId = PStr []\<rparr>]\<rparr>"

definition bucket_record :: "int list \<Rightarrow> pyval" where
  "bucket_record is = cdr_of_subscriptions (map numbered_bucket is)"

text \<open>An account-only \<^verbatim>\<open>subscriptionInfo\<close> block numbered \<open>i\<close>, what \<^verbatim>\<open>account_only\<close>
  holds for it, and a record made of such blocks.\<close>

definition numbered_account_elems :: "int \<Rightarrow> (string \<times> pyval) list" where
  "numbered_account_elems i =
     [(''accountID'', PStr (''A'' @ str_nat i)),
      (''accountBalanceBefore'', PInt (10 * i)),
      (''accountBalanceAfter'', PInt i)]"

definition numbered_account :: "int \<Rightarrow> pyval" where
  "numbered_account i =
     node ''subscriptionInfo'' [(''bundleName'', PStr (''P'' @ str_nat i))]
       [node ''chargingServiceInfo'' [] [node ''accountInfo'' (numbered_account_elems i) []]]"

definition numbered_account_entry :: "int \<Rightarrow> account_entry" where
  "numbered_account_entry i =
     \<lparr>ao_bundleName = PStr (''P'' @ str_nat i), acct = PDict (numbered_account_elems i)\<rparr>"

definition account_record :: "int list \<Rightarrow> pyval" where
  "account_record is = cdr_of_subscriptions (map numbered_account is)"

text \<open>One \<^verbatim>\<open>subscriptionInfo\<close> block that holds seven \<^verbatim>\<open>bucketInfo\<close> blocks.\<close>

definition seven_in_one :: pyval where
  "seven_in_one =
     cdr_of_subscriptions
       [node ''subscriptionInfo'' [(''bundleName'', PStr ''B'')]
          [node ''chargingServiceInfo'' []
             (map (\<lambda>i. node ''bucketInfo''
                          [(''bucketName'', PStr (''n'' @ str_nat i)),
                           (''bucketBalanceBefore'', PInt (10 * i)),
                           (''bucketBalanceAfter'', PInt i)] [])
                  [1, 2, 3, 4, 5, 6, 7])]]"

text \<open>Five numbered accounts followed by a sixth account that is an unlimited bundle.\<close>

definition unlimited_account :: "int \<Rightarrow> pyval" where
  "unlimited_account i =
     node ''subscriptionInfo'' [(''bundleName'', PStr (''U'' @ str_nat i))]
       [node ''chargingServiceInfo'' []
          [node ''accountInfo''
             [(''accountBalanceCommitted'', PInt 0), (''accountBalanceCommittedBR'', PInt 0),
              (''totalTimeCharged'', PInt 60)] []]]"

definition sixth_unlimited :: pyval where
  "sixth_unlimited =
     cdr_of_subscriptions (map numbered_account [1, 2, 3, 4, 5] @ [unlimited_account 6])"

section \<open>The billing mapper: gross call cost\<close>

text \<open>
  From \<^verbatim>\<open>billing_mapper_node/data_usage_billing_mapper.py\<close>. \<^verbatim>\<open>safe_get\<close>, \<^verbatim>\<open>to_decimal\<close>
  and \<^verbatim>\<open>fmt_decimal_to_float\<close> are the functions of the voice mapper.

  \<^verbatim>\<open>fmt_decimal(d)\<close>: five decimal places in fixed notation, and \<^verbatim>\<open>str(d)\<close> when
  \<^verbatim>\<open>quantize\<close> raises.
\<close>

definition fmt_decimal :: "decimal option \<Rightarrow> string" where
  "fmt_decimal d =
     (case d of
        None \<Rightarrow> []
      | Some x \<Rightarrow> (case dec_quantize x (- 5) of
                     Inr q \<Rightarrow> dec_format_f q
                   | Inl err \<Rightarrow> dec_str x))"

text \<open>The items of \<^verbatim>\<open>x.get('recordSubExtensions', []) or []\<close>.\<close>

definition sub_items :: "py_builtins \<Rightarrow> pyval \<Rightarrow> py_error + pyval list" where
  "sub_items bi x =
     ebind (py_get_default x ''recordSubExtensions'' (PList []))
       (\<lambda>v. py_iter (py_or bi v (PList [])))"

text \<open>
  \<^verbatim>\<open>for y in x.get('recordSubExtensions', []) or []:\<close>
  \<^verbatim>\<open>    if y.get('recordProperty') == p: body\<close>
\<close>

definition for_items ::
  "py_builtins \<Rightarrow> pyval \<Rightarrow> string \<Rightarrow> (pyval \<Rightarrow> 's \<Rightarrow> py_error + 's) \<Rightarrow> 's \<Rightarrow> py_error + 's" where
  "for_items bi x p body st =
     ebind (sub_items bi x)
       (\<lambda>ys. for_each (\<lambda>y s. ebind (py_get y ''recordProperty'')
                                 (\<lambda>q. if q = PStr p then body y s else Inr s)) ys st)"

definition collect_subscription_blocks :: "py_builtins \<Rightarrow> pyval \<Rightarrow> py_error + pyval list" where
  "collect_subscription_blocks bi mscc_block =
     (if \<not> truthy bi mscc_block then Inr []
      else for_items bi mscc_block ''mscc''
             (\<lambda>sub. for_items bi sub ''deviceInfo''
                (\<lambda>dev. for_items bi dev ''subscriptionInfo''
                   (\<lambda>sinfo subs. Inr (subs @ [sinfo]))))
             [])"

text \<open>
  Lines 160 to 169, for one \<^verbatim>\<open>accountInfo\<close> block with elements \<^verbatim>\<open>acc\<close>: the new
  \<^verbatim>\<open>(tax_amount, gross_amount)\<close>.
\<close>

definition account_amounts ::
  "py_builtins \<Rightarrow> pyval \<Rightarrow> py_error + (decimal option \<times> decimal option)" where
  "account_amounts bi acc =
     ebind (py_get acc ''committedTaxAmount'') (\<lambda>t.
     ebind (py_get acc ''accountBalanceCommittedBR'') (\<lambda>br.
     ebind (py_get acc ''accountBalanceCommitted'') (\<lambda>cm.
     let tax_amount = to_decimal bi t in
     case to_decimal bi (py_or bi br cm) of
       Some g \<Rightarrow> Inr (tax_amount, Some g)
     | None \<Rightarrow>
         ebind (py_get acc ''accountBalanceBefore'') (\<lambda>b.
         ebind (py_get acc ''accountBalanceAfter'') (\<lambda>a.
         case (to_decimal bi b, to_decimal bi a) of
           (Some bef, Some aft) \<Rightarrow>
             ebind (dec_sub bef aft) (\<lambda>diff. Inr (tax_amount, Some diff))
         | _ \<Rightarrow> Inr (tax_amount, None))))))"

text \<open>The loop over the blocks of one \<^verbatim>\<open>chargingServiceInfo\<close>, which ends at the first
  \<^verbatim>\<open>accountInfo\<close>.\<close>

fun first_account ::
  "py_builtins \<Rightarrow> pyval list \<Rightarrow> decimal option \<times> decimal option
     \<Rightarrow> py_error + (decimal option \<times> decimal option)" where
  "first_account bi [] st = Inr st"
| "first_account bi (csub # rest) st =
     ebind (py_get csub ''recordProperty'')
       (\<lambda>p. if p = PStr ''accountInfo''
             then ebind (py_get_default csub ''recordElements'' (PDict []))
                    (\<lambda>re. account_amounts bi (py_or bi re (PDict [])))
             else first_account bi rest st)"

text \<open>The loop over the blocks of one subscription, and the loop over the
  subscriptions; both end once an amount is known.\<close>

fun charge_loop ::
  "py_builtins \<Rightarrow> pyval list \<Rightarrow> decimal option \<times> decimal option
     \<Rightarrow> py_error + (decimal option \<times> decimal option)" where
  "charge_loop bi [] st = Inr st"
| "charge_loop bi (charge # rest) st =
     ebind (py_get charge ''recordProperty'')
       (\<lambda>p. if p \<noteq> PStr ''chargingServiceInfo'' then charge_loop bi rest st
             else ebind (sub_items bi charge) (\<lambda>csubs.
                  ebind (first_account bi csubs st) (\<lambda>st'.
                    if snd st' \<noteq> None \<or> fst st' \<noteq> None then Inr st'
                    else charge_loop bi rest st')))"

fun subs_loop ::
  "py_builtins \<Rightarrow> pyval list \<Rightarrow> decimal option \<times> decimal option
     \<Rightarrow> py_error + (decimal option \<times> decimal option)" where
  "subs_loop bi [] st = Inr st"
| "subs_loop bi (s # rest) st =
     ebind (sub_items bi s) (\<lambda>charges.
     ebind (charge_loop bi charges st) (\<lambda>st'.
       if snd st' \<noteq> None \<or> fst st' \<noteq> None then Inr st'
       else subs_loop bi rest st'))"

text \<open>
  \<^verbatim>\<open>(tax_amount, gross_amount)\<close> after line 172, and the three fields of lines 174 to
  181. The other fields of \<^verbatim>\<open>map_billing\<close> are not modelled: they are computed
  from the same blocks by other loops and do not change these three.
\<close>

definition billing_amounts ::
  "py_builtins \<Rightarrow> pyval list \<Rightarrow> py_error + (decimal option \<times> decimal option)" where
  "billing_amounts bi subs = subs_loop bi subs (None, None)"

definition billing_costs ::
  "py_builtins \<Rightarrow> pyval list \<Rightarrow> py_error + (string \<times> pyval) list" where
  "billing_costs bi subs =
     ebind (billing_amounts bi subs) (\<lambda>(tax_amount, gross_amount).
     ebind (case gross_amount of
              None \<Rightarrow> Inr None
            | Some g \<Rightarrow> ebind (dec_sub g (dec_or_zero tax_amount)) (\<lambda>c. Inr (Some c)))
       (\<lambda>call_cost.
          Inr [(''EL_TAX_AMOUNT'', PStr (fmt_decimal tax_amount)),
               (''EL_GROSS_CALL_COST'', PStr (fmt_decimal gross_amount)),
               (''EL_CALL_COST'', PStr (fmt_decimal call_cost))]))"

text \<open>The cost fields for a record whose \<^verbatim>\<open>listOfMscc\<close> block is \<open>list_of_mscc\<close>.\<close>

definition map_billing_costs ::
  "py_builtins \<Rightarrow> pyval \<Rightarrow> py_error + (string \<times> pyval) list" where
  "map_billing_costs bi list_of_mscc =
     ebind (collect_subscription_blocks bi list_of_mscc) (billing_costs bi)"

section \<open>Routing by configured rules\<close>

text \<open>
  From \<^verbatim>\<open>COMMAN BLN/cbl.py\<close>: \<^verbatim>\<open>evaluate_condition\<close> and \<^verbatim>\<open>route_using_config\<close>.

  \<^verbatim>\<open>float(v)\<close> inside \<^verbatim>\<open>try ... except Exception\<close>: \<open>None\<close> when it raises. An integer
  converts unless it rounds beyond the largest double.
\<close>

definition int_to_float :: "int \<Rightarrow> decimal option" where
  "int_to_float i =
     (if \<bar>i\<bar> < 2 ^ 1024 - 2 ^ 970 then Some (Dec (i < 0) \<bar>i\<bar> 0) else None)"

definition py_float :: "py_builtins \<Rightarrow> pyval \<Rightarrow> decimal option" where
  "py_float bi v =
     (case v of
        PBool b \<Rightarrow> Some (Dec False (if b then 1 else 0) 0)
      | PInt i \<Rightarrow> int_to_float i
      | PFloat d \<Rightarrow> Some d
      | PStr s \<Rightarrow> float_of_str bi s
      | _ \<Rightarrow> None)"

text \<open>The six comparison operators on floats, in the order the loop tries them.\<close>

definition operators :: "string list" where
  "operators = [''>='', ''<='', ''>'', ''<'', ''!='', ''=='']"

definition compare_op :: "py_builtins \<Rightarrow> string \<Rightarrow> decimal \<Rightarrow> decimal \<Rightarrow> bool" where
  "compare_op bi op x y =
     (if op = ''>'' then float_lt bi y x
      else if op = ''<'' then float_lt bi x y
      else if op = ''>='' then float_lt bi y x \<or> float_eq bi x y
      else if op = ''<='' then float_lt bi x y \<or> float_eq bi x y
      else if op = ''=='' then float_eq bi x y
      else \<not> float_eq bi x y)"

text \<open>The branch \<^verbatim>\<open>isinstance(condition, str)\<close>, lines 345 to 375.\<close>

definition string_condition ::
  "py_builtins \<Rightarrow> pyval \<Rightarrow> decimal option \<Rightarrow> string \<Rightarrow> bool" where
  "string_condition bi val val_num condition =
     (let cond = strip condition in
      case find (startswith cond) operators of
        Some op \<Rightarrow>
          (let rhs = strip (drop (length op) cond) in
           case float_of_str bi rhs of
             Some rhs_num \<Rightarrow>
               (case val_num of None \<Rightarrow> False | Some x \<Rightarrow> compare_op bi op x rhs_num)
           | None \<Rightarrow>
               if op = ''=='' then py_str bi val = rhs
               else if op = ''!='' then py_str bi val \<noteq> rhs
               else False)
      | None \<Rightarrow> py_str bi val = cond)"

text \<open>
  \<^verbatim>\<open>evaluate_condition(record_fields, key, condition)\<close>. A \<^verbatim>\<open>bool\<close> is an \<^verbatim>\<open>int\<close> for
  \<^verbatim>\<open>isinstance\<close>, so the first branch takes it; \<^verbatim>\<open>float(condition)\<close> is outside every
  \<^verbatim>\<open>try\<close>.
\<close>

definition evaluate_condition ::
  "py_builtins \<Rightarrow> (string \<times> pyval) list \<Rightarrow> string \<Rightarrow> pyval \<Rightarrow> py_error + bool" where
  "evaluate_condition bi record_fields key condition =
     (case map_of record_fields key of
        None \<Rightarrow> Inr False
      | Some val \<Rightarrow>
          (let val_num = py_float bi val
           in case condition of
                PInt i \<Rightarrow> (case val_num of
                             None \<Rightarrow> Inr False
                           | Some x \<Rightarrow> (case int_to_float i of
                                         None \<Rightarrow> Inl OverflowError
                                       | Some y \<Rightarrow> Inr (float_eq bi x y)))
              | PBool b \<Rightarrow> (case val_num of
                              None \<Rightarrow> Inr False
                            | Some x \<Rightarrow> Inr (float_eq bi x (Dec False (if b then 1 else 0) 0)))
              | PFloat d \<Rightarrow> (case val_num of
                               None \<Rightarrow> Inr False
                             | Some x \<Rightarrow> Inr (float_eq bi x d))
              | PStr s \<Rightarrow> Inr (string_condition bi val val_num s)
              | _ \<Rightarrow> Inr (py_eq bi val condition)))"

text \<open>The loop over \<^verbatim>\<open>conditions.items()\<close>, lines 412 to 415: the value of \<^verbatim>\<open>match\<close>.\<close>

fun conditions_match ::
  "py_builtins \<Rightarrow> (string \<times> pyval) list \<Rightarrow> (string \<times> pyval) list \<Rightarrow> py_error + bool" where
  "conditions_match bi el_fields [] = Inr True"
| "conditions_match bi el_fields ((k, cond) # rest) =
     ebind (evaluate_condition bi el_fields k cond)
       (\<lambda>ok. if \<not> ok then Inr False else conditions_match bi el_fields rest)"

text \<open>
  Where a record is written: the directory of a named destination, or a folder of the
  data warehouse. Creating the directory and writing the file are taken to succeed.
\<close>

datatype destination =
    Dest string string
  | DestDWH string string string

text \<open>\<^verbatim>\<open>Path(x)\<close> for a string.\<close>

definition as_path :: "pyval \<Rightarrow> py_error + string" where
  "as_path v = (case v of PStr p \<Rightarrow> Inr p | _ \<Rightarrow> Inl TypeError)"

text \<open>
  Lines 409 to 415 for one rule: \<^verbatim>\<open>conditions = rule.get("conditions", {}) or {}\<close> and
  the value of \<^verbatim>\<open>match\<close> after the loop.
\<close>

definition rule_match ::
  "py_builtins \<Rightarrow> (string \<times> pyval) list \<Rightarrow> pyval \<Rightarrow> py_error + bool" where
  "rule_match bi el_fields rule =
     ebind (py_get_default rule ''conditions'' (PDict [])) (\<lambda>c.
     ebind (case py_or bi c (PDict []) of PDict kvs \<Rightarrow> Inr kvs | _ \<Rightarrow> Inl AttributeError)
       (conditions_match bi el_fields))"

text \<open>One turn of the loop over the rules, lines 408 to 443: what it writes.\<close>

definition route_rule ::
  "py_builtins \<Rightarrow> pyval \<Rightarrow> (string \<times> pyval) list \<Rightarrow> pyval \<Rightarrow> py_error + destination list" where
  "route_rule bi out_dirs el_fields rule =
     ebind (py_get rule ''name'') (\<lambda>name.
     ebind (rule_match bi el_fields rule) (\<lambda>match.
       if \<not> match then Inr []
       else (case name of
               PStr n \<Rightarrow>
                 if upper n = ''DWH'' then
                   ebind (py_get_default out_dirs ''DWH'' (PStr ''out/DWH'')) (\<lambda>b.
                   ebind (as_path b) (\<lambda>base.
                     Inr [DestDWH base
                            (if py_eq bi (dict_get el_fields ''EL_GROUP_USAGE'') (PInt 1)
                             then ''group_usage'' else ''single_usage'')
                            (py_str bi (py_or bi (dict_get el_fields ''EL_REC_TYPE'')
                                                 (PStr ''OTHER'')))]))
                 else
                   ebind (if upper n = ''LMS''
                          then (case py_or bi (dict_get el_fields ''EL_REC_TYPE'') (PStr []) of
                                  PStr t \<Rightarrow> Inr (upper t = ''ECOMMERCE'')
                                | _ \<Rightarrow> Inl AttributeError)
                          else Inr False)
                     (\<lambda>skip.
                        if skip then Inr []
                        else ebind (py_get_default out_dirs n (PStr (''./out/'' @ lower n)))
                               (\<lambda>d. ebind (as_path d) (\<lambda>dest_dir. Inr [Dest n dest_dir])))
             | _ \<Rightarrow> Inl AttributeError)))"

text \<open>
  \<^verbatim>\<open>route_using_config\<close> for the rules \<^verbatim>\<open>routing_rules\<close> and the directories
  \<^verbatim>\<open>out_dirs\<close> of the configuration: the destinations written, in order, and the
  exception that ended the loop, if any.
\<close>

fun route_using_config ::
  "py_builtins \<Rightarrow> pyval \<Rightarrow> pyval list \<Rightarrow> (string \<times> pyval) list
     \<Rightarrow> destination list \<times> py_error option" where
  "route_using_config bi out_dirs [] el_fields = ([], None)"
| "route_using_config bi out_dirs (rule # rest) el_fields =
     (case route_rule bi out_dirs el_fields rule of
        Inl e \<Rightarrow> ([], Some e)
      | Inr ds \<Rightarrow> (case route_using_config bi out_dirs rest el_fields of
                    (ds', e) \<Rightarrow> (ds @ ds', e)))"

text \<open>The default rules and directories of \<^verbatim>\<open>DEFAULT_CONFIG\<close>.\<close>

definition default_rules :: "pyval list" where
  "default_rules =
     [PDict [(''name'', PStr ''CRM''), (''conditions'', PDict [])],
      PDict [(''name'', PStr ''BILLING''),
             (''conditions'', PDict [(''EL_PRE_POST'', PStr ''POSTPAID''),
                                     (''EL_SUCCESS'', PInt 1)])],
      PDict [(''name'', PStr ''LMS''),
             (''conditions'', PDict [(''EL_SUCCESS'', PInt 1),
                                     (''EL_DEBIT_AMOUNT'', PStr ''>0'')])],
      PDict [(''name'', PStr ''RA''), (''conditions'', PDict [])],
      PDict [(''name'', PStr ''DWH''), (''conditions'', PDict [])]]"

definition default_dirs :: pyval where
  "default_dirs =
     PDict [(''CRM'', PStr ''out/crm''), (''BILLING'', PStr ''out/billing''),
            (''LMS'', PStr ''out/lms''), (''RA'', PStr ''out/ra''),
            (''DWH'', PStr ''out/DWH'')]"

section \<open>Properties of the framer\<close>

lemma frame_step_offset:
  assumes "consumes spec"
  shows "offset st < offset (frame_step spec raw_data st)"
proof (cases "try_decode spec (drop (offset st) raw_data)")
  case None
  then show ?thesis by (simp add: frame_step_def Let_def)
next
  case (Some p)
  obtain r n where p: "p = (r, n)" by (cases p)
  with Some assms have "0 < n" unfolding consumes_def by blast
  with Some p show ?thesis by (simp add: frame_step_def Let_def)
qed

lemma frame_loop_terminates:
  assumes "consumes spec"
  shows "length raw_data - offset st \<le> fuel \<Longrightarrow>
    \<exists>st' k. frame_loop fuel spec raw_data st iters = Some (st', k)
       \<and> k \<le> iters + (length raw_data - offset st)
       \<and> length raw_data \<le> offset st'"
proof (induction fuel arbitrary: st iters)
  case 0
  then show ?case by simp
next
  case (Suc fuel)
  show ?case
  proof (cases "offset st < length raw_data")
    case False
    then show ?thesis by simp
  next
    case True
    let ?st = "frame_step spec raw_data st"
    have lt: "offset st < offset ?st" using assms by (rule frame_step_offset)
    with Suc.prems True have "length raw_data - offset ?st \<le> fuel" by arith
    from Suc.IH [OF this, of "Suc iters"] obtain st' k where
      r: "frame_loop fuel spec raw_data ?st (Suc iters) = Some (st', k)"
      and k: "k \<le> Suc iters + (length raw_data - offset ?st)"
      and o: "length raw_data \<le> offset st'" by blast
    from k lt True have "k \<le> iters + (length raw_data - offset st)" by arith
    with r o True show ?thesis by simp
  qed
qed

text \<open>
  C3. Every iteration of the framing loop strictly increases \<^verbatim>\<open>offset\<close>, and
  \<^verbatim>\<open>decode_all_ber_records\<close> returns after at most \<^verbatim>\<open>len(raw_data)\<close> iterations
  (that much fuel is enough), for every byte sequence and every codec whose successful
  decodes report a positive length.
\<close>

theorem decode_all_ber_records_terminates:
  assumes "consumes spec"
  shows "(\<forall>st. offset st < length raw_data \<longrightarrow>
            offset st < offset (frame_step spec raw_data st))
       \<and> (\<exists>recs k. decode_all_ber_records (length raw_data) raw_data spec = Some (recs, k)
            \<and> k \<le> length raw_data)"
proof
  show "\<forall>st. offset st < length raw_data \<longrightarrow> offset st < offset (frame_step spec raw_data st)"
    using frame_step_offset [OF assms] by blast
next
  have "length raw_data - offset (frame_init :: 'a frame_state) \<le> length raw_data" by simp
  from frame_loop_terminates [OF assms this, of 0]
  obtain st' k where "frame_loop (length raw_data) spec raw_data frame_init 0 = Some (st', k)"
    and "k \<le> length raw_data" by (auto simp: frame_init_def)
  then show "\<exists>recs k. decode_all_ber_records (length raw_data) raw_data spec = Some (recs, k)
      \<and> k \<le> length raw_data"
    by (simp add: decode_all_ber_records_def)
qed

lemma tlv_consumes: "consumes tlv_spec"
  by (auto simp: consumes_def try_decode_def tlv_spec_def
           split: option.splits list.splits if_splits)

theorem decode_all_ber_records_terminates_witness:
  "consumes tlv_spec
   \<and> offset (frame_init :: byte list frame_state)
       < offset (frame_step tlv_spec [0xff, 0xa0, 0x01, 0x07] frame_init)
   \<and> decode_all_ber_records 4 [0xff, 0xa0, 0x01, 0x07] tlv_spec
       = Some ([\<lparr>record_name = 1, recordLength = 3, genericRecord = [0x07]\<rparr>], 2)"
proof -
  let ?raw = "[0xff, 0xa0, 0x01, 0x07] :: byte list"
  note t = decode_all_ber_records_terminates [OF tlv_consumes, of ?raw]
  have a: "offset (frame_init :: byte list frame_state)
      < offset (frame_step tlv_spec ?raw frame_init)"
    using t [THEN conjunct1, rule_format, of frame_init] by (simp add: frame_init_def)
  have b: "decode_all_ber_records 4 ?raw tlv_spec
      = Some ([\<lparr>record_name = 1, recordLength = 3, genericRecord = [0x07]\<rparr>], 2)"
    by (simp add: decode_all_ber_records_def frame_init_def frame_step_def try_decode_def
        tlv_spec_def Let_def hex02_def hex_digit_def valid_tags_def)
  from tlv_consumes a b show ?thesis by simp
qed

section \<open>Properties of the tree normalization\<close>

lemma untag_id:
  "\<not> tagged_pair xs \<Longrightarrow> untag_known_pairs (Lst xs) = Lst xs"
  "\<not> tagged_pair xs \<Longrightarrow> untag_known_pairs (Tup xs) = Tup xs"
  "untag_known_pairs (Dct kvs) = Dct kvs"
  "untag_known_pairs (Str s) = Str s"
  "untag_known_pairs (Scalar a) = Scalar a"
  by (auto simp: untag_known_pairs_def tagged_pair_def split: list.splits dval.splits)

lemma collapse_id: "\<not> collapsible v \<Longrightarrow> collapse_single_key_dicts v = v"
  by (auto simp: collapsible_def collapse_single_key_dicts_def split: dval.splits)

lemma normal_not_collapsible: "normal v \<Longrightarrow> \<not> collapsible v"
  by (cases v) (auto simp: collapsible_def)

text \<open>
  C6, as the claim states it, fails: the pass is not idempotent. The value of a var pair
  is not normalized when the pair is flattened, so a second pass flattens a var pair
  left inside it; and single-key dicts that share a key merge into a list of their
  values, which a second pass collapses again.
\<close>

theorem flatten_and_collapse_not_idempotent:
  "flatten_and_collapse str_unit (var_pair ''a'' (var_pair ''b'' (Str ''c'')))
     = Dct [(''a'', var_pair ''b'' (Str ''c''))]
   \<and> flatten_and_collapse str_unit (Dct [(''a'', var_pair ''b'' (Str ''c''))])
     = Dct [(''a'', Dct [(''b'', Str ''c'')])]
   \<and> flatten_and_collapse str_unit
       (Lst [Dct [(''recordElements'', Lst [var_pair ''a'' (Str ''1'')])],
             Dct [(''recordElements'', Lst [var_pair ''b'' (Str ''2'')])]])
     = Dct [(''recordElements'', Lst [Dct [(''a'', Str ''1'')], Dct [(''b'', Str ''2'')]])]
   \<and> flatten_and_collapse str_unit
       (Dct [(''recordElements'', Lst [Dct [(''a'', Str ''1'')], Dct [(''b'', Str ''2'')]])])
     = Dct [(''recordElements'', Dct [(''a'', Str ''1''), (''b'', Str ''2'')])]
   \<and> \<not> (\<forall>v :: unit dval.
          flatten_and_collapse str_unit (flatten_and_collapse str_unit v)
            = flatten_and_collapse str_unit v)"
proof -
  have 1: "flatten_and_collapse str_unit (var_pair ''a'' (var_pair ''b'' (Str ''c'')))
      = Dct [(''a'', var_pair ''b'' (Str ''c''))]"
    by code_simp
  have 2: "flatten_and_collapse str_unit (Dct [(''a'', var_pair ''b'' (Str ''c''))])
      = Dct [(''a'', Dct [(''b'', Str ''c'')])]"
    by code_simp
  have 3: "flatten_and_collapse str_unit
       (Lst [Dct [(''recordElements'', Lst [var_pair ''a'' (Str ''1'')])],
             Dct [(''recordElements'', Lst [var_pair ''b'' (Str ''2'')])]])
     = Dct [(''recordElements'', Lst [Dct [(''a'', Str ''1'')], Dct [(''b'', Str ''2'')]])]"
    by code_simp
  have 4: "flatten_and_collapse str_unit
       (Dct [(''recordElements'', Lst [Dct [(''a'', Str ''1'')], Dct [(''b'', Str ''2'')]])])
     = Dct [(''recordElements'', Dct [(''a'', Str ''1''), (''b'', Str ''2'')])]"
    by code_simp
  have 5: "\<not> (\<forall>v :: unit dval.
          flatten_and_collapse str_unit (flatten_and_collapse str_unit v)
            = flatten_and_collapse str_unit v)"
  proof
    assume "\<forall>v :: unit dval.
          flatten_and_collapse str_unit (flatten_and_collapse str_unit v)
            = flatten_and_collapse str_unit v"
    then have "flatten_and_collapse str_unit
          (flatten_and_collapse str_unit (var_pair ''a'' (var_pair ''b'' (Str ''c''))))
        = flatten_and_collapse str_unit (var_pair ''a'' (var_pair ''b'' (Str ''c'')))"
      by blast
    with 1 2 show False by (simp add: var_pair_def)
  qed
  from 1 2 3 4 5 show ?thesis by blast
qed

text \<open>
  C6, amended. Normalizing a tree that is in normal form returns it unchanged, whatever
  scalars print as.
\<close>

theorem flatten_and_collapse_normal:
  "normal v \<Longrightarrow> flatten_and_collapse str_other v = v"
proof (induction v)
  case (Scalar a)
  show ?case
    by (simp add: flatten_and_collapse.simps [of _ "Scalar a"] untag_id is_var_pair_def)
next
  case (Str s)
  show ?case
    by (simp add: flatten_and_collapse.simps [of _ "Str s"] untag_id is_var_pair_def)
next
  case (Tup xs)
  then show ?case
    by (simp add: flatten_and_collapse.simps [of _ "Tup xs"] untag_id is_var_pair_def)
next
  case (Lst xs)
  then have m: "map (flatten_and_collapse str_other) xs = xs" by (simp add: map_idI)
  from Lst.prems show ?case
    by (simp add: flatten_and_collapse.simps [of _ "Lst xs"] untag_id is_var_pair_def m
        collapse_id)
next
  case (Dct kvs)
  have "map (\<lambda>(key, v).
           (key, if endswith key ''Elements'' \<or> key = ''recordElements''
                 then collapse_single_key_dicts (flatten_and_collapse str_other v)
                 else flatten_and_collapse str_other v)) kvs = kvs"
  proof (rule map_idI)
    fix kv assume kv: "kv \<in> set kvs"
    obtain k v where e: "kv = (k, v)" by (cases kv)
    from kv e Dct.prems have n: "normal v" by auto
    from kv e have "v \<in> Basic_BNFs.snds kv" by simp
    with Dct.IH kv n have "flatten_and_collapse str_other v = v" by blast
    with n e show "(case kv of (key, v) \<Rightarrow>
           (key, if endswith key ''Elements'' \<or> key = ''recordElements''
                 then collapse_single_key_dicts (flatten_and_collapse str_other v)
                 else flatten_and_collapse str_other v)) = kv"
      by (simp add: collapse_id normal_not_collapsible)
  qed
  with Dct.prems show ?case
    by (simp add: flatten_and_collapse.simps [of _ "Dct kvs"] untag_id)
qed

theorem flatten_and_collapse_normal_witness:
  "normal (flatten_and_collapse str_unit
     (Dct [(''recordProperty'', Str ''mscc''),
           (''recordElements'', Lst [var_pair ''a'' (Str ''1''), var_pair ''b'' (Str ''2'')])]))
   \<and> flatten_and_collapse str_unit
       (Dct [(''recordProperty'', Str ''mscc''),
             (''recordElements'', Dct [(''a'', Str ''1''), (''b'', Str ''2'')])])
     = Dct [(''recordProperty'', Str ''mscc''),
            (''recordElements'', Dct [(''a'', Str ''1''), (''b'', Str ''2'')])]"
proof -
  have e: "flatten_and_collapse str_unit
     (Dct [(''recordProperty'', Str ''mscc''),
           (''recordElements'', Lst [var_pair ''a'' (Str ''1''), var_pair ''b'' (Str ''2'')])])
    = Dct [(''recordProperty'', Str ''mscc''),
           (''recordElements'', Dct [(''a'', Str ''1''), (''b'', Str ''2'')])]"
    by code_simp
  have n: "normal (Dct [(''recordProperty'', Str ''mscc''),
           (''recordElements'', Dct [(''a'', Str ''1''), (''b'', Str ''2'')])] :: unit dval)"
    by code_simp
  from e n flatten_and_collapse_normal [OF n, of str_unit] show ?thesis by simp
qed

section \<open>Properties of the location decoding\<close>

lemma is_hex_set: "is_hex c \<Longrightarrow> c \<in> set ''0123456789abcdefABCDEF''"
  unfolding is_hex_def hex_chars_def digit_chars_def
  by (auto split: if_splits)

lemma is_hex_not_space: "is_hex c \<Longrightarrow> \<not> is_space c"
  by (drule is_hex_set) (auto simp: is_space_def whitespace_def)

lemma is_hex_plain: "is_hex c \<Longrightarrow> c \<noteq> CHR ''_'' \<and> c \<noteq> CHR ''-'' \<and> c \<noteq> CHR ''+''"
  by (drule is_hex_set) auto

lemma is_hex_not_x: "is_hex c \<Longrightarrow> lower_char c \<noteq> CHR ''x''"
  by (drule is_hex_set) (auto simp: lower_char_def lower_chars_def)

lemma strip_hex:
  assumes "list_all is_hex ds"
  shows "strip ds = ds"
proof (cases ds rule: rev_cases)
  case Nil
  then show ?thesis by (simp add: strip_def)
next
  case (snoc ys y)
  with assms have y: "\<not> is_space y" by (simp add: is_hex_not_space)
  have "dropWhile is_space ds = ds"
  proof (cases ds)
    case Nil then show ?thesis by simp
  next
    case (Cons x xs)
    with assms have "\<not> is_space x" by (simp add: is_hex_not_space)
    with Cons show ?thesis by simp
  qed
  with snoc y show ?thesis by (simp add: strip_def)
qed

lemma split_sign_hex:
  assumes "list_all is_hex ds"
  shows "split_sign ds = (False, ds)"
  using assms by (cases ds) (auto simp: split_sign_def dest: is_hex_plain)

lemma no_prefix_hex:
  assumes "list_all is_hex ds"
  shows "lower (take 2 ds) \<noteq> ''0x''"
proof (cases ds)
  case Nil then show ?thesis by (simp add: lower_def)
next
  case (Cons a r)
  show ?thesis
  proof (cases r)
    case Nil with Cons show ?thesis by (simp add: lower_def)
  next
    case (Cons b r')
    with assms \<open>ds = a # r\<close> have "lower_char b \<noteq> CHR ''x''" by (simp add: is_hex_not_x)
    with Cons \<open>ds = a # r\<close> show ?thesis by (simp add: lower_def)
  qed
qed

lemma double_underscore_hex: "list_all is_hex ds \<Longrightarrow> \<not> double_underscore ds"
  by (induction ds rule: double_underscore.induct) (auto dest: is_hex_plain)

lemma int16_digits_hex:
  assumes "list_all is_hex ds" and "ds \<noteq> []"
  shows "int16_digits ds = Some (hex_value ds)"
proof -
  from assms have "hd ds \<noteq> CHR ''_''" by (cases ds) (auto dest: is_hex_plain)
  moreover from assms have "last ds \<noteq> CHR ''_''"
    by (cases ds rule: rev_cases) (auto dest: is_hex_plain)
  moreover from assms(1) have "filter (\<lambda>c. c \<noteq> CHR ''_'') ds = ds"
    by (induction ds) (auto dest: is_hex_plain)
  moreover from assms(1) have "list_all (\<lambda>c. c = CHR ''_'' \<or> is_hex c) ds"
    by (induction ds) auto
  ultimately show ?thesis
    using assms double_underscore_hex [OF assms(1)] by (simp add: int16_digits_def)
qed

lemma py_int16_hex:
  assumes "list_all is_hex ds" and "ds \<noteq> []"
  shows "py_int16 ds = Some (hex_value ds)"
  using assms
  by (simp add: py_int16_def strip_hex split_sign_hex no_prefix_hex int16_digits_hex)

lemma length_6:
  assumes "length m = 6"
  shows "\<exists>a b c d e f. m = [a, b, c, d, e, f]"
  using assms by (auto simp: numeral_eq_Suc length_Suc_conv)

lemma pairs_of_6:
  assumes "length m = 6"
  shows "concat (map rev (pairs_of m)) = [m ! 1, m ! 0, m ! 3, m ! 2, m ! 5, m ! 4]"
proof -
  from length_6 [OF assms] obtain a b c d e f where "m = [a, b, c, d, e, f]" by blast
  then show ?thesis by simp
qed

text \<open>
  C7. For a location string with at least 18 characters, of which the last 18 are \<open>t\<close>,
  the result is \<^verbatim>\<open>"{field2}-{field1}-{enb}-{cell}"\<close>: \<open>field1\<close> is the decimal rendering
  of the hexadecimal \<open>t[0:4]\<close>, \<open>field2\<close> is \<open>t[4:10]\<close> with the two digits of each
  byte pair reversed and every \<open>F\<close> and \<open>f\<close> removed, and \<open>enb\<close> and \<open>cell\<close> are the
  hexadecimal \<open>t[10:18]\<close> modulo 256 and divided by 256. A shorter, non-empty string
  gives its last 14 characters split 6-4-4. The tail \<open>0012 00F1F2 00000101\<close> gives
  TAC 18, enb 1 and cell 1.
\<close>

theorem decode_location_hex_field_spec:
  "(18 \<le> length h \<and> t = drop (length h - 18) h
      \<and> list_all is_hex (take 4 t) \<and> list_all is_hex (drop 10 t)
    \<longrightarrow> decode_location_hex_field (Some h)
        = filter (\<lambda>c. c \<noteq> CHR ''F'' \<and> c \<noteq> CHR ''f'') [t ! 5, t ! 4, t ! 7, t ! 6, t ! 9, t ! 8]
          @ ''-'' @ str_int (hex_value (take 4 t))
          @ ''-'' @ str_int (hex_value (drop 10 t) mod 256)
          @ ''-'' @ str_int (hex_value (drop 10 t) div 256))
   \<and> (0 < length h \<and> length h < 18 \<and> s14 = drop (length h - 14) h
    \<longrightarrow> decode_location_hex_field (Some h)
        = take 6 s14 @ ''-'' @ take 4 (drop 6 s14) @ ''-'' @ take 4 (drop 10 s14))
   \<and> decode_location_hex_field (Some ''001200F1F200000101'') = ''0012-18-1-1''"
proof (intro conjI impI)
  assume a: "18 \<le> length h \<and> t = drop (length h - 18) h
      \<and> list_all is_hex (take 4 t) \<and> list_all is_hex (drop 10 t)"
  then have a3: "list_all is_hex (take 4 t)" and a4: "list_all is_hex (drop 10 t)"
    and len: "length t = 18" and ne: "h \<noteq> []" by auto
  from a have s: "last_n_chars h 18 = t" using ne by (simp add: last_n_chars_def)
  have "take 4 t \<noteq> []" using len by auto
  with a3 have "py_int16 (take 4 t) = Some (hex_value (take 4 t))" by (rule py_int16_hex)
  then have tac: "py_int16 (py_slice t 0 4) = Some (hex_value (take 4 t))"
    by (simp add: py_slice_def)
  have "drop 10 t \<noteq> []" using len by auto
  with a4 have "py_int16 (drop 10 t) = Some (hex_value (drop 10 t))" by (rule py_int16_hex)
  then have eci: "py_int16 (py_slice t 10 18) = Some (hex_value (drop 10 t))"
    using len by (simp add: py_slice_def)
  have "length (py_slice t 4 10) = 6" using len by (simp add: py_slice_def)
  from pairs_of_6 [OF this] have sw: "concat (map rev (pairs_of (py_slice t 4 10)))
      = [t ! 5, t ! 4, t ! 7, t ! 6, t ! 9, t ! 8]"
    using len by (simp add: py_slice_def)
  show "decode_location_hex_field (Some h)
        = filter (\<lambda>c. c \<noteq> CHR ''F'' \<and> c \<noteq> CHR ''f'') [t ! 5, t ! 4, t ! 7, t ! 6, t ! 9, t ! 8]
          @ ''-'' @ str_int (hex_value (take 4 t))
          @ ''-'' @ str_int (hex_value (drop 10 t) mod 256)
          @ ''-'' @ str_int (hex_value (drop 10 t) div 256)"
    using ne len by (simp add: decode_location_hex_field_def s tac eci sw Let_def del: filter.simps)
next
  assume b: "0 < length h \<and> length h < 18 \<and> s14 = drop (length h - 14) h"
  then have ne: "h \<noteq> []" by auto
  from b have s: "last_n_chars h 18 = h" using ne by (simp add: last_n_chars_def)
  from b have s14: "last_n_chars h 14 = s14" using ne by (auto simp: last_n_chars_def)
  from b have e: "s14 = drop (length h - 14) h" by simp
  from ne have "\<not> length h \<le> length h - 14" by (cases h) auto
  then have "s14 \<noteq> []" unfolding e by (simp only: drop_eq_Nil not_False_eq_True)
  with b ne show "decode_location_hex_field (Some h)
        = take 6 s14 @ ''-'' @ take 4 (drop 6 s14) @ ''-'' @ take 4 (drop 10 s14)"
    by (simp add: decode_location_hex_field_def s s14 py_slice_def Let_def)
next
  show "decode_location_hex_field (Some ''001200F1F200000101'') = ''0012-18-1-1''"
    by code_simp
qed

theorem decode_location_hex_field_spec_witness:
  "decode_location_hex_field (Some ''8613001200F1F200000101'') = ''0012-18-1-1''
   \<and> decode_location_hex_field (Some ''0123456789abcdef0'') = ''345678-9abc-def0''"
proof -
  let ?h = "''8613001200F1F200000101''" and ?t = "''001200F1F200000101''"
  have p: "18 \<le> length ?h \<and> ?t = drop (length ?h - 18) ?h
      \<and> list_all is_hex (take 4 ?t) \<and> list_all is_hex (drop 10 ?t)" by code_simp
  have v: "filter (\<lambda>c. c \<noteq> CHR ''F'' \<and> c \<noteq> CHR ''f'') [?t ! 5, ?t ! 4, ?t ! 7, ?t ! 6, ?t ! 9, ?t ! 8]
          @ ''-'' @ str_int (hex_value (take 4 ?t))
          @ ''-'' @ str_int (hex_value (drop 10 ?t) mod 256)
          @ ''-'' @ str_int (hex_value (drop 10 ?t) div 256) = ''0012-18-1-1''" by code_simp
  let ?g = "''0123456789abcdef0''"
  have q: "0 < length ?g \<and> length ?g < 18 \<and> ''3456789abcdef0'' = drop (length ?g - 14) ?g" by code_simp
  from decode_location_hex_field_spec [of ?h ?t, THEN conjunct1, rule_format, OF p] v
  have 1: "decode_location_hex_field (Some ?h) = ''0012-18-1-1''" by simp
  from decode_location_hex_field_spec [of ?g _ "''3456789abcdef0''",
      THEN conjunct2, THEN conjunct1, rule_format, OF q]
  have 2: "decode_location_hex_field (Some ?g) = ''345678-9abc-def0''" by simp
  from 1 2 show ?thesis by simp
qed

section \<open>Properties of the canonical shaping\<close>

lemma dict_set_new: "k \<notin> fst ` set acc \<Longrightarrow> dict_set acc k v = acc @ [(k, v)]"
  by (simp add: dict_set_def)

lemma foldl_dict_set:
  "distinct ks \<Longrightarrow> set ks \<inter> fst ` set acc = {} \<Longrightarrow>
   foldl (\<lambda>out key. dict_set out key (f key)) acc ks = acc @ map (\<lambda>k. (k, f k)) ks"
proof (induction ks arbitrary: acc)
  case Nil
  then show ?case by simp
next
  case (Cons k ks)
  from Cons.prems have new: "k \<notin> fst ` set acc" by auto
  from Cons.prems have "set ks \<inter> fst ` set (acc @ [(k, f k)]) = {}" by auto
  with Cons.IH [of "acc @ [(k, f k)]"] Cons.prems new show ?case
    by (simp add: dict_set_new)
qed

lemma distinct_CANONICAL_FIELDS: "distinct CANONICAL_FIELDS"
  by (simp add: CANONICAL_FIELDS_def)

lemma enforce_canonical_map:
  "enforce_canonical mapped = map (\<lambda>k. (k, canonical_value mapped k)) CANONICAL_FIELDS"
  unfolding enforce_canonical_def
  using foldl_dict_set [OF distinct_CANONICAL_FIELDS, of "[]" "canonical_value mapped"]
  by simp

lemma map_of_tabulate: "k \<in> set ks \<Longrightarrow> map_of (map (\<lambda>k. (k, f k)) ks) k = Some (f k)"
  by (induction ks) auto

lemma enforce_canonical_lookup:
  "key \<in> set CANONICAL_FIELDS \<Longrightarrow>
   map_of (enforce_canonical mapped) key = Some (canonical_value mapped key)"
  by (simp add: enforce_canonical_map map_of_tabulate)

lemma field_map_voice_balances:
  "key \<in> set CANONICAL_FIELDS \<Longrightarrow> map_voice_out bi cdr_json = Inr out \<Longrightarrow>
   field (map_voice_balances bi cdr_json) key = Some (canonical_value out key)"
  by (simp add: field_def map_voice_balances_def ebind_def enforce_canonical_lookup)

lemma default_value_not_None: "default_value key \<noteq> PNone"
  by (simp add: default_value_def float_zero_def)

section \<open>The five slots\<close>

lemma ebind_Inr [simp]: "ebind (Inr x) f = f x"
  by (simp add: ebind_def)

lemma ebind_Inl [simp]: "ebind (Inl e) f = Inl e"
  by (simp add: ebind_def)

lemma ebind_eq_Inr: "ebind m f = Inr y \<longleftrightarrow> (\<exists>x. m = Inr x \<and> f x = Inr y)"
  by (cases m) simp_all

lemma map_of_dict_set_old:
  "map_of (map (\<lambda>(k', v'). if k' = k then (k', v) else (k', v')) kvs) x
     = (if x = k then (if k \<in> fst ` set kvs then Some v else None) else map_of kvs x)"
  by (induction kvs) (auto simp: rev_image_eqI)

lemma map_of_dict_set: "map_of (dict_set kvs k v) = (map_of kvs)(k \<mapsto> v)"
proof (cases "k \<in> fst ` set kvs")
  case True
  then show ?thesis
    by (auto simp: dict_set_def map_of_dict_set_old fun_eq_iff)
next
  case False
  then have "map_of kvs k = None" by (simp add: map_of_eq_None_iff)
  with False show ?thesis
    by (auto simp: dict_set_def fun_eq_iff map_add_def split: option.splits)
qed

lemma map_of_assign_all: "map_of (assign_all out kvs) = map_of out ++ map_of (rev kvs)"
proof (induction kvs arbitrary: out)
  case Nil
  then show ?case by (simp add: assign_all_def)
next
  case (Cons kv kvs)
  have "assign_all out (kv # kvs) = assign_all (dict_set out (fst kv) (snd kv)) kvs"
    by (simp add: assign_all_def)
  then show ?case
    by (auto simp: Cons.IH map_of_dict_set fun_eq_iff map_add_def split: option.splits)
qed

lemma assign_all_append: "assign_all (assign_all out a) b = assign_all out (a @ b)"
  by (simp add: assign_all_def)

lemma map_of_assign_all_distinct:
  assumes "distinct (map fst kvs)" and "(k, v) \<in> set kvs"
  shows "map_of (assign_all out kvs) k = Some v"
proof -
  from assms have "distinct (map fst (rev kvs))" and "(k, v) \<in> set (rev kvs)"
    by (simp_all add: rev_map [symmetric])
  then have "map_of (rev kvs) k = Some v" by (rule map_of_is_SomeI)
  then show ?thesis by (simp add: map_of_assign_all map_add_def)
qed

lemma map_err_Inr:
  "map_err f xs = Inr ys \<Longrightarrow>
   length ys = length xs \<and> (\<forall>i<length xs. f (xs ! i) = Inr (ys ! i))"
proof (induction xs arbitrary: ys)
  case Nil
  then show ?case by simp
next
  case (Cons x xs)
  from Cons.prems obtain y ys' where y: "f x = Inr y" and r: "map_err f xs = Inr ys'"
    and e: "ys = y # ys'"
    by (auto simp: ebind_eq_Inr)
  from Cons.IH [OF r] y e show ?case
    by (auto simp: nth_Cons split: nat.splits)
qed

lemma for_each_assign:
  "for_each (\<lambda>x out. ebind (g x) (\<lambda>kvs. Inr (assign_all out kvs))) xs out0
     = ebind (map_err g xs) (\<lambda>kvss. Inr (assign_all out0 (concat kvss)))"
proof (induction xs arbitrary: out0)
  case Nil
  then show ?case by (simp add: assign_all_def)
next
  case (Cons x xs)
  show ?case
  proof (cases "g x")
    case (Inl e)
    then show ?thesis by simp
  next
    case (Inr kvs)
    then show ?thesis
      by (cases "map_err g xs") (simp_all add: Cons.IH assign_all_append)
  qed
qed

lemma five: "[0, 1, 2, 3, 4] = [0..<5::nat]"
  by code_simp

lemma slots_content:
  assumes run: "ebind (map_err g [0, 1, 2, 3, 4::nat]) (\<lambda>kvss. Inr (assign_all out0 (concat kvss)))
                  = Inr out"
    and keys: "\<And>idx kvs. g idx = Inr kvs \<Longrightarrow> map fst kvs = ks idx"
    and dist: "distinct (concat (map ks [0, 1, 2, 3, 4]))"
    and idx: "idx < 5"
  shows "\<exists>kvs. g idx = Inr kvs \<and> (\<forall>kv\<in>set kvs. map_of out (fst kv) = Some (snd kv))"
proof -
  from run have "\<exists>kvss. map_err g [0..<5] = Inr kvss
      \<and> Inr (assign_all out0 (concat kvss)) = (Inr out :: py_error + (string \<times> pyval) list)"
    unfolding five ebind_eq_Inr .
  then obtain kvss where me: "map_err g [0..<5] = Inr kvss"
    and out: "out = assign_all out0 (concat kvss)"
    by blast
  from map_err_Inr [OF me] have len: "length kvss = 5"
    and each: "\<And>i. i < 5 \<Longrightarrow> g i = Inr (kvss ! i)"
    by auto
  have "map (map fst) kvss = map ks [0..<5]"
    by (rule nth_equalityI) (simp_all add: len keys [OF each])
  then have "map fst (concat kvss) = concat (map ks [0..<5])"
    by (simp add: map_concat)
  with dist [unfolded five] have d: "distinct (map fst (concat kvss))" by (simp only:)
  have "\<forall>kv\<in>set (kvss ! idx). map_of out (fst kv) = Some (snd kv)"
  proof
    fix kv assume "kv \<in> set (kvss ! idx)"
    with idx len have "(fst kv, snd kv) \<in> set (concat kvss)" by auto
    from map_of_assign_all_distinct [OF d this] out
    show "map_of out (fst kv) = Some (snd kv)" by simp
  qed
  with each [OF idx] show ?thesis by blast
qed


lemma account_slot_keys:
  "account_slot bi n a = Inr kvs \<Longrightarrow> map fst kvs = map fst (account_defaults n)"
  by (auto simp: account_slot_def account_defaults_def ebind_eq_Inr Let_def split: pyval.splits)

lemma bucket_slot_keys:
  "bucket_slot bi n entry = Inr kvs \<Longrightarrow> map fst kvs = map fst (bucket_defaults n)"
  by (auto simp: bucket_slot_def bucket_defaults_def ebind_eq_Inr Let_def)

lemma account_keys_distinct:
  "distinct (concat (map (\<lambda>idx. map fst (account_defaults (idx + 1))) [0, 1, 2, 3, 4]))"
  by code_simp

lemma bucket_keys_distinct:
  "distinct (concat (map (\<lambda>idx. map fst (bucket_defaults (idx + 1))) [0, 1, 2, 3, 4]))"
  by code_simp

lemma populate_account_slots_map_err:
  "populate_account_slots bi account_only out0
     = ebind (map_err (\<lambda>idx. if idx < length account_only
                              then account_slot bi (idx + 1) (acct (account_only ! idx))
                              else Inr (account_defaults (idx + 1)))
                [0, 1, 2, 3, 4])
         (\<lambda>kvss. Inr (assign_all out0 (concat kvss)))"
proof -
  have "(\<lambda>idx out. if idx < length account_only
          then ebind (account_slot bi (idx + 1) (acct (account_only ! idx)))
                 (\<lambda>kvs. Inr (assign_all out kvs))
          else Inr (assign_all out (account_defaults (idx + 1))))
      = (\<lambda>idx out. ebind (if idx < length account_only
                              then account_slot bi (idx + 1) (acct (account_only ! idx))
                              else Inr (account_defaults (idx + 1)))
                 (\<lambda>kvs. Inr (assign_all out kvs)))"
    by (auto simp: fun_eq_iff)
  then show ?thesis
    unfolding populate_account_slots_def by (simp only: for_each_assign)
qed

lemma populate_bucket_slots_map_err:
  "populate_bucket_slots bi bucket_subs out0
     = ebind (map_err (\<lambda>idx. if idx < length bucket_subs
                              then bucket_slot bi (idx + 1) (bucket_subs ! idx)
                              else Inr (bucket_defaults (idx + 1)))
                [0, 1, 2, 3, 4])
         (\<lambda>kvss. Inr (assign_all out0 (concat kvss)))"
proof -
  have "(\<lambda>idx out. if idx < length bucket_subs
          then ebind (bucket_slot bi (idx + 1) (bucket_subs ! idx))
                 (\<lambda>kvs. Inr (assign_all out kvs))
          else Inr (assign_all out (bucket_defaults (idx + 1))))
      = (\<lambda>idx out. ebind (if idx < length bucket_subs
                              then bucket_slot bi (idx + 1) (bucket_subs ! idx)
                              else Inr (bucket_defaults (idx + 1)))
                 (\<lambda>kvs. Inr (assign_all out kvs)))"
    by (auto simp: fun_eq_iff)
  then show ?thesis
    unfolding populate_bucket_slots_def by (simp only: for_each_assign)
qed

lemma account_slots_content:
  assumes "populate_account_slots bi account_only out0 = Inr out" and "idx < 5"
  shows "\<exists>kvs. (if idx < length account_only
                then account_slot bi (idx + 1) (acct (account_only ! idx))
                else Inr (account_defaults (idx + 1))) = Inr kvs
             \<and> (\<forall>kv\<in>set kvs. map_of out (fst kv) = Some (snd kv))"
proof -
  let ?g = "\<lambda>idx. if idx < length account_only
                   then account_slot bi (idx + 1) (acct (account_only ! idx))
                   else Inr (account_defaults (idx + 1))"
  let ?ks = "\<lambda>idx. map fst (account_defaults (idx + 1))"
  from assms(1) have run: "ebind (map_err ?g [0, 1, 2, 3, 4])
         (\<lambda>kvss. Inr (assign_all out0 (concat kvss))) = Inr out"
    by (simp only: populate_account_slots_map_err)
  have keys: "\<And>i kvs. ?g i = Inr kvs \<Longrightarrow> map fst kvs = ?ks i"
    by (auto dest: account_slot_keys split: if_splits)
  from slots_content [of ?g out0 out ?ks idx, OF run keys account_keys_distinct assms(2)]
  show ?thesis .
qed

lemma bucket_slots_content:
  assumes "populate_bucket_slots bi bucket_subs out0 = Inr out" and "idx < 5"
  shows "\<exists>kvs. (if idx < length bucket_subs
                then bucket_slot bi (idx + 1) (bucket_subs ! idx)
                else Inr (bucket_defaults (idx + 1))) = Inr kvs
             \<and> (\<forall>kv\<in>set kvs. map_of out (fst kv) = Some (snd kv))"
proof -
  let ?g = "\<lambda>idx. if idx < length bucket_subs
                   then bucket_slot bi (idx + 1) (bucket_subs ! idx)
                   else Inr (bucket_defaults (idx + 1))"
  let ?ks = "\<lambda>idx. map fst (bucket_defaults (idx + 1))"
  from assms(1) have run: "ebind (map_err ?g [0, 1, 2, 3, 4])
         (\<lambda>kvss. Inr (assign_all out0 (concat kvss))) = Inr out"
    by (simp only: populate_bucket_slots_map_err)
  have keys: "\<And>i kvs. ?g i = Inr kvs \<Longrightarrow> map fst kvs = ?ks i"
    by (auto dest: bucket_slot_keys split: if_splits)
  from slots_content [of ?g out0 out ?ks idx, OF run keys bucket_keys_distinct assms(2)]
  show ?thesis .
qed

lemma populate_account_slots_take:
  "populate_account_slots bi account_only out0
     = populate_account_slots bi (take 5 account_only) out0"
  by (simp add: populate_account_slots_map_err)

lemma populate_bucket_slots_take:
  "populate_bucket_slots bi bucket_subs out0
     = populate_bucket_slots bi (take 5 bucket_subs) out0"
  by (simp add: populate_bucket_slots_map_err)

lemma subscription_entry_appends:
  "subscription_entry bi s2 (ao, bs) = Inr (ao', bs') \<Longrightarrow>
   \<exists>a b. ao' = ao @ a \<and> bs' = bs @ b \<and> length a + length b \<le> 1"
  by (auto simp: subscription_entry_def ebind_eq_Inr Let_def split: if_splits option.splits)

section \<open>The mapper as a list of assignments\<close>

lemma slot_fields_writes:
  "slot_fields bi ext out1
     = ebind (phase2 bi ext) (\<lambda>(ao, bs).
       ebind (slot_writes bi ao bs) (\<lambda>kvs. Inr (assign_all out1 kvs)))"
proof (cases "phase2 bi ext")
  case (Inl e)
  then show ?thesis by (simp add: slot_fields_def)
next
  case (Inr r)
  obtain ao bs where r: "r = (ao, bs)" by (cases r)
  let ?ga = "\<lambda>idx. if idx < length ao
                   then account_slot bi (idx + 1) (acct (ao ! idx))
                   else Inr (account_defaults (idx + 1))"
  let ?gb = "\<lambda>idx. if idx < length bs
                   then bucket_slot bi (idx + 1) (bs ! idx)
                   else Inr (bucket_defaults (idx + 1))"
  show ?thesis
  proof (cases "map_err ?ga [0, 1, 2, 3, 4]")
    case (Inl e)
    with Inr r show ?thesis
      by (simp add: slot_fields_def slot_writes_def populate_account_slots_map_err)
  next
    case a: (Inr k1)
    show ?thesis
    proof (cases "map_err ?gb [0, 1, 2, 3, 4]")
      case (Inl e)
      with Inr r a show ?thesis
        by (simp add: slot_fields_def slot_writes_def populate_account_slots_map_err
            populate_bucket_slots_map_err)
    next
      case b: (Inr k2)
      show ?thesis
      proof (cases "unlimited_loop bi ao")
        case (Inl e)
        with Inr r a b show ?thesis
          by (simp add: slot_fields_def slot_writes_def populate_account_slots_map_err
              populate_bucket_slots_map_err unlimited_phase_def)
      next
        case u: (Inr k3)
        with Inr r a b show ?thesis
          by (simp add: slot_fields_def slot_writes_def populate_account_slots_map_err
              populate_bucket_slots_map_err unlimited_phase_def assign_all_append)
      qed
    qed
  qed
qed

lemma map_voice_out_writes:
  "map_voice_out bi cdr_json
     = ebind (map_voice_writes bi cdr_json) (\<lambda>kvs. Inr (assign_all [] kvs))"
proof (cases "read_record bi cdr_json")
  case (Inl e)
  then show ?thesis by (simp add: map_voice_out_def map_voice_writes_def)
next
  case (Inr r)
  obtain cbl re ids ext where r: "r = (cbl, re, ids, ext)" by (cases r)
  show ?thesis
  proof (cases "usage_phase bi ext")
    case (Inl e)
    with Inr r show ?thesis
      by (simp add: map_voice_out_def map_voice_writes_def scalar_fields_def)
  next
    case u: (Inr usage)
    show ?thesis
    proof (cases "debit_phase bi ext")
      case (Inl e)
      with Inr r u show ?thesis
        by (simp add: map_voice_out_def map_voice_writes_def scalar_fields_def)
    next
      case d: (Inr debit)
      show ?thesis
      proof (cases "on_net_phase re")
        case (Inl e)
        with Inr r u d show ?thesis
          by (simp add: map_voice_out_def map_voice_writes_def scalar_fields_def)
      next
        case n: (Inr on_net)
        show ?thesis
        proof (cases "phase2 bi ext")
          case (Inl e)
          with Inr r u d n show ?thesis
            by (simp add: map_voice_out_def map_voice_writes_def scalar_fields_def
                slot_fields_writes)
        next
          case p: (Inr ab)
          obtain ao bs where ab: "ab = (ao, bs)" by (cases ab)
          show ?thesis
          proof (cases "slot_writes bi ao bs")
            case (Inl e)
            with Inr r u d n p ab show ?thesis
              by (simp add: map_voice_out_def map_voice_writes_def scalar_fields_def
                  slot_fields_writes)
          next
            case w: (Inr slots)
            with Inr r u d n p ab show ?thesis
              by (simp add: map_voice_out_def map_voice_writes_def scalar_fields_def
                  slot_fields_writes assign_all_append)
          qed
        qed
      qed
    qed
  qed
qed

lemma canonical_value_cong:
  "map_of a key = map_of b key \<Longrightarrow> canonical_value a key = canonical_value b key"
  by (simp add: canonical_value_def)

lemma canonical_value_assign_all:
  "canonical_value (assign_all [] kvs) key = canonical_value (rev kvs) key"
  by (rule canonical_value_cong) (simp add: map_of_assign_all)

lemma field_writes:
  "key \<in> set CANONICAL_FIELDS \<Longrightarrow> map_voice_writes bi cdr_json = Inr kvs \<Longrightarrow>
   field (map_voice_balances bi cdr_json) key = Some (canonical_value (rev kvs) key)"
  by (simp add: field_map_voice_balances [where out = "assign_all [] kvs"]
      map_voice_out_writes canonical_value_assign_all)

lemma fields_writes:
  "set keys \<subseteq> set CANONICAL_FIELDS \<Longrightarrow> map_voice_writes bi cdr_json = Inr kvs \<Longrightarrow>
   map (field (map_voice_balances bi cdr_json)) keys
     = map (\<lambda>k. Some (canonical_value (rev kvs) k)) keys"
  by (induction keys) (simp_all add: field_writes)

lemma map_voice_balances_writes:
  "map_voice_writes bi a = map_voice_writes bi b \<Longrightarrow>
   map_voice_balances bi a = map_voice_balances bi b"
  by (simp add: map_voice_balances_def map_voice_out_writes)

lemma field_eval:
  assumes "key \<in> set CANONICAL_FIELDS"
  shows "field (map_voice_balances bi cdr_json) key
           = (case map_voice_writes bi cdr_json of
                Inr kvs \<Rightarrow> Some (canonical_value (rev kvs) key)
              | Inl e \<Rightarrow> None)"
proof (cases "map_voice_writes bi cdr_json")
  case (Inl e)
  then show ?thesis
    by (simp add: field_def map_voice_balances_def map_voice_out_writes)
next
  case (Inr kvs)
  with field_writes [OF assms Inr] show ?thesis by simp
qed

lemma fields_eval:
  "set keys \<subseteq> set CANONICAL_FIELDS \<Longrightarrow>
   map (field (map_voice_balances bi cdr_json)) keys
     = map (\<lambda>k. case map_voice_writes bi cdr_json of
                  Inr kvs \<Rightarrow> Some (canonical_value (rev kvs) k)
                | Inl e \<Rightarrow> None) keys"
  by (induction keys) (simp_all add: field_eval)

section \<open>Numeric fields hold numbers\<close>

lemma numbers_ok_append: "numbers_ok (a @ b) \<longleftrightarrow> numbers_ok a \<and> numbers_ok b"
  by (simp add: numbers_ok_def)

lemma numbers_ok_Cons:
  "numbers_ok ((k, v) # kvs) \<longleftrightarrow> (k \<in> set numeric_fields \<longrightarrow> empty_or_number v) \<and> numbers_ok kvs"
  by (simp add: numbers_ok_def)

lemma numbers_ok_Nil: "numbers_ok []"
  by (simp add: numbers_ok_def)

lemma numbers_ok_concat: "(\<And>x. x \<in> set xs \<Longrightarrow> numbers_ok x) \<Longrightarrow> numbers_ok (concat xs)"
  by (induction xs) (simp_all add: numbers_ok_append numbers_ok_Nil)

lemma numbers_ok_values: "list_all (\<lambda>kv. empty_or_number (snd kv)) kvs \<Longrightarrow> numbers_ok kvs"
  by (simp add: numbers_ok_def list_all_iff)

lemma is_number_float_or_zero: "is_number (float_or_zero x)"
  by (cases x) (simp_all add: float_or_zero_def float_zero_def is_number_def)

lemma is_number_float_zero: "is_number float_zero"
  by (simp add: float_zero_def is_number_def)

lemma empty_or_number_simps:
  "empty_or_number (float_or_zero x)" "empty_or_number float_zero"
  "empty_or_number (opt_float y)" "empty_or_number (PInt i)" "empty_or_number (PFloat d)"
  "empty_or_number (PStr [])" "empty_or_number PNone"
  by (cases x; cases y;
      simp add: empty_or_number_def float_or_zero_def float_zero_def opt_float_def
        is_number_def)+

lemma numeric_fields_canonical: "set numeric_fields \<subseteq> set CANONICAL_FIELDS"
  by code_simp

lemma other_keys:
  "list_all (\<lambda>k. k \<notin> set numeric_fields)
     [''EL_CDR_ID'', ''EL_SRC_CDR_ID'', ''EL_CUST_LOCAL_START_DATE'', ''EL_SESSION_ID'',
      ''EL_UNLTD_BUNDLE_NAME'', ''EL_UNLTD_BUNDLE_UNIT_TYPE'']"
  by code_simp

lemma other_slot_keys:
  "list_all (\<lambda>n. list_all (\<lambda>name. slot_key name n \<notin> set numeric_fields)
                     [''EL_ACCT_BALANCE_ID'', ''EL_BALANCE_TYPE'', ''EL_RATE_ID'',
                      ''EL_BUCKET_BALANCE_ID'', ''EL_BUCKET_BALANCE_TYPE'',
                      ''EL_BUCKET_CUR_BALANCE'', ''EL_BUCKET_CHG_BALANCE'',
                      ''EL_BUCKET_RATE_ID''])
     [1, 2, 3, 4, 5]"
  by code_simp

lemma other_slot_key:
  assumes "idx < 5"
    and "name \<in> set [''EL_ACCT_BALANCE_ID'', ''EL_BALANCE_TYPE'', ''EL_RATE_ID'',
                      ''EL_BUCKET_BALANCE_ID'', ''EL_BUCKET_BALANCE_TYPE'',
                      ''EL_BUCKET_CUR_BALANCE'', ''EL_BUCKET_CHG_BALANCE'',
                      ''EL_BUCKET_RATE_ID'']"
  shows "slot_key name (idx + 1) \<notin> set numeric_fields"
proof -
  from assms(1) have "idx + 1 \<in> set [1, 2, 3, 4, 5]" by auto
  with other_slot_keys assms(2) show ?thesis
    unfolding list_all_iff by blast
qed

lemma phase1_ok: "phase1 bi record_elems = Inr ids \<Longrightarrow> numbers_ok ids"
  using other_keys
  by (auto simp: phase1_def ebind_eq_Inr numbers_ok_Cons numbers_ok_Nil)

lemma usage_debit_fields_ok: "numbers_ok (usage_debit_fields el_actual_usage debit)"
  by (cases debit)
     (simp add: usage_debit_fields_def numbers_ok_Cons numbers_ok_Nil empty_or_number_simps
       split: option.splits)

lemma on_net_phase_ok: "on_net_phase record_elems = Inr kvs \<Longrightarrow> numbers_ok kvs"
proof -
  have "empty_or_number (on_net_indicator v)" for v
    by (cases v) (simp_all add: on_net_indicator_def empty_or_number_simps)
  then show "on_net_phase record_elems = Inr kvs \<Longrightarrow> numbers_ok kvs"
    by (auto simp: on_net_phase_def ebind_eq_Inr numbers_ok_Cons numbers_ok_Nil)
qed

lemma cbl_tax_ok: "empty_or_number (cbl_tax bi cbl key)"
  by (simp add: cbl_tax_def empty_or_number_simps split: option.splits)

lemma tax_phase_ok: "numbers_ok (tax_phase bi cbl)"
  by (simp add: tax_phase_def numbers_ok_Cons numbers_ok_Nil cbl_tax_ok)

lemma account_chg_number: "account_chg bi kvs = Inr chg \<Longrightarrow> empty_or_number chg"
  by (auto simp: account_chg_def Let_def ebind_eq_Inr empty_or_number_simps
      split: option.splits if_splits)

lemma account_slot_ok:
  assumes "idx < 5" and "account_slot bi (idx + 1) a = Inr kvs"
  shows "numbers_ok kvs"
proof -
  note k = other_slot_key [OF assms(1)]
  from assms(2) obtain x chg where chg: "account_chg bi x = Inr chg"
    and kvs: "kvs =
      [(slot_key ''EL_ACCT_BALANCE_ID'' (idx + 1), py_or bi (dict_get x ''accountID'') (PStr [])),
       (slot_key ''EL_BALANCE_TYPE'' (idx + 1), py_or bi (dict_get x ''accountType'') (PStr [])),
       (slot_key ''EL_CUR_BALANCE'' (idx + 1),
          if to_decimal bi (dict_get x ''accountBalanceAfter'') \<noteq> None
          then opt_float (fmt_decimal_to_float (to_decimal bi (dict_get x ''accountBalanceAfter'')))
          else float_zero),
       (slot_key ''EL_CHG_BALANCE'' (idx + 1), chg),
       (slot_key ''EL_RATE_ID'' (idx + 1), py_or bi (dict_get x ''rateId'') (PStr []))]"
    by (auto simp: account_slot_def Let_def ebind_eq_Inr split: pyval.splits)
  from k [of "''EL_ACCT_BALANCE_ID''"] k [of "''EL_BALANCE_TYPE''"] k [of "''EL_RATE_ID''"]
    account_chg_number [OF chg]
  show ?thesis
    unfolding kvs by (simp add: numbers_ok_Cons numbers_ok_Nil empty_or_number_simps)
qed

lemma account_defaults_ok: "numbers_ok (account_defaults n)"
  by (simp add: account_defaults_def numbers_ok_Cons numbers_ok_Nil empty_or_number_simps)

lemma bucket_slot_ok:
  assumes "idx < 5" and "bucket_slot bi (idx + 1) entry = Inr kvs"
  shows "numbers_ok kvs"
proof -
  note k = other_slot_key [OF assms(1)]
  from k [of "''EL_BUCKET_BALANCE_ID''"] k [of "''EL_BUCKET_BALANCE_TYPE''"]
    k [of "''EL_BUCKET_CUR_BALANCE''"] k [of "''EL_BUCKET_CHG_BALANCE''"]
    k [of "''EL_BUCKET_RATE_ID''"] assms(2)
  show ?thesis
    by (auto simp: bucket_slot_def Let_def ebind_eq_Inr numbers_ok_Cons numbers_ok_Nil)
qed

lemma bucket_defaults_ok: "numbers_ok (bucket_defaults n)"
  by (simp add: bucket_defaults_def numbers_ok_Cons numbers_ok_Nil empty_or_number_simps)

lemma unlimited_defaults_ok: "numbers_ok unlimited_defaults"
  by (simp add: unlimited_defaults_def numbers_ok_Cons numbers_ok_Nil empty_or_number_simps)

lemma unlimited_entry_ok: "unlimited_entry bi entry = Inr (Some kvs) \<Longrightarrow> numbers_ok kvs"
  using other_keys
  by (auto simp: unlimited_entry_def Let_def ebind_eq_Inr numbers_ok_Cons numbers_ok_Nil
      empty_or_number_simps split: option.splits if_splits)

lemma unlimited_loop_ok: "unlimited_loop bi account_only = Inr kvs \<Longrightarrow> numbers_ok kvs"
proof (induction account_only)
  case Nil
  then show ?case by (simp add: numbers_ok_Nil)
next
  case (Cons entry rest)
  then show ?case
    by (auto simp: ebind_eq_Inr dest: unlimited_entry_ok split: option.splits)
qed

lemma map_err_ok:
  assumes "map_err g [0, 1, 2, 3, 4::nat] = Inr kvss"
    and "\<And>idx kvs. idx < 5 \<Longrightarrow> g idx = Inr kvs \<Longrightarrow> numbers_ok kvs"
  shows "numbers_ok (concat kvss)"
proof (rule numbers_ok_concat)
  fix x assume "x \<in> set kvss"
  then obtain i where i: "i < length kvss" and x: "x = kvss ! i"
    by (auto simp: in_set_conv_nth)
  from map_err_Inr [OF assms(1) [unfolded five]] have "length kvss = 5"
    and "\<And>j. j < 5 \<Longrightarrow> g j = Inr (kvss ! j)"
    by auto
  with i x assms(2) show "numbers_ok x" by auto
qed

lemma slot_writes_ok:
  assumes "slot_writes bi account_only bucket_subs = Inr kvs"
  shows "numbers_ok kvs"
proof -
  let ?ga = "\<lambda>idx. if idx < length account_only
                   then account_slot bi (idx + 1) (acct (account_only ! idx))
                   else Inr (account_defaults (idx + 1))"
  let ?gb = "\<lambda>idx. if idx < length bucket_subs
                   then bucket_slot bi (idx + 1) (bucket_subs ! idx)
                   else Inr (bucket_defaults (idx + 1))"
  from assms obtain k1 k2 k3 where a: "map_err ?ga [0, 1, 2, 3, 4] = Inr k1"
    and b: "map_err ?gb [0, 1, 2, 3, 4] = Inr k2"
    and u: "unlimited_loop bi account_only = Inr k3"
    and kvs: "kvs = concat k1 @ concat k2 @ unlimited_defaults @ k3"
    unfolding slot_writes_def ebind_eq_Inr by blast
  have "numbers_ok (concat k1)"
    by (rule map_err_ok [OF a])
       (auto dest: account_slot_ok simp: account_defaults_ok split: if_splits)
  moreover have "numbers_ok (concat k2)"
    by (rule map_err_ok [OF b])
       (auto dest: bucket_slot_ok simp: bucket_defaults_ok split: if_splits)
  ultimately show ?thesis
    using unlimited_loop_ok [OF u] unlimited_defaults_ok
    by (simp add: kvs numbers_ok_append)
qed

lemma map_voice_writes_Inr:
  "map_voice_writes bi cdr_json = Inr kvs \<Longrightarrow>
   \<exists>cbl re ids ext u d n ao bs slots.
     read_record bi cdr_json = Inr (cbl, re, ids, ext) \<and> usage_phase bi ext = Inr u
     \<and> debit_phase bi ext = Inr d \<and> on_net_phase re = Inr n \<and> phase2 bi ext = Inr (ao, bs)
     \<and> slot_writes bi ao bs = Inr slots
     \<and> kvs = ids @ usage_debit_fields u d @ n @ tax_phase bi cbl @ slots"
  unfolding map_voice_writes_def
  by (simp add: ebind_eq_Inr split_paired_Ex) blast

lemma map_voice_writes_ok:
  assumes "map_voice_writes bi cdr_json = Inr kvs"
  shows "numbers_ok kvs"
proof -
  from map_voice_writes_Inr [OF assms] obtain cbl re ids ext u d n ao bs slots
    where r: "read_record bi cdr_json = Inr (cbl, re, ids, ext)"
      and n: "on_net_phase re = Inr n"
      and s: "slot_writes bi ao bs = Inr slots"
      and kvs: "kvs = ids @ usage_debit_fields u d @ n @ tax_phase bi cbl @ slots"
    by blast
  from r have "phase1 bi re = Inr ids"
    by (auto simp: read_record_def Let_def ebind_eq_Inr)
  then have "numbers_ok ids" by (rule phase1_ok)
  with on_net_phase_ok [OF n] slot_writes_ok [OF s] show ?thesis
    by (simp add: kvs numbers_ok_append usage_debit_fields_ok tax_phase_ok)
qed

lemma canonical_value_number:
  assumes "numbers_ok kvs" and "key \<in> set numeric_fields"
  shows "is_number (canonical_value (rev kvs) key)"
proof (cases "map_of (rev kvs) key")
  case None
  with assms(2) show ?thesis
    by (simp add: canonical_value_def default_value_def is_number_float_zero)
next
  case (Some v)
  then have "(key, v) \<in> set kvs" by (auto dest: map_of_SomeD)
  with assms have "v = PNone \<or> v = PStr [] \<or> is_number v"
    by (auto simp: numbers_ok_def list_all_iff empty_or_number_def)
  with Some assms(2) show ?thesis
    by (auto simp: canonical_value_def default_value_def is_number_float_zero)
qed

lemma map_voice_balances_Inr:
  "map_voice_balances bi cdr_json = Inr rec \<Longrightarrow>
   \<exists>kvs. map_voice_writes bi cdr_json = Inr kvs \<and> rec = enforce_canonical (assign_all [] kvs)"
  by (auto simp: map_voice_balances_def map_voice_out_writes ebind_eq_Inr)

lemma map_voice_numeric_fields:
  assumes "map_voice_balances bi cdr_json = Inr rec" and "key \<in> set numeric_fields"
  shows "\<exists>v. map_of rec key = Some v \<and> is_number v"
proof -
  from map_voice_balances_Inr [OF assms(1)] obtain kvs
    where w: "map_voice_writes bi cdr_json = Inr kvs"
      and rec: "rec = enforce_canonical (assign_all [] kvs)"
    by blast
  from assms(2) numeric_fields_canonical have "key \<in> set CANONICAL_FIELDS" by blast
  then have "map_of rec key = Some (canonical_value (rev kvs) key)"
    by (simp add: rec enforce_canonical_lookup canonical_value_assign_all)
  with canonical_value_number [OF map_voice_writes_ok [OF w] assms(2)] show ?thesis by simp
qed

subsection \<open>The shape of a mapped record\<close>

text \<open>
  C2, as the claim states it, fails: a field that is not declared numeric can hold a
  number. For the empty record \<^verbatim>\<open>map_voice\<close> stores the float \<^verbatim>\<open>0.0\<close> under
  \<^verbatim>\<open>EL_ACTUAL_USAGE\<close> (line 303), and the canonical shaping keeps it.
\<close>

theorem enforce_canonical_keeps_number:
  "field (map_voice_balances demo_builtins (PDict [])) ''EL_ACTUAL_USAGE''
     = Some (PFloat (Dec False 0 0))
   \<and> ''EL_ACTUAL_USAGE'' \<in> set CANONICAL_FIELDS
   \<and> ''EL_ACTUAL_USAGE'' \<notin> set numeric_fields
   \<and> map_of (enforce_canonical [(''EL_ACTUAL_USAGE'', PFloat (Dec False 0 0))])
        ''EL_ACTUAL_USAGE'' = Some (PFloat (Dec False 0 0))"
proof -
  have m: "''EL_ACTUAL_USAGE'' \<in> set CANONICAL_FIELDS" by code_simp
  have n: "''EL_ACTUAL_USAGE'' \<notin> set numeric_fields" by code_simp
  have "(case map_voice_writes demo_builtins (PDict []) of
           Inr kvs \<Rightarrow> Some (canonical_value (rev kvs) ''EL_ACTUAL_USAGE'')
         | Inl e \<Rightarrow> None) = Some (PFloat (Dec False 0 0))"
    by code_simp
  then have 1: "field (map_voice_balances demo_builtins (PDict [])) ''EL_ACTUAL_USAGE''
      = Some (PFloat (Dec False 0 0))"
    by (simp only: field_eval [OF m])
  have w: "canonical_value [(''EL_ACTUAL_USAGE'', PFloat (Dec False 0 0))] ''EL_ACTUAL_USAGE''
      = PFloat (Dec False 0 0)"
    by code_simp
  from m n 1
    enforce_canonical_lookup [OF m, of "[(''EL_ACTUAL_USAGE'', PFloat (Dec False 0 0))]"] w
  show ?thesis by simp
qed

text \<open>
  C2, amended. For every input record on which \<^verbatim>\<open>map_voice\<close> returns, the keys of the
  output are exactly the canonical field list, in its order; every field of
  \<^verbatim>\<open>numeric_fields\<close> holds a number; no field is null or absent. Whatever dict the
  shaping is given, a field that is absent from it, null or the empty string gets its
  type default, \<^verbatim>\<open>0.0\<close> for a numeric field and the empty string for every other field,
  and any other value is kept as it is: a field that is not declared numeric holds a
  string by default, and a number where the mapper stored one.
\<close>

theorem map_voice_canonical_shape:
  "(map_voice_balances bi cdr_json = Inr rec \<longrightarrow>
      map fst rec = CANONICAL_FIELDS
      \<and> (\<forall>key\<in>set numeric_fields. \<exists>v. map_of rec key = Some v \<and> is_number v)
      \<and> (\<forall>key\<in>set CANONICAL_FIELDS. \<exists>v. map_of rec key = Some v \<and> v \<noteq> PNone))
   \<and> map fst (enforce_canonical mapped) = CANONICAL_FIELDS
   \<and> (\<forall>key\<in>set CANONICAL_FIELDS.
        map_of (enforce_canonical mapped) key
          = Some (case map_of mapped key of
                    Some v \<Rightarrow>
                      if v \<noteq> PNone \<and> v \<noteq> PStr [] then v
                      else if key \<in> set numeric_fields then PFloat (Dec False 0 0)
                      else PStr []
                  | None \<Rightarrow>
                      if key \<in> set numeric_fields then PFloat (Dec False 0 0) else PStr [])
        \<and> map_of (enforce_canonical mapped) key \<noteq> Some PNone)"
proof (intro conjI impI ballI)
  assume r: "map_voice_balances bi cdr_json = Inr rec"
  then obtain out where rec: "rec = enforce_canonical out"
    by (auto simp: map_voice_balances_def ebind_eq_Inr)
  show "map fst rec = CANONICAL_FIELDS"
    by (simp add: rec enforce_canonical_map comp_def)
  {
    fix key assume "key \<in> set numeric_fields"
    with r show "\<exists>v. map_of rec key = Some v \<and> is_number v"
      by (rule map_voice_numeric_fields)
  }
  {
    fix key assume "key \<in> set CANONICAL_FIELDS"
    then show "\<exists>v. map_of rec key = Some v \<and> v \<noteq> PNone"
      by (simp add: rec enforce_canonical_lookup canonical_value_def default_value_not_None
          split: option.splits)
  }
next
  show "map fst (enforce_canonical mapped) = CANONICAL_FIELDS"
    by (simp add: enforce_canonical_map comp_def)
next
  fix key assume "key \<in> set CANONICAL_FIELDS"
  then show "map_of (enforce_canonical mapped) key
          = Some (case map_of mapped key of
                    Some v \<Rightarrow>
                      if v \<noteq> PNone \<and> v \<noteq> PStr [] then v
                      else if key \<in> set numeric_fields then PFloat (Dec False 0 0)
                      else PStr []
                  | None \<Rightarrow>
                      if key \<in> set numeric_fields then PFloat (Dec False 0 0) else PStr [])"
    by (cases "map_of mapped key")
       (simp_all add: enforce_canonical_lookup canonical_value_def default_value_def
          float_zero_def dec_zero_def)
next
  fix key assume "key \<in> set CANONICAL_FIELDS"
  then show "map_of (enforce_canonical mapped) key \<noteq> Some PNone"
    by (simp add: enforce_canonical_lookup canonical_value_def default_value_not_None
        split: option.splits)
qed

theorem map_voice_canonical_shape_witness:
  "map fst (projr (map_voice_balances demo_builtins (PDict []))) = CANONICAL_FIELDS
   \<and> (\<exists>v. field (map_voice_balances demo_builtins (PDict [])) ''EL_UNLTD_ROUNDED_UNITS_CHARGED''
            = Some v \<and> is_number v)
   \<and> (\<exists>v. field (map_voice_balances demo_builtins (PDict [])) ''EL_CDR_ID'' = Some v
            \<and> v \<noteq> PNone)
   \<and> map fst (enforce_canonical
        [(''EL_CDR_ID'', PStr ''abc''), (''EL_SESSION_ID'', PNone), (''EL_TAX1'', PStr [])])
     = CANONICAL_FIELDS
   \<and> map_of (enforce_canonical
        [(''EL_CDR_ID'', PStr ''abc''), (''EL_SESSION_ID'', PNone), (''EL_TAX1'', PStr [])])
        ''EL_CDR_ID'' = Some (PStr ''abc'')
   \<and> map_of (enforce_canonical
        [(''EL_CDR_ID'', PStr ''abc''), (''EL_SESSION_ID'', PNone), (''EL_TAX1'', PStr [])])
        ''EL_SESSION_ID'' = Some (PStr [])
   \<and> map_of (enforce_canonical
        [(''EL_CDR_ID'', PStr ''abc''), (''EL_SESSION_ID'', PNone), (''EL_TAX1'', PStr [])])
        ''EL_TAX1'' = Some (PFloat (Dec False 0 0))"
proof -
  let ?m = "[(''EL_CDR_ID'', PStr ''abc''), (''EL_SESSION_ID'', PNone), (''EL_TAX1'', PStr [])]"
  let ?r = "map_voice_balances demo_builtins (PDict [])"
  have "\<not> isl (map_voice_writes demo_builtins (PDict []))" by code_simp
  then have "\<not> isl ?r"
    by (cases "map_voice_writes demo_builtins (PDict [])")
       (simp_all add: map_voice_balances_def map_voice_out_writes)
  then have r: "?r = Inr (projr ?r)" by simp
  note th = map_voice_canonical_shape [where bi = demo_builtins and cdr_json = "PDict []"
      and rec = "projr ?r" and mapped = ?m]
  note a = th [THEN conjunct1, THEN mp, OF r]
  have k0: "''EL_UNLTD_ROUNDED_UNITS_CHARGED'' \<in> set numeric_fields" by code_simp
  have k1: "''EL_CDR_ID'' \<in> set CANONICAL_FIELDS" by code_simp
  have k2: "''EL_SESSION_ID'' \<in> set CANONICAL_FIELDS" by code_simp
  have k3: "''EL_TAX1'' \<in> set CANONICAL_FIELDS" by code_simp
  have d2: "''EL_SESSION_ID'' \<notin> set numeric_fields" by code_simp
  have d3: "''EL_TAX1'' \<in> set numeric_fields" by code_simp
  have f: "field ?r key = map_of (projr ?r) key" for key
    by (subst r) (simp add: field_def)
  from a have 0: "map fst (projr ?r) = CANONICAL_FIELDS" by (rule conjunct1)
  from a [THEN conjunct2, THEN conjunct1, THEN bspec, OF k0]
  have 1: "\<exists>v. field ?r ''EL_UNLTD_ROUNDED_UNITS_CHARGED'' = Some v \<and> is_number v"
    by (simp only: f)
  from a [THEN conjunct2, THEN conjunct2, THEN bspec, OF k1]
  have 2: "\<exists>v. field ?r ''EL_CDR_ID'' = Some v \<and> v \<noteq> PNone"
    by (simp only: f)
  note b = th [THEN conjunct2]
  from b have 3: "map fst (enforce_canonical ?m) = CANONICAL_FIELDS" by (rule conjunct1)
  from b [THEN conjunct2, THEN bspec, OF k1]
  have 4: "map_of (enforce_canonical ?m) ''EL_CDR_ID'' = Some (PStr ''abc'')" by simp
  from b [THEN conjunct2, THEN bspec, OF k2] d2
  have 5: "map_of (enforce_canonical ?m) ''EL_SESSION_ID'' = Some (PStr [])" by simp
  from b [THEN conjunct2, THEN bspec, OF k3] d3
  have 6: "map_of (enforce_canonical ?m) ''EL_TAX1'' = Some (PFloat (Dec False 0 0))" by simp
  from 0 1 2 3 4 5 6 show ?thesis by (simp only: simp_thms)
qed

section \<open>The debit amount and the slots of a record with one account\<close>

lemma one_account_writes_int:
  "map_voice_writes bi (one_account_record (PInt 100) (PInt 70))
     = map_voice_writes bi (one_account_record (PStr ''100'') (PStr ''70''))"
  by code_simp

lemma one_account_keys:
  "set ([''EL_DEBIT_AMOUNT'', ''EL_ACCT_BALANCE_ID1'', ''EL_BALANCE_TYPE1'', ''EL_CUR_BALANCE1'',
         ''EL_CHG_BALANCE1'', ''EL_RATE_ID1'']
        @ map fst (concat (map account_defaults [2, 3, 4, 5]))
        @ map fst (concat (map bucket_defaults [1, 2, 3, 4, 5])))
   \<subseteq> set CANONICAL_FIELDS"
  by code_simp

lemma one_account_values:
  "map (\<lambda>k. case map_voice_writes bi (one_account_record (PStr ''100'') (PStr ''70'')) of
               Inr kvs \<Rightarrow> Some (canonical_value (rev kvs) k)
             | Inl e \<Rightarrow> None)
       ([''EL_DEBIT_AMOUNT'', ''EL_ACCT_BALANCE_ID1'', ''EL_BALANCE_TYPE1'', ''EL_CUR_BALANCE1'',
         ''EL_CHG_BALANCE1'', ''EL_RATE_ID1'']
        @ map fst (concat (map account_defaults [2, 3, 4, 5]))
        @ map fst (concat (map bucket_defaults [1, 2, 3, 4, 5])))
   = [Some (PFloat (Dec False 0 0)), Some (PStr []), Some (PStr []),
      Some (PFloat (Dec False 70 0)), Some (PFloat (Dec False 30 0)), Some (PStr [])]
     @ map (\<lambda>kv. Some (snd kv)) (concat (map account_defaults [2, 3, 4, 5]))
     @ map (\<lambda>kv. Some (snd kv)) (concat (map bucket_defaults [1, 2, 3, 4, 5]))"
  by code_simp

lemma one_account_fields:
  "map (field (map_voice_balances bi (one_account_record (PStr ''100'') (PStr ''70''))))
       ([''EL_DEBIT_AMOUNT'', ''EL_ACCT_BALANCE_ID1'', ''EL_BALANCE_TYPE1'', ''EL_CUR_BALANCE1'',
         ''EL_CHG_BALANCE1'', ''EL_RATE_ID1'']
        @ map fst (concat (map account_defaults [2, 3, 4, 5]))
        @ map fst (concat (map bucket_defaults [1, 2, 3, 4, 5])))
   = [Some (PFloat (Dec False 0 0)), Some (PStr []), Some (PStr []),
      Some (PFloat (Dec False 70 0)), Some (PFloat (Dec False 30 0)), Some (PStr [])]
     @ map (\<lambda>kv. Some (snd kv)) (concat (map account_defaults [2, 3, 4, 5]))
     @ map (\<lambda>kv. Some (snd kv)) (concat (map bucket_defaults [1, 2, 3, 4, 5]))"
  by (simp only: fields_eval [OF one_account_keys] one_account_values)

text \<open>
  C1, as the claim states it, fails. For the record with one \<^verbatim>\<open>accountInfo\<close> block
  (before 100, after 70, no committed value) and no bucket block, the branch taken at
  line 342 is \<^verbatim>\<open>(not has_bucket) and account_info\<close>, which reads only the committed
  values; the difference \<^verbatim>\<open>before - after\<close> is taken in the \<^verbatim>\<open>else\<close> branch alone. So
  \<^verbatim>\<open>EL_DEBIT_AMOUNT\<close> is \<^verbatim>\<open>0.0\<close>, which is not \<^verbatim>\<open>30.0\<close>, whether the balances are strings or
  integers.
\<close>

theorem map_voice_debit_is_zero:
  "field (map_voice_balances demo_builtins (one_account_record (PStr ''100'') (PStr ''70'')))
     ''EL_DEBIT_AMOUNT'' = Some (PFloat (Dec False 0 0))
   \<and> field (map_voice_balances demo_builtins (one_account_record (PInt 100) (PInt 70)))
     ''EL_DEBIT_AMOUNT'' = Some (PFloat (Dec False 0 0))
   \<and> \<not> float_eq demo_builtins (Dec False 0 0) (Dec False 30 0)"
proof -
  have k: "''EL_DEBIT_AMOUNT'' \<in> set CANONICAL_FIELDS" by code_simp
  have "(case map_voice_writes demo_builtins (one_account_record (PStr ''100'') (PStr ''70'')) of
           Inr kvs \<Rightarrow> Some (canonical_value (rev kvs) ''EL_DEBIT_AMOUNT'')
         | Inl e \<Rightarrow> None) = Some (PFloat (Dec False 0 0))"
    by code_simp
  then have 1: "field (map_voice_balances demo_builtins
                    (one_account_record (PStr ''100'') (PStr ''70'')))
             ''EL_DEBIT_AMOUNT'' = Some (PFloat (Dec False 0 0))"
    by (simp only: field_eval [OF k])
  have "(case map_voice_writes demo_builtins (one_account_record (PInt 100) (PInt 70)) of
           Inr kvs \<Rightarrow> Some (canonical_value (rev kvs) ''EL_DEBIT_AMOUNT'')
         | Inl e \<Rightarrow> None) = Some (PFloat (Dec False 0 0))"
    by code_simp
  then have 2: "field (map_voice_balances demo_builtins (one_account_record (PInt 100) (PInt 70)))
             ''EL_DEBIT_AMOUNT'' = Some (PFloat (Dec False 0 0))"
    by (simp only: field_eval [OF k])
  have 3: "\<not> float_eq demo_builtins (Dec False 0 0) (Dec False 30 0)" by code_simp
  from 1 2 3 show ?thesis by (simp only: simp_thms)
qed

text \<open>
  C1, amended. For the record with one \<^verbatim>\<open>accountInfo\<close> block (before 100, after 70, no
  committed value) and no bucket block, \<^verbatim>\<open>EL_DEBIT_AMOUNT\<close> is \<^verbatim>\<open>0.0\<close>; account slot 1 is
  populated from that account, with current balance \<^verbatim>\<open>70.0\<close>, charged balance \<^verbatim>\<open>30.0\<close> and
  empty identifier, type and rate; account slots 2 to 5 and bucket slots 1 to 5 hold
  their type defaults. The result is the same when the balances are the integers 100
  and 70.
\<close>

theorem map_voice_one_account:
  "map (field (map_voice_balances bi (one_account_record (PStr ''100'') (PStr ''70''))))
       ([''EL_DEBIT_AMOUNT'', ''EL_ACCT_BALANCE_ID1'', ''EL_BALANCE_TYPE1'', ''EL_CUR_BALANCE1'',
         ''EL_CHG_BALANCE1'', ''EL_RATE_ID1'']
        @ map fst (concat (map account_defaults [2, 3, 4, 5]))
        @ map fst (concat (map bucket_defaults [1, 2, 3, 4, 5])))
   = [Some (PFloat (Dec False 0 0)), Some (PStr []), Some (PStr []),
      Some (PFloat (Dec False 70 0)), Some (PFloat (Dec False 30 0)), Some (PStr [])]
     @ map (\<lambda>kv. Some (snd kv)) (concat (map account_defaults [2, 3, 4, 5]))
     @ map (\<lambda>kv. Some (snd kv)) (concat (map bucket_defaults [1, 2, 3, 4, 5]))
   \<and> map_voice_balances bi (one_account_record (PInt 100) (PInt 70))
     = map_voice_balances bi (one_account_record (PStr ''100'') (PStr ''70''))"
  using one_account_fields [of bi]
  by (simp add: map_voice_balances_def map_voice_out_writes one_account_writes_int)

theorem map_voice_one_account_witness:
  "field (map_voice_balances demo_builtins (one_account_record (PInt 100) (PInt 70)))
     ''EL_CHG_BALANCE1'' = Some (PFloat (Dec False 30 0))
   \<and> field (map_voice_balances demo_builtins (one_account_record (PInt 100) (PInt 70)))
     ''EL_CUR_BALANCE1'' = Some (PFloat (Dec False 70 0))
   \<and> field (map_voice_balances demo_builtins (one_account_record (PInt 100) (PInt 70)))
     ''EL_CUR_BALANCE2'' = Some (PFloat (Dec False 0 0))"
proof -
  let ?keys = "[''EL_DEBIT_AMOUNT'', ''EL_ACCT_BALANCE_ID1'', ''EL_BALANCE_TYPE1'',
         ''EL_CUR_BALANCE1'', ''EL_CHG_BALANCE1'', ''EL_RATE_ID1'']
        @ map fst (concat (map account_defaults [2, 3, 4, 5]))
        @ map fst (concat (map bucket_defaults [1, 2, 3, 4, 5]))"
  let ?vals = "[Some (PFloat (Dec False 0 0)), Some (PStr []), Some (PStr []),
      Some (PFloat (Dec False 70 0)), Some (PFloat (Dec False 30 0)), Some (PStr [])]
     @ map (\<lambda>kv. Some (snd kv)) (concat (map account_defaults [2, 3, 4, 5]))
     @ map (\<lambda>kv. Some (snd kv)) (concat (map bucket_defaults [1, 2, 3, 4, 5]))"
  let ?r = "map_voice_balances demo_builtins (one_account_record (PStr ''100'') (PStr ''70''))"
  note th = map_voice_one_account [of demo_builtins]
  have s: "take 9 ?keys
        = [''EL_DEBIT_AMOUNT'', ''EL_ACCT_BALANCE_ID1'', ''EL_BALANCE_TYPE1'',
           ''EL_CUR_BALANCE1'', ''EL_CHG_BALANCE1'', ''EL_RATE_ID1'',
           ''EL_ACCT_BALANCE_ID2'', ''EL_BALANCE_TYPE2'', ''EL_CUR_BALANCE2'']"
    by code_simp
  have t: "take 9 ?vals
        = [Some (PFloat (Dec False 0 0)), Some (PStr []), Some (PStr []),
           Some (PFloat (Dec False 70 0)), Some (PFloat (Dec False 30 0)), Some (PStr []),
           Some (PStr []), Some (PStr []), Some (PFloat (Dec False 0 0))]"
    by code_simp
  from th have "map (field ?r) ?keys = ?vals" by (rule conjunct1)
  then have "take 9 (map (field ?r) ?keys) = take 9 ?vals" by (rule arg_cong)
  then have "map (field ?r) (take 9 ?keys) = take 9 ?vals" by (simp only: take_map)
  then have f: "field ?r ''EL_CHG_BALANCE1'' = Some (PFloat (Dec False 30 0))
      \<and> field ?r ''EL_CUR_BALANCE1'' = Some (PFloat (Dec False 70 0))
      \<and> field ?r ''EL_CUR_BALANCE2'' = Some (PFloat (Dec False 0 0))"
    unfolding s t by simp
  from th have "map_voice_balances demo_builtins (one_account_record (PInt 100) (PInt 70)) = ?r"
    by (rule conjunct2)
  with f show ?thesis by (simp only:)
qed

subsection \<open>Tree order of the subscription blocks\<close>

lemma map_err_append:
  "map_err g (xs @ ys)
     = ebind (map_err g xs) (\<lambda>a. ebind (map_err g ys) (\<lambda>b. Inr (a @ b)))"
proof (induction xs)
  case Nil
  show ?case by (cases "map_err g ys") simp_all
next
  case (Cons x xs)
  show ?case
    by (cases "g x"; cases "map_err g xs"; cases "map_err g ys") (simp_all add: Cons.IH)
qed

lemma for_each_filter:
  "for_each (\<lambda>x s. if P x then body x s else Inr s) xs st = for_each body (filter P xs) st"
proof (induction xs arbitrary: st)
  case Nil
  show ?case by simp
next
  case (Cons x xs)
  show ?case by (cases "body x st") (simp_all add: Cons.IH)
qed

lemma for_each_appends:
  assumes "\<And>x ao bs. body x (ao, bs) = ebind (g x) (\<lambda>c. Inr (ao @ fst c, bs @ snd c))"
  shows "for_each body xs (ao, bs)
           = ebind (map_err g xs)
               (\<lambda>cs. Inr (ao @ concat (map fst cs), bs @ concat (map snd cs)))"
proof (induction xs arbitrary: ao bs)
  case Nil
  show ?case by simp
next
  case (Cons x xs)
  show ?case
    by (cases "g x"; cases "map_err g xs") (simp_all add: assms Cons.IH)
qed

lemma for_children_appends:
  assumes "\<And>x ao bs. body x (ao, bs) = ebind (g x) (\<lambda>c. Inr (ao @ fst c, bs @ snd c))"
  shows "for_children bi nd p body (ao, bs)
           = ebind (ebind (ebind (children bi nd p) (map_err g))
                      (\<lambda>cs. Inr (concat (map fst cs), concat (map snd cs))))
               (\<lambda>c. Inr (ao @ fst c, bs @ snd c))"
proof (cases "sub_extensions bi nd")
  case (Inl e)
  then show ?thesis by (simp add: for_children_def children_def)
next
  case (Inr xs)
  then show ?thesis
    by (cases "map_err g (filter (\<lambda>x. prop_is x p) xs)")
       (simp_all add: for_children_def children_def for_each_filter for_each_appends [of body g, OF assms])
qed

lemma subscription_entry_writer:
  "subscription_entry bi s2 (ao, bs)
     = ebind (subscription_entry bi s2 ([], [])) (\<lambda>c. Inr (ao @ fst c, bs @ snd c))"
  unfolding subscription_entry_def Let_def prod.case
  by (cases "for_children bi s2 ''chargingServiceInfo''
                  (\<lambda>s3 st3. ebind (sub_extensions bi s3) (\<lambda>s4s. for_each (scan_s4 bi) s4s st3))
                  (False, None, [])")
     (auto split: option.splits)

lemma nested_map_err:
  assumes "map_err (\<lambda>x. ebind (ebind (h x) (map_err g))
                            (\<lambda>cs. Inr (concat (map fst cs), concat (map snd cs)))) xs = Inr rs"
  shows "\<exists>yss cs. map_err h xs = Inr yss \<and> map_err g (concat yss) = Inr cs
           \<and> concat (map fst rs) = concat (map fst cs)
           \<and> concat (map snd rs) = concat (map snd cs)"
  using assms
proof (induction xs arbitrary: rs)
  case Nil
  then show ?case by simp
next
  case (Cons x xs)
  from Cons.prems obtain ys c rs' where h: "h x = Inr ys" and g: "map_err g ys = Inr c"
    and r: "map_err (\<lambda>x. ebind (ebind (h x) (map_err g))
                            (\<lambda>cs. Inr (concat (map fst cs), concat (map snd cs)))) xs = Inr rs'"
    and rs: "rs = (concat (map fst c), concat (map snd c)) # rs'"
    by (auto simp: ebind_eq_Inr)
  from Cons.IH [OF r] obtain yss cs where 1: "map_err h xs = Inr yss"
    and 2: "map_err g (concat yss) = Inr cs"
    and 3: "concat (map fst rs') = concat (map fst cs)"
    and 4: "concat (map snd rs') = concat (map snd cs)"
    by blast
  show ?case
    by (rule exI [of _ "ys # yss"], rule exI [of _ "c @ cs"])
       (simp add: h 1 map_err_append g 2 rs 3 4)
qed

lemma phase2_tree_order:
  assumes "phase2 bi (Some ext) = Inr (ao, bs)"
  shows "\<exists>blocks cs. subscription_blocks bi ext = Inr blocks
           \<and> map_err (\<lambda>s2. subscription_entry bi s2 ([], [])) blocks = Inr cs
           \<and> ao = concat (map fst cs) \<and> bs = concat (map snd cs)
           \<and> (\<forall>c\<in>set cs. length (fst c) + length (snd c) \<le> 1)"
proof -
  let ?g = "\<lambda>s2. subscription_entry bi s2 ([], [])"
  let ?c = "\<lambda>cs :: (account_entry list \<times> bucket_sub list) list.
              Inr (concat (map fst cs), concat (map snd cs)) :: py_error + _"
  let ?g1 = "\<lambda>sub. ebind (ebind (children bi sub ''subscriptionInfo'') (map_err ?g)) ?c"
  let ?g2 = "\<lambda>mscc. ebind (ebind (children bi mscc ''deviceInfo'') (map_err ?g1)) ?c"
  have b1: "for_children bi sub ''subscriptionInfo'' (subscription_entry bi) (ao, bs)
      = ebind (?g1 sub) (\<lambda>c. Inr (ao @ fst c, bs @ snd c))" for sub ao bs
    by (rule for_children_appends) (rule subscription_entry_writer)
  have b2: "for_children bi mscc ''deviceInfo''
        (\<lambda>sub. for_children bi sub ''subscriptionInfo'' (subscription_entry bi)) (ao, bs)
      = ebind (?g2 mscc) (\<lambda>c. Inr (ao @ fst c, bs @ snd c))" for mscc ao bs
    by (rule for_children_appends) (rule b1)
  have "phase2 bi (Some ext)
      = ebind (ebind (ebind (children bi ext ''mscc'') (map_err ?g2)) ?c)
          (\<lambda>c. Inr ([] @ fst c, [] @ snd c))"
    unfolding phase2_def option.case
    by (rule for_children_appends) (rule b2)
  with assms obtain msccs rs2 where m: "children bi ext ''mscc'' = Inr msccs"
    and r2: "map_err ?g2 msccs = Inr rs2"
    and ao2: "ao = concat (map fst rs2)" and bs2: "bs = concat (map snd rs2)"
    by (auto simp: ebind_eq_Inr)
  from nested_map_err [OF r2] obtain devs rs1
    where d: "map_err (\<lambda>mscc. children bi mscc ''deviceInfo'') msccs = Inr devs"
      and r1: "map_err ?g1 (concat devs) = Inr rs1"
      and ao1: "concat (map fst rs2) = concat (map fst rs1)"
      and bs1: "concat (map snd rs2) = concat (map snd rs1)"
    by blast
  from nested_map_err [OF r1] obtain subs cs
    where s: "map_err (\<lambda>sub. children bi sub ''subscriptionInfo'') (concat devs) = Inr subs"
      and r0: "map_err ?g (concat subs) = Inr cs"
      and ao0: "concat (map fst rs1) = concat (map fst cs)"
      and bs0: "concat (map snd rs1) = concat (map snd cs)"
    by blast
  have blocks: "subscription_blocks bi ext = Inr (concat subs)"
    by (simp add: subscription_blocks_def m d s)
  have one: "length (fst c) + length (snd c) \<le> 1" if "c \<in> set cs" for c
  proof -
    from that obtain i where i: "i < length cs" and c: "c = cs ! i"
      by (auto simp: in_set_conv_nth)
    from map_err_Inr [OF r0] i have "?g (concat subs ! i) = Inr (cs ! i)" by simp
    then have "subscription_entry bi (concat subs ! i) ([], []) = Inr (fst c, snd c)"
      by (simp add: c)
    from subscription_entry_appends [OF this] show ?thesis by auto
  qed
  from blocks r0 ao2 bs2 ao1 bs1 ao0 bs0 one show ?thesis by auto
qed

subsection \<open>The cap of five\<close>

lemma account_slots_pinned:
  assumes "populate_account_slots bi account_only out0 = Inr out" and "idx < 5"
  shows "if idx < length account_only
         then \<exists>kvs chg. acct (account_only ! idx) = PDict kvs \<and> account_chg bi kvs = Inr chg
                \<and> map_of out (slot_key ''EL_ACCT_BALANCE_ID'' (idx + 1))
                    = Some (py_or bi (dict_get kvs ''accountID'') (PStr []))
                \<and> map_of out (slot_key ''EL_BALANCE_TYPE'' (idx + 1))
                    = Some (py_or bi (dict_get kvs ''accountType'') (PStr []))
                \<and> map_of out (slot_key ''EL_CUR_BALANCE'' (idx + 1))
                    = Some (case to_decimal bi (dict_get kvs ''accountBalanceAfter'') of
                              Some cur \<Rightarrow> opt_float (fmt_decimal_to_float (Some cur))
                            | None \<Rightarrow> float_zero)
                \<and> map_of out (slot_key ''EL_CHG_BALANCE'' (idx + 1)) = Some chg
                \<and> map_of out (slot_key ''EL_RATE_ID'' (idx + 1))
                    = Some (py_or bi (dict_get kvs ''rateId'') (PStr []))
         else map_of out (slot_key ''EL_ACCT_BALANCE_ID'' (idx + 1)) = Some (PStr [])
              \<and> map_of out (slot_key ''EL_BALANCE_TYPE'' (idx + 1)) = Some (PStr [])
              \<and> map_of out (slot_key ''EL_CUR_BALANCE'' (idx + 1)) = Some float_zero
              \<and> map_of out (slot_key ''EL_CHG_BALANCE'' (idx + 1)) = Some float_zero
              \<and> map_of out (slot_key ''EL_RATE_ID'' (idx + 1)) = Some (PStr [])"
proof (cases "idx < length account_only")
  case True
  with account_slots_content [OF assms] obtain kvs'
    where s: "account_slot bi (idx + 1) (acct (account_only ! idx)) = Inr kvs'"
      and m: "\<forall>kv\<in>set kvs'. map_of out (fst kv) = Some (snd kv)"
    by auto
  from s obtain kvs chg where a: "acct (account_only ! idx) = PDict kvs"
    and c: "account_chg bi kvs = Inr chg"
    and k: "kvs' = [(slot_key ''EL_ACCT_BALANCE_ID'' (idx + 1),
                       py_or bi (dict_get kvs ''accountID'') (PStr [])),
                    (slot_key ''EL_BALANCE_TYPE'' (idx + 1),
                       py_or bi (dict_get kvs ''accountType'') (PStr [])),
                    (slot_key ''EL_CUR_BALANCE'' (idx + 1),
                       if to_decimal bi (dict_get kvs ''accountBalanceAfter'') \<noteq> None
                       then opt_float (fmt_decimal_to_float
                              (to_decimal bi (dict_get kvs ''accountBalanceAfter'')))
                       else float_zero),
                    (slot_key ''EL_CHG_BALANCE'' (idx + 1), chg),
                    (slot_key ''EL_RATE_ID'' (idx + 1),
                       py_or bi (dict_get kvs ''rateId'') (PStr []))]"
    by (auto simp: account_slot_def Let_def ebind_eq_Inr split: pyval.splits)
  from m have "map_of out (slot_key ''EL_ACCT_BALANCE_ID'' (idx + 1))
        = Some (py_or bi (dict_get kvs ''accountID'') (PStr []))
      \<and> map_of out (slot_key ''EL_BALANCE_TYPE'' (idx + 1))
        = Some (py_or bi (dict_get kvs ''accountType'') (PStr []))
      \<and> map_of out (slot_key ''EL_CUR_BALANCE'' (idx + 1))
        = Some (case to_decimal bi (dict_get kvs ''accountBalanceAfter'') of
                  Some cur \<Rightarrow> opt_float (fmt_decimal_to_float (Some cur))
                | None \<Rightarrow> float_zero)
      \<and> map_of out (slot_key ''EL_CHG_BALANCE'' (idx + 1)) = Some chg
      \<and> map_of out (slot_key ''EL_RATE_ID'' (idx + 1))
        = Some (py_or bi (dict_get kvs ''rateId'') (PStr []))"
    unfolding k by (auto split: option.splits)
  with True a c show ?thesis by auto
next
  case False
  with account_slots_content [OF assms]
  have "\<forall>kv\<in>set (account_defaults (idx + 1)). map_of out (fst kv) = Some (snd kv)"
    by auto
  with False show ?thesis by (simp add: account_defaults_def)
qed

lemma bucket_slots_pinned:
  assumes "populate_bucket_slots bi bucket_subs out0 = Inr out" and "idx < 5"
  shows "if idx < length bucket_subs
         then \<exists>id_val types chg_vals rates.
                (if truthy bi (py_or bi (bs_bundleName (bucket_subs ! idx)) (PStr []))
                    \<and> filter (truthy bi) (map bucketName (buckets (bucket_subs ! idx))) \<noteq> []
                 then (case py_or bi (bs_bundleName (bucket_subs ! idx)) (PStr []) of
                         PStr s \<Rightarrow>
                           ebind (join_vals (filter (truthy bi)
                                    (map bucketName (buckets (bucket_subs ! idx)))))
                             (\<lambda>j. Inr (PStr (s @ ''-'' @ j)))
                       | _ \<Rightarrow> Inl TypeError)
                 else if truthy bi (py_or bi (bs_bundleName (bucket_subs ! idx)) (PStr []))
                 then Inr (py_or bi (bs_bundleName (bucket_subs ! idx)) (PStr []))
                 else ebind (join_vals (filter (truthy bi)
                               (map bucketName (buckets (bucket_subs ! idx)))))
                        (\<lambda>j. Inr (PStr j))) = Inr id_val
                \<and> join_vals (filter (truthy bi)
                     (map bucketUnitType (buckets (bucket_subs ! idx)))) = Inr types
                \<and> map_err (bucket_chg_val bi) (buckets (bucket_subs ! idx)) = Inr chg_vals
                \<and> join_vals (filter (truthy bi)
                     (map rateId (buckets (bucket_subs ! idx)))) = Inr rates
                \<and> map_of out (slot_key ''EL_BUCKET_BALANCE_ID'' (idx + 1)) = Some id_val
                \<and> map_of out (slot_key ''EL_BUCKET_BALANCE_TYPE'' (idx + 1)) = Some (PStr types)
                \<and> map_of out (slot_key ''EL_BUCKET_CUR_BALANCE'' (idx + 1))
                    = Some (PStr (join '','' (map (bucket_cur_val bi)
                                                (buckets (bucket_subs ! idx)))))
                \<and> map_of out (slot_key ''EL_BUCKET_CHG_BALANCE'' (idx + 1))
                    = Some (PStr (join '','' chg_vals))
                \<and> map_of out (slot_key ''EL_BUCKET_RATE_ID'' (idx + 1)) = Some (PStr rates)
         else map_of out (slot_key ''EL_BUCKET_BALANCE_ID'' (idx + 1)) = Some (PStr [])
              \<and> map_of out (slot_key ''EL_BUCKET_BALANCE_TYPE'' (idx + 1)) = Some (PStr [])
              \<and> map_of out (slot_key ''EL_BUCKET_CUR_BALANCE'' (idx + 1)) = Some float_zero
              \<and> map_of out (slot_key ''EL_BUCKET_CHG_BALANCE'' (idx + 1)) = Some float_zero
              \<and> map_of out (slot_key ''EL_BUCKET_RATE_ID'' (idx + 1)) = Some (PStr [])"
proof (cases "idx < length bucket_subs")
  case True
  with bucket_slots_content [OF assms] obtain kvs'
    where s: "bucket_slot bi (idx + 1) (bucket_subs ! idx) = Inr kvs'"
      and m: "\<forall>kv\<in>set kvs'. map_of out (fst kv) = Some (snd kv)"
    by auto
  from s obtain id_val types chg_vals rates where
    i: "(if truthy bi (py_or bi (bs_bundleName (bucket_subs ! idx)) (PStr []))
                    \<and> filter (truthy bi) (map bucketName (buckets (bucket_subs ! idx))) \<noteq> []
                 then (case py_or bi (bs_bundleName (bucket_subs ! idx)) (PStr []) of
                         PStr s \<Rightarrow>
                           ebind (join_vals (filter (truthy bi)
                                    (map bucketName (buckets (bucket_subs ! idx)))))
                             (\<lambda>j. Inr (PStr (s @ ''-'' @ j)))
                       | _ \<Rightarrow> Inl TypeError)
                 else if truthy bi (py_or bi (bs_bundleName (bucket_subs ! idx)) (PStr []))
                 then Inr (py_or bi (bs_bundleName (bucket_subs ! idx)) (PStr []))
                 else ebind (join_vals (filter (truthy bi)
                               (map bucketName (buckets (bucket_subs ! idx)))))
                        (\<lambda>j. Inr (PStr j))) = Inr id_val"
    and t: "join_vals (filter (truthy bi)
              (map bucketUnitType (buckets (bucket_subs ! idx)))) = Inr types"
    and c: "map_err (bucket_chg_val bi) (buckets (bucket_subs ! idx)) = Inr chg_vals"
    and r: "join_vals (filter (truthy bi)
              (map rateId (buckets (bucket_subs ! idx)))) = Inr rates"
    and k: "kvs' = [(slot_key ''EL_BUCKET_BALANCE_ID'' (idx + 1), id_val),
                (slot_key ''EL_BUCKET_BALANCE_TYPE'' (idx + 1), PStr types),
                (slot_key ''EL_BUCKET_CUR_BALANCE'' (idx + 1),
                   PStr (join '','' (map (bucket_cur_val bi) (buckets (bucket_subs ! idx))))),
                (slot_key ''EL_BUCKET_CHG_BALANCE'' (idx + 1), PStr (join '','' chg_vals)),
                (slot_key ''EL_BUCKET_RATE_ID'' (idx + 1), PStr rates)]"
    unfolding bucket_slot_def Let_def ebind_eq_Inr by blast
  from m have "map_of out (slot_key ''EL_BUCKET_BALANCE_ID'' (idx + 1)) = Some id_val
      \<and> map_of out (slot_key ''EL_BUCKET_BALANCE_TYPE'' (idx + 1)) = Some (PStr types)
      \<and> map_of out (slot_key ''EL_BUCKET_CUR_BALANCE'' (idx + 1))
          = Some (PStr (join '','' (map (bucket_cur_val bi) (buckets (bucket_subs ! idx)))))
      \<and> map_of out (slot_key ''EL_BUCKET_CHG_BALANCE'' (idx + 1))
          = Some (PStr (join '','' chg_vals))
      \<and> map_of out (slot_key ''EL_BUCKET_RATE_ID'' (idx + 1)) = Some (PStr rates)"
    unfolding k by simp
  with True i t c r show ?thesis by (simp only: if_True) blast
next
  case False
  with bucket_slots_content [OF assms]
  have "\<forall>kv\<in>set (bucket_defaults (idx + 1)). map_of out (fst kv) = Some (snd kv)"
    by auto
  with False show ?thesis by (simp add: bucket_defaults_def)
qed

lemma phase2_seven:
  "phase2 bi (Some (mscc_ext (map numbered_bucket [1, 2, 3, 4, 5, 6, 7])))
     = Inr ([], map numbered_entry [1, 2, 3, 4, 5, 6, 7])"
  by code_simp

lemma phase2_seven_accounts:
  "phase2 bi (Some (mscc_ext (map numbered_account [1, 2, 3, 4, 5, 6, 7])))
     = Inr (map numbered_account_entry [1, 2, 3, 4, 5, 6, 7], [])"
  by code_simp

lemma map_voice_seven:
  "map_voice_balances bi (bucket_record [1, 2, 3, 4, 5, 6, 7])
     = map_voice_balances bi (bucket_record [1, 2, 3, 4, 5])"
proof -
  have "map_voice_writes bi (bucket_record [1, 2, 3, 4, 5, 6, 7])
      = map_voice_writes bi (bucket_record [1, 2, 3, 4, 5])"
    by code_simp
  then show ?thesis by (simp only: map_voice_balances_def map_voice_out_writes)
qed

lemma map_voice_seven_accounts:
  "map_voice_balances bi (account_record [1, 2, 3, 4, 5, 6, 7])
     = map_voice_balances bi (account_record [1, 2, 3, 4, 5])"
proof -
  have "map_voice_writes bi (account_record [1, 2, 3, 4, 5, 6, 7])
      = map_voice_writes bi (account_record [1, 2, 3, 4, 5])"
    by code_simp
  then show ?thesis by (simp only: map_voice_balances_def map_voice_out_writes)
qed

lemma map_voice_five_ids:
  "map (field (map_voice_balances bi (bucket_record [1, 2, 3, 4, 5])))
     [''EL_BUCKET_BALANCE_ID1'', ''EL_BUCKET_BALANCE_ID2'', ''EL_BUCKET_BALANCE_ID3'',
      ''EL_BUCKET_BALANCE_ID4'', ''EL_BUCKET_BALANCE_ID5'']
   = [Some (PStr ''B1-n1''), Some (PStr ''B2-n2''), Some (PStr ''B3-n3''),
      Some (PStr ''B4-n4''), Some (PStr ''B5-n5'')]"
proof -
  have "map (\<lambda>k. case map_voice_writes bi (bucket_record [1, 2, 3, 4, 5]) of
                    Inr kvs \<Rightarrow> Some (canonical_value (rev kvs) k) | Inl e \<Rightarrow> None)
     [''EL_BUCKET_BALANCE_ID1'', ''EL_BUCKET_BALANCE_ID2'', ''EL_BUCKET_BALANCE_ID3'',
      ''EL_BUCKET_BALANCE_ID4'', ''EL_BUCKET_BALANCE_ID5'']
   = [Some (PStr ''B1-n1''), Some (PStr ''B2-n2''), Some (PStr ''B3-n3''),
      Some (PStr ''B4-n4''), Some (PStr ''B5-n5'')]"
    by code_simp
  moreover have "set [''EL_BUCKET_BALANCE_ID1'', ''EL_BUCKET_BALANCE_ID2'',
      ''EL_BUCKET_BALANCE_ID3'', ''EL_BUCKET_BALANCE_ID4'', ''EL_BUCKET_BALANCE_ID5'']
      \<subseteq> set CANONICAL_FIELDS"
    by code_simp
  ultimately show ?thesis by (simp only: fields_eval)
qed

lemma map_voice_five_accounts:
  "map (field (map_voice_balances bi (account_record [1, 2, 3, 4, 5])))
     [''EL_ACCT_BALANCE_ID1'', ''EL_ACCT_BALANCE_ID2'', ''EL_ACCT_BALANCE_ID3'',
      ''EL_ACCT_BALANCE_ID4'', ''EL_ACCT_BALANCE_ID5'', ''EL_CUR_BALANCE5'',
      ''EL_CHG_BALANCE5'']
   = [Some (PStr ''A1''), Some (PStr ''A2''), Some (PStr ''A3''), Some (PStr ''A4''),
      Some (PStr ''A5''), Some (PFloat (Dec False 5 0)), Some (PFloat (Dec False 45 0))]"
proof -
  have "map (\<lambda>k. case map_voice_writes bi (account_record [1, 2, 3, 4, 5]) of
                    Inr kvs \<Rightarrow> Some (canonical_value (rev kvs) k) | Inl e \<Rightarrow> None)
     [''EL_ACCT_BALANCE_ID1'', ''EL_ACCT_BALANCE_ID2'', ''EL_ACCT_BALANCE_ID3'',
      ''EL_ACCT_BALANCE_ID4'', ''EL_ACCT_BALANCE_ID5'', ''EL_CUR_BALANCE5'',
      ''EL_CHG_BALANCE5'']
   = [Some (PStr ''A1''), Some (PStr ''A2''), Some (PStr ''A3''), Some (PStr ''A4''),
      Some (PStr ''A5''), Some (PFloat (Dec False 5 0)), Some (PFloat (Dec False 45 0))]"
    by code_simp
  moreover have "set [''EL_ACCT_BALANCE_ID1'', ''EL_ACCT_BALANCE_ID2'', ''EL_ACCT_BALANCE_ID3'',
      ''EL_ACCT_BALANCE_ID4'', ''EL_ACCT_BALANCE_ID5'', ''EL_CUR_BALANCE5'',
      ''EL_CHG_BALANCE5''] \<subseteq> set CANONICAL_FIELDS"
    by code_simp
  ultimately show ?thesis by (simp only: fields_eval)
qed

text \<open>
  C4, as the claim states it, fails on two counts. Seven \<^verbatim>\<open>bucketInfo\<close> occurrences
  inside one \<^verbatim>\<open>subscriptionInfo\<close> block are not cut at five: all seven are merged into
  bucket slot 1, joined with commas, and bucket slot 2 holds its default (lines 623 to
  652 join the values of every bucket of the block). And an occurrence beyond the fifth
  is not dropped from the record: after five account-only blocks, a sixth one that is an
  unlimited bundle names \<^verbatim>\<open>EL_UNLTD_BUNDLE_NAME\<close>, which is empty for the first five
  blocks alone (the loop of lines 766 to 777 reads every account-only block).
\<close>

theorem seven_buckets_merged_sixth_account_read:
  "map (field (map_voice_balances demo_builtins seven_in_one))
     [''EL_BUCKET_BALANCE_ID1'', ''EL_BUCKET_CUR_BALANCE1'', ''EL_BUCKET_CHG_BALANCE1'',
      ''EL_BUCKET_BALANCE_ID2'', ''EL_BUCKET_CUR_BALANCE2'']
   = [Some (PStr ''B-n1,n2,n3,n4,n5,n6,n7''), Some (PStr ''1.0,2.0,3.0,4.0,5.0,6.0,7.0''),
      Some (PStr ''9.0,18.0,27.0,36.0,45.0,54.0,63.0''), Some (PStr []),
      Some (PFloat (Dec False 0 0))]
   \<and> map (field (map_voice_balances demo_builtins sixth_unlimited))
       [''EL_UNLTD_BUNDLE_NAME'', ''EL_UNLTD_TOTAL_TIME_CHARGED'',
        ''EL_UNLTD_BUNDLE_UNIT_TYPE'', ''EL_ACCT_BALANCE_ID5'']
     = [Some (PStr ''U6''), Some (PFloat (Dec False 60 0)), Some (PStr ''TIME''),
        Some (PStr ''A5'')]
   \<and> map (field (map_voice_balances demo_builtins (account_record [1, 2, 3, 4, 5])))
       [''EL_UNLTD_BUNDLE_NAME'', ''EL_UNLTD_TOTAL_TIME_CHARGED'',
        ''EL_UNLTD_BUNDLE_UNIT_TYPE'', ''EL_ACCT_BALANCE_ID5'']
     = [Some (PStr []), Some (PFloat (Dec False 0 0)), Some (PStr []), Some (PStr ''A5'')]
   \<and> sixth_unlimited
     = cdr_of_subscriptions (map numbered_account [1, 2, 3, 4, 5] @ [unlimited_account 6])
   \<and> account_record [1, 2, 3, 4, 5]
     = cdr_of_subscriptions (map numbered_account [1, 2, 3, 4, 5])"
proof -
  have k1: "set [''EL_BUCKET_BALANCE_ID1'', ''EL_BUCKET_CUR_BALANCE1'',
      ''EL_BUCKET_CHG_BALANCE1'', ''EL_BUCKET_BALANCE_ID2'', ''EL_BUCKET_CUR_BALANCE2'']
      \<subseteq> set CANONICAL_FIELDS"
    by code_simp
  have k2: "set [''EL_UNLTD_BUNDLE_NAME'', ''EL_UNLTD_TOTAL_TIME_CHARGED'',
      ''EL_UNLTD_BUNDLE_UNIT_TYPE'', ''EL_ACCT_BALANCE_ID5''] \<subseteq> set CANONICAL_FIELDS"
    by code_simp
  have "map (\<lambda>k. case map_voice_writes demo_builtins seven_in_one of
               Inr kvs \<Rightarrow> Some (canonical_value (rev kvs) k) | Inl e \<Rightarrow> None)
     [''EL_BUCKET_BALANCE_ID1'', ''EL_BUCKET_CUR_BALANCE1'', ''EL_BUCKET_CHG_BALANCE1'',
      ''EL_BUCKET_BALANCE_ID2'', ''EL_BUCKET_CUR_BALANCE2'']
   = [Some (PStr ''B-n1,n2,n3,n4,n5,n6,n7''), Some (PStr ''1.0,2.0,3.0,4.0,5.0,6.0,7.0''),
      Some (PStr ''9.0,18.0,27.0,36.0,45.0,54.0,63.0''), Some (PStr []),
      Some (PFloat (Dec False 0 0))]"
    by code_simp
  then have 1: "map (field (map_voice_balances demo_builtins seven_in_one))
     [''EL_BUCKET_BALANCE_ID1'', ''EL_BUCKET_CUR_BALANCE1'', ''EL_BUCKET_CHG_BALANCE1'',
      ''EL_BUCKET_BALANCE_ID2'', ''EL_BUCKET_CUR_BALANCE2'']
   = [Some (PStr ''B-n1,n2,n3,n4,n5,n6,n7''), Some (PStr ''1.0,2.0,3.0,4.0,5.0,6.0,7.0''),
      Some (PStr ''9.0,18.0,27.0,36.0,45.0,54.0,63.0''), Some (PStr []),
      Some (PFloat (Dec False 0 0))]"
    by (simp only: fields_eval [OF k1])
  have "map (\<lambda>k. case map_voice_writes demo_builtins sixth_unlimited of
               Inr kvs \<Rightarrow> Some (canonical_value (rev kvs) k) | Inl e \<Rightarrow> None)
       [''EL_UNLTD_BUNDLE_NAME'', ''EL_UNLTD_TOTAL_TIME_CHARGED'',
        ''EL_UNLTD_BUNDLE_UNIT_TYPE'', ''EL_ACCT_BALANCE_ID5'']
     = [Some (PStr ''U6''), Some (PFloat (Dec False 60 0)), Some (PStr ''TIME''),
        Some (PStr ''A5'')]"
    by code_simp
  then have 2: "map (field (map_voice_balances demo_builtins sixth_unlimited))
       [''EL_UNLTD_BUNDLE_NAME'', ''EL_UNLTD_TOTAL_TIME_CHARGED'',
        ''EL_UNLTD_BUNDLE_UNIT_TYPE'', ''EL_ACCT_BALANCE_ID5'']
     = [Some (PStr ''U6''), Some (PFloat (Dec False 60 0)), Some (PStr ''TIME''),
        Some (PStr ''A5'')]"
    by (simp only: fields_eval [OF k2])
  have "map (\<lambda>k. case map_voice_writes demo_builtins (account_record [1, 2, 3, 4, 5]) of
               Inr kvs \<Rightarrow> Some (canonical_value (rev kvs) k) | Inl e \<Rightarrow> None)
       [''EL_UNLTD_BUNDLE_NAME'', ''EL_UNLTD_TOTAL_TIME_CHARGED'',
        ''EL_UNLTD_BUNDLE_UNIT_TYPE'', ''EL_ACCT_BALANCE_ID5'']
     = [Some (PStr []), Some (PFloat (Dec False 0 0)), Some (PStr []), Some (PStr ''A5'')]"
    by code_simp
  then have 3: "map (field (map_voice_balances demo_builtins (account_record [1, 2, 3, 4, 5])))
       [''EL_UNLTD_BUNDLE_NAME'', ''EL_UNLTD_TOTAL_TIME_CHARGED'',
        ''EL_UNLTD_BUNDLE_UNIT_TYPE'', ''EL_ACCT_BALANCE_ID5'']
     = [Some (PStr []), Some (PFloat (Dec False 0 0)), Some (PStr []), Some (PStr ''A5'')]"
    by (simp only: fields_eval [OF k2])
  have 4: "sixth_unlimited
     = cdr_of_subscriptions (map numbered_account [1, 2, 3, 4, 5] @ [unlimited_account 6])"
    by (simp only: sixth_unlimited_def)
  have 5: "account_record [1, 2, 3, 4, 5]
     = cdr_of_subscriptions (map numbered_account [1, 2, 3, 4, 5])"
    by (simp only: account_record_def)
  show ?thesis by (intro conjI 1 2 3 4 5)
qed

text \<open>
  C4, amended. The entities that take a slot are the \<^verbatim>\<open>subscriptionInfo\<close> blocks: the
  account-only ones fill the account slots, the bucket-bearing ones the bucket slots, and
  all the \<^verbatim>\<open>bucketInfo\<close> blocks of one \<^verbatim>\<open>subscriptionInfo\<close> block share its slot,
  their values joined with commas. The two lists are in tree order: they are the entries
  of the \<^verbatim>\<open>subscriptionInfo\<close> blocks in the order in which the tree holds them, at most one
  entry for each block. In the two slot loops the entries beyond the fifth have no effect
  and raise no error: the result is that of the first five entries. When a loop returns,
  slot \<open>idx + 1\<close> holds the values of entry \<open>idx\<close> of the list (identifier, type, current
  balance, charged balance and rate of the account; the joined values of the buckets),
  and the type defaults when the list has no such entry. In particular records with seven
  bucket-bearing blocks and with seven account-only blocks yield all seven entries in
  order, slots 1 to 5 are those of blocks 1 to 5, and the output is the output of the
  record with blocks 1 to 5 alone.
\<close>

theorem slot_cap:
  "populate_account_slots bi account_only out0
     = populate_account_slots bi (take 5 account_only) out0
   \<and> populate_bucket_slots bi bucket_subs out0
     = populate_bucket_slots bi (take 5 bucket_subs) out0
   \<and> (populate_account_slots bi account_only out0 = Inr out \<longrightarrow>
        (\<forall>idx<5.
           if idx < length account_only
           then \<exists>kvs chg. acct (account_only ! idx) = PDict kvs \<and> account_chg bi kvs = Inr chg
                  \<and> map_of out (slot_key ''EL_ACCT_BALANCE_ID'' (idx + 1))
                      = Some (py_or bi (dict_get kvs ''accountID'') (PStr []))
                  \<and> map_of out (slot_key ''EL_BALANCE_TYPE'' (idx + 1))
                      = Some (py_or bi (dict_get kvs ''accountType'') (PStr []))
                  \<and> map_of out (slot_key ''EL_CUR_BALANCE'' (idx + 1))
                      = Some (case to_decimal bi (dict_get kvs ''accountBalanceAfter'') of
                                Some cur \<Rightarrow> opt_float (fmt_decimal_to_float (Some cur))
                              | None \<Rightarrow> float_zero)
                  \<and> map_of out (slot_key ''EL_CHG_BALANCE'' (idx + 1)) = Some chg
                  \<and> map_of out (slot_key ''EL_RATE_ID'' (idx + 1))
                      = Some (py_or bi (dict_get kvs ''rateId'') (PStr []))
           else map_of out (slot_key ''EL_ACCT_BALANCE_ID'' (idx + 1)) = Some (PStr [])
                \<and> map_of out (slot_key ''EL_BALANCE_TYPE'' (idx + 1)) = Some (PStr [])
                \<and> map_of out (slot_key ''EL_CUR_BALANCE'' (idx + 1)) = Some float_zero
                \<and> map_of out (slot_key ''EL_CHG_BALANCE'' (idx + 1)) = Some float_zero
                \<and> map_of out (slot_key ''EL_RATE_ID'' (idx + 1)) = Some (PStr [])))
   \<and> (populate_bucket_slots bi bucket_subs out0 = Inr out' \<longrightarrow>
        (\<forall>idx<5.
           if idx < length bucket_subs
           then \<exists>id_val types chg_vals rates.
                  (if truthy bi (py_or bi (bs_bundleName (bucket_subs ! idx)) (PStr []))
                      \<and> filter (truthy bi) (map bucketName (buckets (bucket_subs ! idx))) \<noteq> []
                   then (case py_or bi (bs_bundleName (bucket_subs ! idx)) (PStr []) of
                           PStr s \<Rightarrow>
                             ebind (join_vals (filter (truthy bi)
                                      (map bucketName (buckets (bucket_subs ! idx)))))
                               (\<lambda>j. Inr (PStr (s @ ''-'' @ j)))
                         | _ \<Rightarrow> Inl TypeError)
                   else if truthy bi (py_or bi (bs_bundleName (bucket_subs ! idx)) (PStr []))
                   then Inr (py_or bi (bs_bundleName (bucket_subs ! idx)) (PStr []))
                   else ebind (join_vals (filter (truthy bi)
                                 (map bucketName (buckets (bucket_subs ! idx)))))
                          (\<lambda>j. Inr (PStr j))) = Inr id_val
                  \<and> join_vals (filter (truthy bi)
                       (map bucketUnitType (buckets (bucket_subs ! idx)))) = Inr types
                  \<and> map_err (bucket_chg_val bi) (buckets (bucket_subs ! idx)) = Inr chg_vals
                  \<and> join_vals (filter (truthy bi)
                       (map rateId (buckets (bucket_subs ! idx)))) = Inr rates
                  \<and> map_of out' (slot_key ''EL_BUCKET_BALANCE_ID'' (idx + 1)) = Some id_val
                  \<and> map_of out' (slot_key ''EL_BUCKET_BALANCE_TYPE'' (idx + 1))
                      = Some (PStr types)
                  \<and> map_of out' (slot_key ''EL_BUCKET_CUR_BALANCE'' (idx + 1))
                      = Some (PStr (join '','' (map (bucket_cur_val bi)
                                                  (buckets (bucket_subs ! idx)))))
                  \<and> map_of out' (slot_key ''EL_BUCKET_CHG_BALANCE'' (idx + 1))
                      = Some (PStr (join '','' chg_vals))
                  \<and> map_of out' (slot_key ''EL_BUCKET_RATE_ID'' (idx + 1)) = Some (PStr rates)
           else map_of out' (slot_key ''EL_BUCKET_BALANCE_ID'' (idx + 1)) = Some (PStr [])
                \<and> map_of out' (slot_key ''EL_BUCKET_BALANCE_TYPE'' (idx + 1)) = Some (PStr [])
                \<and> map_of out' (slot_key ''EL_BUCKET_CUR_BALANCE'' (idx + 1)) = Some float_zero
                \<and> map_of out' (slot_key ''EL_BUCKET_CHG_BALANCE'' (idx + 1)) = Some float_zero
                \<and> map_of out' (slot_key ''EL_BUCKET_RATE_ID'' (idx + 1)) = Some (PStr [])))
   \<and> (phase2 bi (Some ext) = Inr (ao, bs) \<longrightarrow>
        (\<exists>blocks cs. subscription_blocks bi ext = Inr blocks
           \<and> map_err (\<lambda>s2. subscription_entry bi s2 ([], [])) blocks = Inr cs
           \<and> ao = concat (map fst cs) \<and> bs = concat (map snd cs)
           \<and> (\<forall>c\<in>set cs. length (fst c) + length (snd c) \<le> 1)))
   \<and> phase2 bi (Some (mscc_ext (map numbered_bucket [1, 2, 3, 4, 5, 6, 7])))
     = Inr ([], map numbered_entry [1, 2, 3, 4, 5, 6, 7])
   \<and> phase2 bi (Some (mscc_ext (map numbered_account [1, 2, 3, 4, 5, 6, 7])))
     = Inr (map numbered_account_entry [1, 2, 3, 4, 5, 6, 7], [])
   \<and> map_voice_balances bi (bucket_record [1, 2, 3, 4, 5, 6, 7])
     = map_voice_balances bi (bucket_record [1, 2, 3, 4, 5])
   \<and> map_voice_balances bi (account_record [1, 2, 3, 4, 5, 6, 7])
     = map_voice_balances bi (account_record [1, 2, 3, 4, 5])
   \<and> map (field (map_voice_balances bi (bucket_record [1, 2, 3, 4, 5, 6, 7])))
       [''EL_BUCKET_BALANCE_ID1'', ''EL_BUCKET_BALANCE_ID2'', ''EL_BUCKET_BALANCE_ID3'',
        ''EL_BUCKET_BALANCE_ID4'', ''EL_BUCKET_BALANCE_ID5'']
     = [Some (PStr ''B1-n1''), Some (PStr ''B2-n2''), Some (PStr ''B3-n3''),
        Some (PStr ''B4-n4''), Some (PStr ''B5-n5'')]
   \<and> map (field (map_voice_balances bi (account_record [1, 2, 3, 4, 5, 6, 7])))
       [''EL_ACCT_BALANCE_ID1'', ''EL_ACCT_BALANCE_ID2'', ''EL_ACCT_BALANCE_ID3'',
        ''EL_ACCT_BALANCE_ID4'', ''EL_ACCT_BALANCE_ID5'', ''EL_CUR_BALANCE5'',
        ''EL_CHG_BALANCE5'']
     = [Some (PStr ''A1''), Some (PStr ''A2''), Some (PStr ''A3''), Some (PStr ''A4''),
        Some (PStr ''A5''), Some (PFloat (Dec False 5 0)), Some (PFloat (Dec False 45 0))]"
proof (intro conjI impI allI)
  show "populate_account_slots bi account_only out0
     = populate_account_slots bi (take 5 account_only) out0"
    by (rule populate_account_slots_take)
  show "populate_bucket_slots bi bucket_subs out0
     = populate_bucket_slots bi (take 5 bucket_subs) out0"
    by (rule populate_bucket_slots_take)
  show "phase2 bi (Some (mscc_ext (map numbered_bucket [1, 2, 3, 4, 5, 6, 7])))
     = Inr ([], map numbered_entry [1, 2, 3, 4, 5, 6, 7])"
    by (rule phase2_seven)
  show "phase2 bi (Some (mscc_ext (map numbered_account [1, 2, 3, 4, 5, 6, 7])))
     = Inr (map numbered_account_entry [1, 2, 3, 4, 5, 6, 7], [])"
    by (rule phase2_seven_accounts)
  show "map_voice_balances bi (bucket_record [1, 2, 3, 4, 5, 6, 7])
     = map_voice_balances bi (bucket_record [1, 2, 3, 4, 5])"
    by (rule map_voice_seven)
  show "map_voice_balances bi (account_record [1, 2, 3, 4, 5, 6, 7])
     = map_voice_balances bi (account_record [1, 2, 3, 4, 5])"
    by (rule map_voice_seven_accounts)
  show "map (field (map_voice_balances bi (bucket_record [1, 2, 3, 4, 5, 6, 7])))
       [''EL_BUCKET_BALANCE_ID1'', ''EL_BUCKET_BALANCE_ID2'', ''EL_BUCKET_BALANCE_ID3'',
        ''EL_BUCKET_BALANCE_ID4'', ''EL_BUCKET_BALANCE_ID5'']
     = [Some (PStr ''B1-n1''), Some (PStr ''B2-n2''), Some (PStr ''B3-n3''),
        Some (PStr ''B4-n4''), Some (PStr ''B5-n5'')]"
    by (simp only: map_voice_seven map_voice_five_ids)
  show "map (field (map_voice_balances bi (account_record [1, 2, 3, 4, 5, 6, 7])))
       [''EL_ACCT_BALANCE_ID1'', ''EL_ACCT_BALANCE_ID2'', ''EL_ACCT_BALANCE_ID3'',
        ''EL_ACCT_BALANCE_ID4'', ''EL_ACCT_BALANCE_ID5'', ''EL_CUR_BALANCE5'',
        ''EL_CHG_BALANCE5'']
     = [Some (PStr ''A1''), Some (PStr ''A2''), Some (PStr ''A3''), Some (PStr ''A4''),
        Some (PStr ''A5''), Some (PFloat (Dec False 5 0)), Some (PFloat (Dec False 45 0))]"
    by (simp only: map_voice_seven_accounts map_voice_five_accounts)
next
  fix idx :: nat
  assume "populate_account_slots bi account_only out0 = Inr out" and "idx < 5"
  then show "if idx < length account_only
           then \<exists>kvs chg. acct (account_only ! idx) = PDict kvs \<and> account_chg bi kvs = Inr chg
                  \<and> map_of out (slot_key ''EL_ACCT_BALANCE_ID'' (idx + 1))
                      = Some (py_or bi (dict_get kvs ''accountID'') (PStr []))
                  \<and> map_of out (slot_key ''EL_BALANCE_TYPE'' (idx + 1))
                      = Some (py_or bi (dict_get kvs ''accountType'') (PStr []))
                  \<and> map_of out (slot_key ''EL_CUR_BALANCE'' (idx + 1))
                      = Some (case to_decimal bi (dict_get kvs ''accountBalanceAfter'') of
                                Some cur \<Rightarrow> opt_float (fmt_decimal_to_float (Some cur))
                              | None \<Rightarrow> float_zero)
                  \<and> map_of out (slot_key ''EL_CHG_BALANCE'' (idx + 1)) = Some chg
                  \<and> map_of out (slot_key ''EL_RATE_ID'' (idx + 1))
                      = Some (py_or bi (dict_get kvs ''rateId'') (PStr []))
           else map_of out (slot_key ''EL_ACCT_BALANCE_ID'' (idx + 1)) = Some (PStr [])
                \<and> map_of out (slot_key ''EL_BALANCE_TYPE'' (idx + 1)) = Some (PStr [])
                \<and> map_of out (slot_key ''EL_CUR_BALANCE'' (idx + 1)) = Some float_zero
                \<and> map_of out (slot_key ''EL_CHG_BALANCE'' (idx + 1)) = Some float_zero
                \<and> map_of out (slot_key ''EL_RATE_ID'' (idx + 1)) = Some (PStr [])"
    by (rule account_slots_pinned)
next
  fix idx :: nat
  assume "populate_bucket_slots bi bucket_subs out0 = Inr out'" and "idx < 5"
  from bucket_slots_pinned [OF this]
  show "if idx < length bucket_subs
           then \<exists>id_val types chg_vals rates.
                  (if truthy bi (py_or bi (bs_bundleName (bucket_subs ! idx)) (PStr []))
                      \<and> filter (truthy bi) (map bucketName (buckets (bucket_subs ! idx))) \<noteq> []
                   then (case py_or bi (bs_bundleName (bucket_subs ! idx)) (PStr []) of
                           PStr s \<Rightarrow>
                             ebind (join_vals (filter (truthy bi)
                                      (map bucketName (buckets (bucket_subs ! idx)))))
                               (\<lambda>j. Inr (PStr (s @ ''-'' @ j)))
                         | _ \<Rightarrow> Inl TypeError)
                   else if truthy bi (py_or bi (bs_bundleName (bucket_subs ! idx)) (PStr []))
                   then Inr (py_or bi (bs_bundleName (bucket_subs ! idx)) (PStr []))
                   else ebind (join_vals (filter (truthy bi)
                                 (map bucketName (buckets (bucket_subs ! idx)))))
                          (\<lambda>j. Inr (PStr j))) = Inr id_val
                  \<and> join_vals (filter (truthy bi)
                       (map bucketUnitType (buckets (bucket_subs ! idx)))) = Inr types
                  \<and> map_err (bucket_chg_val bi) (buckets (bucket_subs ! idx)) = Inr chg_vals
                  \<and> join_vals (filter (truthy bi)
                       (map rateId (buckets (bucket_subs ! idx)))) = Inr rates
                  \<and> map_of out' (slot_key ''EL_BUCKET_BALANCE_ID'' (idx + 1)) = Some id_val
                  \<and> map_of out' (slot_key ''EL_BUCKET_BALANCE_TYPE'' (idx + 1))
                      = Some (PStr types)
                  \<and> map_of out' (slot_key ''EL_BUCKET_CUR_BALANCE'' (idx + 1))
                      = Some (PStr (join '','' (map (bucket_cur_val bi)
                                                  (buckets (bucket_subs ! idx)))))
                  \<and> map_of out' (slot_key ''EL_BUCKET_CHG_BALANCE'' (idx + 1))
                      = Some (PStr (join '','' chg_vals))
                  \<and> map_of out' (slot_key ''EL_BUCKET_RATE_ID'' (idx + 1)) = Some (PStr rates)
           else map_of out' (slot_key ''EL_BUCKET_BALANCE_ID'' (idx + 1)) = Some (PStr [])
                \<and> map_of out' (slot_key ''EL_BUCKET_BALANCE_TYPE'' (idx + 1)) = Some (PStr [])
                \<and> map_of out' (slot_key ''EL_BUCKET_CUR_BALANCE'' (idx + 1)) = Some float_zero
                \<and> map_of out' (slot_key ''EL_BUCKET_CHG_BALANCE'' (idx + 1)) = Some float_zero
                \<and> map_of out' (slot_key ''EL_BUCKET_RATE_ID'' (idx + 1)) = Some (PStr [])" .
next
  assume "phase2 bi (Some ext) = Inr (ao, bs)"
  then show "\<exists>blocks cs. subscription_blocks bi ext = Inr blocks
           \<and> map_err (\<lambda>s2. subscription_entry bi s2 ([], [])) blocks = Inr cs
           \<and> ao = concat (map fst cs) \<and> bs = concat (map snd cs)
           \<and> (\<forall>c\<in>set cs. length (fst c) + length (snd c) \<le> 1)"
    by (rule phase2_tree_order)
qed

theorem slot_cap_witness:
  "populate_account_slots demo_builtins (map numbered_account_entry [1, 2, 3, 4, 5, 6, 7]) []
     = populate_account_slots demo_builtins (map numbered_account_entry [1, 2, 3, 4, 5]) []
   \<and> populate_bucket_slots demo_builtins (map numbered_entry [1, 2, 3, 4, 5, 6, 7]) []
     = populate_bucket_slots demo_builtins (map numbered_entry [1, 2, 3, 4, 5]) []
   \<and> map (field (populate_account_slots demo_builtins
                    (map numbered_account_entry [1, 2, 3, 4, 5, 6, 7]) []))
       [''EL_ACCT_BALANCE_ID5'', ''EL_BALANCE_TYPE5'', ''EL_CUR_BALANCE5'', ''EL_CHG_BALANCE5'',
        ''EL_RATE_ID5'']
     = [Some (PStr ''A5''), Some (PStr []), Some (PFloat (Dec False 5 0)),
        Some (PFloat (Dec False 45 0)), Some (PStr [])]
   \<and> map (field (populate_bucket_slots demo_builtins
                    (map numbered_entry [1, 2, 3, 4, 5, 6, 7]) []))
       [''EL_BUCKET_BALANCE_ID5'', ''EL_BUCKET_BALANCE_TYPE5'', ''EL_BUCKET_CUR_BALANCE5'',
        ''EL_BUCKET_CHG_BALANCE5'', ''EL_BUCKET_RATE_ID5'']
     = [Some (PStr ''B5-n5''), Some (PStr []), Some (PStr ''5.0''), Some (PStr ''45.0''),
        Some (PStr [])]
   \<and> map (field (populate_account_slots demo_builtins [numbered_account_entry 1] []))
       [''EL_ACCT_BALANCE_ID2'', ''EL_BALANCE_TYPE2'', ''EL_CUR_BALANCE2'', ''EL_CHG_BALANCE2'',
        ''EL_RATE_ID2'']
     = [Some (PStr []), Some (PStr []), Some (PFloat (Dec False 0 0)),
        Some (PFloat (Dec False 0 0)), Some (PStr [])]
   \<and> map (field (populate_bucket_slots demo_builtins [numbered_entry 1] []))
       [''EL_BUCKET_BALANCE_ID2'', ''EL_BUCKET_BALANCE_TYPE2'', ''EL_BUCKET_CUR_BALANCE2'',
        ''EL_BUCKET_CHG_BALANCE2'', ''EL_BUCKET_RATE_ID2'']
     = [Some (PStr []), Some (PStr []), Some (PFloat (Dec False 0 0)),
        Some (PFloat (Dec False 0 0)), Some (PStr [])]
   \<and> (\<exists>cs. map_err (\<lambda>s2. subscription_entry demo_builtins s2 ([], []))
               [numbered_account 1, numbered_bucket 2, numbered_account 3] = Inr cs
          \<and> concat (map fst cs) = [numbered_account_entry 1, numbered_account_entry 3]
          \<and> concat (map snd cs) = [numbered_entry 2])"
proof -
  let ?ao = "map numbered_account_entry [1, 2, 3, 4, 5, 6, 7]"
  let ?bs = "map numbered_entry [1, 2, 3, 4, 5, 6, 7]"
  let ?ra = "populate_account_slots demo_builtins ?ao []"
  let ?rb = "populate_bucket_slots demo_builtins ?bs []"
  let ?ext = "mscc_ext [numbered_account 1, numbered_bucket 2, numbered_account 3]"
  have "\<not> isl ?ra" by code_simp
  then have ra: "?ra = Inr (projr ?ra)" by simp
  have "\<not> isl ?rb" by code_simp
  then have rb: "?rb = Inr (projr ?rb)" by simp
  have p: "phase2 demo_builtins (Some ?ext)
      = Inr ([numbered_account_entry 1, numbered_account_entry 3], [numbered_entry 2])"
    by code_simp
  note th = slot_cap [where bi = demo_builtins and account_only = ?ao and ?out0.0 = "[]"
      and bucket_subs = ?bs and out = "projr ?ra" and out' = "projr ?rb" and ext = ?ext
      and ao = "[numbered_account_entry 1, numbered_account_entry 3]"
      and bs = "[numbered_entry 2]"]
  note c2 = th [THEN conjunct2]
  note c3 = c2 [THEN conjunct2]
  note c4 = c3 [THEN conjunct2]
  note c5 = c4 [THEN conjunct2]
  from th [THEN conjunct1]
  have 1: "?ra = populate_account_slots demo_builtins (map numbered_account_entry [1, 2, 3, 4, 5]) []"
    by simp
  from c2 [THEN conjunct1]
  have 2: "?rb = populate_bucket_slots demo_builtins (map numbered_entry [1, 2, 3, 4, 5]) []"
    by simp
  have fa: "field ?ra key = map_of (projr ?ra) key" for key
    by (subst ra) (simp add: field_def)
  have fb: "field ?rb key = map_of (projr ?rb) key" for key
    by (subst rb) (simp add: field_def)
  have keys: "slot_key ''EL_ACCT_BALANCE_ID'' (4 + 1) = ''EL_ACCT_BALANCE_ID5''"
    "slot_key ''EL_BALANCE_TYPE'' (4 + 1) = ''EL_BALANCE_TYPE5''"
    "slot_key ''EL_CUR_BALANCE'' (4 + 1) = ''EL_CUR_BALANCE5''"
    "slot_key ''EL_CHG_BALANCE'' (4 + 1) = ''EL_CHG_BALANCE5''"
    "slot_key ''EL_RATE_ID'' (4 + 1) = ''EL_RATE_ID5''"
    "slot_key ''EL_BUCKET_BALANCE_ID'' (4 + 1) = ''EL_BUCKET_BALANCE_ID5''"
    "slot_key ''EL_BUCKET_BALANCE_TYPE'' (4 + 1) = ''EL_BUCKET_BALANCE_TYPE5''"
    "slot_key ''EL_BUCKET_CUR_BALANCE'' (4 + 1) = ''EL_BUCKET_CUR_BALANCE5''"
    "slot_key ''EL_BUCKET_CHG_BALANCE'' (4 + 1) = ''EL_BUCKET_CHG_BALANCE5''"
    "slot_key ''EL_BUCKET_RATE_ID'' (4 + 1) = ''EL_BUCKET_RATE_ID5''"
    by code_simp+
  have a4: "acct (?ao ! 4) = PDict (numbered_account_elems 5)" by code_simp
  have l4: "(4::nat) < length ?ao" by simp
  have va: "py_or demo_builtins (dict_get (numbered_account_elems 5) ''accountID'') (PStr [])
        = PStr ''A5''"
    "py_or demo_builtins (dict_get (numbered_account_elems 5) ''accountType'') (PStr [])
        = PStr []"
    "(case to_decimal demo_builtins (dict_get (numbered_account_elems 5) ''accountBalanceAfter'') of
        Some cur \<Rightarrow> opt_float (fmt_decimal_to_float (Some cur))
      | None \<Rightarrow> float_zero) = PFloat (Dec False 5 0)"
    "account_chg demo_builtins (numbered_account_elems 5) = Inr (PFloat (Dec False 45 0))"
    "py_or demo_builtins (dict_get (numbered_account_elems 5) ''rateId'') (PStr []) = PStr []"
    by code_simp+
  from c3 [THEN conjunct1, THEN mp, OF ra, rule_format, of 4]
  have "\<exists>kvs chg. acct (?ao ! 4) = PDict kvs \<and> account_chg demo_builtins kvs = Inr chg
      \<and> map_of (projr ?ra) (slot_key ''EL_ACCT_BALANCE_ID'' (4 + 1))
          = Some (py_or demo_builtins (dict_get kvs ''accountID'') (PStr []))
      \<and> map_of (projr ?ra) (slot_key ''EL_BALANCE_TYPE'' (4 + 1))
          = Some (py_or demo_builtins (dict_get kvs ''accountType'') (PStr []))
      \<and> map_of (projr ?ra) (slot_key ''EL_CUR_BALANCE'' (4 + 1))
          = Some (case to_decimal demo_builtins (dict_get kvs ''accountBalanceAfter'') of
                    Some cur \<Rightarrow> opt_float (fmt_decimal_to_float (Some cur))
                  | None \<Rightarrow> float_zero)
      \<and> map_of (projr ?ra) (slot_key ''EL_CHG_BALANCE'' (4 + 1)) = Some chg
      \<and> map_of (projr ?ra) (slot_key ''EL_RATE_ID'' (4 + 1))
          = Some (py_or demo_builtins (dict_get kvs ''rateId'') (PStr []))"
    by (simp only: l4 if_True)
  then have 3: "map (field ?ra)
       [''EL_ACCT_BALANCE_ID5'', ''EL_BALANCE_TYPE5'', ''EL_CUR_BALANCE5'', ''EL_CHG_BALANCE5'',
        ''EL_RATE_ID5'']
     = [Some (PStr ''A5''), Some (PStr []), Some (PFloat (Dec False 5 0)),
        Some (PFloat (Dec False 45 0)), Some (PStr [])]"
    unfolding a4 keys fa by (auto simp: va)
  have b4: "?bs ! 4 = numbered_entry 5" by simp
  have lb: "(4::nat) < length ?bs" by simp
  have vb: "(if truthy demo_builtins (py_or demo_builtins (bs_bundleName (numbered_entry 5)) (PStr []))
                \<and> filter (truthy demo_builtins) (map bucketName (buckets (numbered_entry 5))) \<noteq> []
             then (case py_or demo_builtins (bs_bundleName (numbered_entry 5)) (PStr []) of
                     PStr s \<Rightarrow>
                       ebind (join_vals (filter (truthy demo_builtins)
                                (map bucketName (buckets (numbered_entry 5)))))
                         (\<lambda>j. Inr (PStr (s @ ''-'' @ j)))
                   | _ \<Rightarrow> Inl TypeError)
             else if truthy demo_builtins
                       (py_or demo_builtins (bs_bundleName (numbered_entry 5)) (PStr []))
             then Inr (py_or demo_builtins (bs_bundleName (numbered_entry 5)) (PStr []))
             else ebind (join_vals (filter (truthy demo_builtins)
                           (map bucketName (buckets (numbered_entry 5)))))
                    (\<lambda>j. Inr (PStr j))) = Inr (PStr ''B5-n5'')"
    "join_vals (filter (truthy demo_builtins)
        (map bucketUnitType (buckets (numbered_entry 5)))) = Inr []"
    "map_err (bucket_chg_val demo_builtins) (buckets (numbered_entry 5)) = Inr [''45.0'']"
    "join_vals (filter (truthy demo_builtins) (map rateId (buckets (numbered_entry 5))))
       = Inr []"
    "join '','' (map (bucket_cur_val demo_builtins) (buckets (numbered_entry 5))) = ''5.0''"
    "join '','' [''45.0''] = ''45.0''"
    by code_simp+
  from c4 [THEN conjunct1, THEN mp, OF rb, rule_format, of 4]
  have "\<exists>id_val types chg_vals rates.
      (if truthy demo_builtins (py_or demo_builtins (bs_bundleName (?bs ! 4)) (PStr []))
          \<and> filter (truthy demo_builtins) (map bucketName (buckets (?bs ! 4))) \<noteq> []
       then (case py_or demo_builtins (bs_bundleName (?bs ! 4)) (PStr []) of
               PStr s \<Rightarrow>
                 ebind (join_vals (filter (truthy demo_builtins)
                          (map bucketName (buckets (?bs ! 4)))))
                   (\<lambda>j. Inr (PStr (s @ ''-'' @ j)))
             | _ \<Rightarrow> Inl TypeError)
       else if truthy demo_builtins (py_or demo_builtins (bs_bundleName (?bs ! 4)) (PStr []))
       then Inr (py_or demo_builtins (bs_bundleName (?bs ! 4)) (PStr []))
       else ebind (join_vals (filter (truthy demo_builtins)
                     (map bucketName (buckets (?bs ! 4)))))
              (\<lambda>j. Inr (PStr j))) = Inr id_val
      \<and> join_vals (filter (truthy demo_builtins)
           (map bucketUnitType (buckets (?bs ! 4)))) = Inr types
      \<and> map_err (bucket_chg_val demo_builtins) (buckets (?bs ! 4)) = Inr chg_vals
      \<and> join_vals (filter (truthy demo_builtins) (map rateId (buckets (?bs ! 4)))) = Inr rates
      \<and> map_of (projr ?rb) (slot_key ''EL_BUCKET_BALANCE_ID'' (4 + 1)) = Some id_val
      \<and> map_of (projr ?rb) (slot_key ''EL_BUCKET_BALANCE_TYPE'' (4 + 1)) = Some (PStr types)
      \<and> map_of (projr ?rb) (slot_key ''EL_BUCKET_CUR_BALANCE'' (4 + 1))
          = Some (PStr (join '','' (map (bucket_cur_val demo_builtins) (buckets (?bs ! 4)))))
      \<and> map_of (projr ?rb) (slot_key ''EL_BUCKET_CHG_BALANCE'' (4 + 1))
          = Some (PStr (join '','' chg_vals))
      \<and> map_of (projr ?rb) (slot_key ''EL_BUCKET_RATE_ID'' (4 + 1)) = Some (PStr rates)"
    by (simp only: lb if_True)
  then have 4: "map (field ?rb)
       [''EL_BUCKET_BALANCE_ID5'', ''EL_BUCKET_BALANCE_TYPE5'', ''EL_BUCKET_CUR_BALANCE5'',
        ''EL_BUCKET_CHG_BALANCE5'', ''EL_BUCKET_RATE_ID5'']
     = [Some (PStr ''B5-n5''), Some (PStr []), Some (PStr ''5.0''), Some (PStr ''45.0''),
        Some (PStr [])]"
    unfolding b4 keys fb vb by auto
  let ?ra2 = "populate_account_slots demo_builtins [numbered_account_entry 1] []"
  let ?rb2 = "populate_bucket_slots demo_builtins [numbered_entry 1] []"
  have "\<not> isl ?ra2" by code_simp
  then have ra2: "?ra2 = Inr (projr ?ra2)" by simp
  have "\<not> isl ?rb2" by code_simp
  then have rb2: "?rb2 = Inr (projr ?rb2)" by simp
  have fa2: "field ?ra2 key = map_of (projr ?ra2) key" for key
    by (subst ra2) (simp add: field_def)
  have fb2: "field ?rb2 key = map_of (projr ?rb2) key" for key
    by (subst rb2) (simp add: field_def)
  note th2 = slot_cap [where bi = demo_builtins and account_only = "[numbered_account_entry 1]"
      and ?out0.0 = "[]" and bucket_subs = "[numbered_entry 1]" and out = "projr ?ra2"
      and out' = "projr ?rb2" and ext = ?ext
      and ao = "[numbered_account_entry 1, numbered_account_entry 3]"
      and bs = "[numbered_entry 2]"]
  note d3 = th2 [THEN conjunct2, THEN conjunct2]
  note d4 = d3 [THEN conjunct2]
  have keys2: "slot_key ''EL_ACCT_BALANCE_ID'' (1 + 1) = ''EL_ACCT_BALANCE_ID2''"
    "slot_key ''EL_BALANCE_TYPE'' (1 + 1) = ''EL_BALANCE_TYPE2''"
    "slot_key ''EL_CUR_BALANCE'' (1 + 1) = ''EL_CUR_BALANCE2''"
    "slot_key ''EL_CHG_BALANCE'' (1 + 1) = ''EL_CHG_BALANCE2''"
    "slot_key ''EL_RATE_ID'' (1 + 1) = ''EL_RATE_ID2''"
    "slot_key ''EL_BUCKET_BALANCE_ID'' (1 + 1) = ''EL_BUCKET_BALANCE_ID2''"
    "slot_key ''EL_BUCKET_BALANCE_TYPE'' (1 + 1) = ''EL_BUCKET_BALANCE_TYPE2''"
    "slot_key ''EL_BUCKET_CUR_BALANCE'' (1 + 1) = ''EL_BUCKET_CUR_BALANCE2''"
    "slot_key ''EL_BUCKET_CHG_BALANCE'' (1 + 1) = ''EL_BUCKET_CHG_BALANCE2''"
    "slot_key ''EL_BUCKET_RATE_ID'' (1 + 1) = ''EL_BUCKET_RATE_ID2''"
    by code_simp+
  have fz: "float_zero = PFloat (Dec False 0 0)" by code_simp
  have n1: "\<not> (1::nat) < length [numbered_account_entry 1]"
    "\<not> (1::nat) < length [numbered_entry 1]"
    by simp_all
  from d3 [THEN conjunct1, THEN mp, OF ra2, rule_format, of 1]
  have "map_of (projr ?ra2) (slot_key ''EL_ACCT_BALANCE_ID'' (1 + 1)) = Some (PStr [])
      \<and> map_of (projr ?ra2) (slot_key ''EL_BALANCE_TYPE'' (1 + 1)) = Some (PStr [])
      \<and> map_of (projr ?ra2) (slot_key ''EL_CUR_BALANCE'' (1 + 1)) = Some float_zero
      \<and> map_of (projr ?ra2) (slot_key ''EL_CHG_BALANCE'' (1 + 1)) = Some float_zero
      \<and> map_of (projr ?ra2) (slot_key ''EL_RATE_ID'' (1 + 1)) = Some (PStr [])"
    by (simp only: n1 if_False)
  then have 5: "map (field ?ra2)
       [''EL_ACCT_BALANCE_ID2'', ''EL_BALANCE_TYPE2'', ''EL_CUR_BALANCE2'', ''EL_CHG_BALANCE2'',
        ''EL_RATE_ID2'']
     = [Some (PStr []), Some (PStr []), Some (PFloat (Dec False 0 0)),
        Some (PFloat (Dec False 0 0)), Some (PStr [])]"
    unfolding keys2 fa2 fz by simp
  from d4 [THEN conjunct1, THEN mp, OF rb2, rule_format, of 1]
  have "map_of (projr ?rb2) (slot_key ''EL_BUCKET_BALANCE_ID'' (1 + 1)) = Some (PStr [])
      \<and> map_of (projr ?rb2) (slot_key ''EL_BUCKET_BALANCE_TYPE'' (1 + 1)) = Some (PStr [])
      \<and> map_of (projr ?rb2) (slot_key ''EL_BUCKET_CUR_BALANCE'' (1 + 1)) = Some float_zero
      \<and> map_of (projr ?rb2) (slot_key ''EL_BUCKET_CHG_BALANCE'' (1 + 1)) = Some float_zero
      \<and> map_of (projr ?rb2) (slot_key ''EL_BUCKET_RATE_ID'' (1 + 1)) = Some (PStr [])"
    by (simp only: n1 if_False)
  then have 6: "map (field ?rb2)
       [''EL_BUCKET_BALANCE_ID2'', ''EL_BUCKET_BALANCE_TYPE2'', ''EL_BUCKET_CUR_BALANCE2'',
        ''EL_BUCKET_CHG_BALANCE2'', ''EL_BUCKET_RATE_ID2'']
     = [Some (PStr []), Some (PStr []), Some (PFloat (Dec False 0 0)),
        Some (PFloat (Dec False 0 0)), Some (PStr [])]"
    unfolding keys2 fb2 fz by simp
  have sb: "subscription_blocks demo_builtins ?ext
      = Inr [numbered_account 1, numbered_bucket 2, numbered_account 3]"
    by code_simp
  from c5 [THEN conjunct1, THEN mp, OF p]
  have 7: "\<exists>cs. map_err (\<lambda>s2. subscription_entry demo_builtins s2 ([], []))
               [numbered_account 1, numbered_bucket 2, numbered_account 3] = Inr cs
          \<and> concat (map fst cs) = [numbered_account_entry 1, numbered_account_entry 3]
          \<and> concat (map snd cs) = [numbered_entry 2]"
    unfolding sb by auto
  show ?thesis by (intro conjI 1 2 3 4 5 6 7)
qed

section \<open>The charged balance of a slot\<close>

lemma dec_ge_zero_fmt:
  "dec_ge_zero d = Inr ge \<Longrightarrow> fmt_decimal_to_float (Some d) = Some d"
  by (cases d) (simp_all add: dec_ge_zero_def fmt_decimal_to_float_def)

lemma dec_fix_fmt: "dec_fix a = Inr d \<Longrightarrow> (\<forall>s p. a \<noteq> DNaN s True p) \<Longrightarrow>
   fmt_decimal_to_float (Some d) = Some d"
  by (cases a) (auto simp: dec_fix_def fmt_decimal_to_float_def Let_def split: if_splits)

lemma dec_add_fmt:
  "dec_add a b = Inr d \<Longrightarrow> fmt_decimal_to_float (Some d) = Some d"
proof (cases a)
  case (Dec s1 c1 e1)
  assume r: "dec_add a b = Inr d"
  show ?thesis
  proof (cases b)
    case (Dec s2 c2 e2)
    with r \<open>a = Dec s1 c1 e1\<close> show ?thesis
      by (auto simp: dec_add_def Let_def split: if_splits dest!: dec_fix_fmt)
  next
    case (DInf s2)
    with r \<open>a = Dec s1 c1 e1\<close> show ?thesis
      by (auto simp: dec_add_def fmt_decimal_to_float_def)
  next
    case (DNaN s2 sig p)
    with r \<open>a = Dec s1 c1 e1\<close> show ?thesis
      by (cases sig) (auto simp: dec_add_def dest!: dec_fix_fmt)
  qed
next
  case (DInf s1)
  assume r: "dec_add a b = Inr d"
  with DInf show ?thesis
    by (cases b) (auto simp: dec_add_def fmt_decimal_to_float_def split: if_splits bool.splits
        dest!: dec_fix_fmt)
next
  case (DNaN s1 sig p)
  assume r: "dec_add a b = Inr d"
  with DNaN show ?thesis
    by (cases sig; cases b)
       (auto simp: dec_add_def fmt_decimal_to_float_def split: if_splits bool.splits
        dest!: dec_fix_fmt)
qed

lemma account_chg_value:
  assumes "to_decimal bi (dict_get kvs ''accountBalanceBefore'') = Some b"
    and "to_decimal bi (dict_get kvs ''accountBalanceAfter'') = Some c"
    and "dec_sub b c = Inr diff" and "dec_ge_zero diff = Inr ge"
    and "account_chg bi kvs = Inr chg"
  shows "if ge then chg = PFloat diff
         else \<exists>ssum. dec_add
                 (dec_or_zero
                    (dec_or (to_decimal bi (dict_get kvs ''accountBalanceCommitted''))
                            (to_decimal bi (dict_get kvs ''accountBalanceCommittedBR''))))
                 (dec_or_zero (to_decimal bi (dict_get kvs ''secondaryCostCommitted'')))
               = Inr ssum \<and> chg = PFloat ssum"
  using assms
  by (auto simp: account_chg_def Let_def ebind_eq_Inr float_or_zero_def dec_ge_zero_fmt
      dec_add_fmt)

lemma account_slot_chg:
  "account_slot bi n (PDict kvs) = Inr kv5 \<Longrightarrow>
   \<exists>chg. account_chg bi kvs = Inr chg \<and> (slot_key ''EL_CHG_BALANCE'' n, chg) \<in> set kv5"
  by (auto simp: account_slot_def Let_def ebind_eq_Inr)

lemma bucket_slot_chg:
  "bucket_slot bi n entry = Inr kv5 \<Longrightarrow>
   \<exists>vals. map_err (bucket_chg_val bi) (buckets entry) = Inr vals
     \<and> (slot_key ''EL_BUCKET_CHG_BALANCE'' n, PStr (join '','' vals)) \<in> set kv5"
  by (auto simp: bucket_slot_def Let_def ebind_eq_Inr)

lemma bucket_chg_val_value:
  assumes "bucketBalanceBefore b = Some bef" and "bucketBalanceAfter b = Some aft"
    and "dec_sub bef aft = Inr diff" and "dec_ge_zero diff = Inr ge"
  shows "bucket_chg_val bi b
           = Inr (if ge then py_str bi (PFloat diff) else committed_str bi b)"
  using assms
  by (simp add: bucket_chg_val_def float_or_zero_def dec_ge_zero_fmt)

lemma committed_str_value:
  "\<forall>s p. bucketCommitedUnits b \<noteq> Some (DNaN s True p) \<Longrightarrow>
   committed_str bi b = py_str bi (PFloat (dec_or_zero (bucketCommitedUnits b)))"
  by (auto simp: committed_str_def float_or_zero_def fmt_decimal_to_float_def dec_or_zero_def
      dec_zero_def split: option.splits decimal.splits bool.splits)

lemma ndigits_pos: "1 \<le> ndigits c"
  unfolding ndigits_def by (subst str_nat.simps) simp

lemma ndigits_zero: "ndigits 0 = 1"
  unfolding ndigits_def by (subst str_nat.simps) simp

lemma dec_fix_id:
  assumes "ndigits c \<le> prec" and "Etiny \<le> e" and "int (ndigits c) + e - 1 \<le> Emax"
  shows "dec_fix (Dec s c e) = Inr (Dec s c e)"
proof (cases "c = 0")
  case True
  with assms show ?thesis by (simp add: dec_fix_def ndigits_zero)
next
  case False
  from assms have "int (ndigits c) + e - int prec \<le> Etop" by (simp add: Etop_def)
  moreover from assms have "\<not> e < int (ndigits c) + e - int prec" by simp
  moreover from assms have "\<not> e < Etiny" by simp
  ultimately show ?thesis using False by (simp add: dec_fix_def Let_def)
qed

lemma dec_sub_exact:
  assumes v: "v = signed s1 c1 * 10 ^ nat (e1 - min e1 e2)
                - signed s2 c2 * 10 ^ nat (e2 - min e1 e2)"
    and nd: "ndigits \<bar>v\<bar> \<le> prec"
    and lo: "Etiny \<le> min e1 e2"
    and hi: "int (ndigits \<bar>v\<bar>) + min e1 e2 - 1 \<le> Emax"
  shows "dec_sub (Dec s1 c1 e1) (Dec s2 c2 e2)
           = Inr (Dec (if v = 0 then s1 \<and> \<not> s2 else v < 0) \<bar>v\<bar> (min e1 e2))"
proof -
  have sg: "signed (\<not> s2) c2 = - signed s2 c2" by (simp add: signed_def)
  have ve: "signed s1 c1 * 10 ^ nat (e1 - min e1 e2)
              + signed (\<not> s2) c2 * 10 ^ nat (e2 - min e1 e2) = v"
    by (simp add: v sg)
  have "dec_sub (Dec s1 c1 e1) (Dec s2 c2 e2) = dec_add (Dec s1 c1 e1) (Dec (\<not> s2) c2 e2)"
    by (simp add: dec_sub_def copy_negate_def)
  also have "\<dots> = (if v = 0 then dec_fix (Dec (s1 \<and> \<not> s2) 0 (min e1 e2))
                       else dec_fix (Dec (v < 0) \<bar>v\<bar> (min e1 e2)))"
    by (simp only: dec_add_def Let_def prod.case decimal.case ve)
  also have "\<dots> = dec_fix (Dec (if v = 0 then s1 \<and> \<not> s2 else v < 0) \<bar>v\<bar> (min e1 e2))"
    by simp
  also have "\<dots> = Inr (Dec (if v = 0 then s1 \<and> \<not> s2 else v < 0) \<bar>v\<bar> (min e1 e2))"
    using nd lo hi by (rule dec_fix_id)
  finally show ?thesis .
qed

text \<open>
  C5. In a populated account slot whose account holds a before-balance and an
  after-balance, \<^verbatim>\<open>EL_CHG_BALANCE\<close> is the float of the decimal difference before minus
  after when that difference is not negative, and otherwise the float of the decimal sum
  of the committed value (\<^verbatim>\<open>accountBalanceCommitted\<close>, else \<^verbatim>\<open>accountBalanceCommittedBR\<close>,
  else zero) and the secondary cost committed (else zero). In a populated bucket slot,
  \<^verbatim>\<open>EL_BUCKET_CHG_BALANCE\<close> is the comma-separated list of one value per bucket: for a
  bucket with both balances, the printed float of before minus after when that is not
  negative, and otherwise of the committed units (zero when there are none). The
  subtraction is the one of \<^verbatim>\<open>decimal.Decimal\<close>: it is exact whenever the difference has
  at most 28 digits and its exponent is in the range of the context.
\<close>

theorem charged_balance:
  "(populate_account_slots bi account_only out0 = Inr out \<and> idx < 5
      \<and> idx < length account_only \<and> acct (account_only ! idx) = PDict kvs
      \<and> to_decimal bi (dict_get kvs ''accountBalanceBefore'') = Some b
      \<and> to_decimal bi (dict_get kvs ''accountBalanceAfter'') = Some c
      \<and> dec_sub b c = Inr diff \<and> dec_ge_zero diff = Inr ge \<longrightarrow>
    (if ge then map_of out (slot_key ''EL_CHG_BALANCE'' (idx + 1)) = Some (PFloat diff)
     else \<exists>ssum. dec_add
                 (dec_or_zero
                    (dec_or (to_decimal bi (dict_get kvs ''accountBalanceCommitted''))
                            (to_decimal bi (dict_get kvs ''accountBalanceCommittedBR''))))
                 (dec_or_zero (to_decimal bi (dict_get kvs ''secondaryCostCommitted'')))
               = Inr ssum
             \<and> map_of out (slot_key ''EL_CHG_BALANCE'' (idx + 1)) = Some (PFloat ssum)))
   \<and> (populate_bucket_slots bi bucket_subs out0 = Inr out' \<and> idx < 5
        \<and> idx < length bucket_subs \<longrightarrow>
      (\<exists>vals. map_of out' (slot_key ''EL_BUCKET_CHG_BALANCE'' (idx + 1))
                 = Some (PStr (join '','' vals))
         \<and> length vals = length (buckets (bucket_subs ! idx))
         \<and> (\<forall>j<length vals. \<forall>bef aft d g.
               bucketBalanceBefore (buckets (bucket_subs ! idx) ! j) = Some bef
               \<and> bucketBalanceAfter (buckets (bucket_subs ! idx) ! j) = Some aft
               \<and> dec_sub bef aft = Inr d \<and> dec_ge_zero d = Inr g \<longrightarrow>
               vals ! j = (if g then py_str bi (PFloat d)
                           else committed_str bi (buckets (bucket_subs ! idx) ! j)))))
   \<and> ((\<forall>s p. bucketCommitedUnits bk \<noteq> Some (DNaN s True p)) \<longrightarrow>
        committed_str bi bk = py_str bi (PFloat (dec_or_zero (bucketCommitedUnits bk))))
   \<and> (v = signed s1 c1 * 10 ^ nat (e1 - min e1 e2) - signed s2 c2 * 10 ^ nat (e2 - min e1 e2)
        \<and> ndigits \<bar>v\<bar> \<le> prec \<and> Etiny \<le> min e1 e2
        \<and> int (ndigits \<bar>v\<bar>) + min e1 e2 - 1 \<le> Emax \<longrightarrow>
        dec_sub (Dec s1 c1 e1) (Dec s2 c2 e2)
          = Inr (Dec (if v = 0 then s1 \<and> \<not> s2 else v < 0) \<bar>v\<bar> (min e1 e2)))"
proof (intro conjI impI)
  assume h: "populate_account_slots bi account_only out0 = Inr out \<and> idx < 5
      \<and> idx < length account_only \<and> acct (account_only ! idx) = PDict kvs
      \<and> to_decimal bi (dict_get kvs ''accountBalanceBefore'') = Some b
      \<and> to_decimal bi (dict_get kvs ''accountBalanceAfter'') = Some c
      \<and> dec_sub b c = Inr diff \<and> dec_ge_zero diff = Inr ge"
  then have run: "populate_account_slots bi account_only out0 = Inr out" and i: "idx < 5"
    and l: "idx < length account_only" and a: "acct (account_only ! idx) = PDict kvs"
    by simp_all
  from account_slots_content [OF run i] l a
  obtain kv5 where s: "account_slot bi (idx + 1) (PDict kvs) = Inr kv5"
    and m: "\<forall>kv\<in>set kv5. map_of out (fst kv) = Some (snd kv)"
    by auto
  from account_slot_chg [OF s] obtain chg where c: "account_chg bi kvs = Inr chg"
    and k: "(slot_key ''EL_CHG_BALANCE'' (idx + 1), chg) \<in> set kv5"
    by blast
  from m k have f: "map_of out (slot_key ''EL_CHG_BALANCE'' (idx + 1)) = Some chg" by force
  from h have h1: "to_decimal bi (dict_get kvs ''accountBalanceBefore'') = Some b"
    and h2: "to_decimal bi (dict_get kvs ''accountBalanceAfter'') = Some c"
    and h3: "dec_sub b c = Inr diff" and h4: "dec_ge_zero diff = Inr ge"
    by blast+
  from account_chg_value [OF h1 h2 h3 h4 c] have "if ge then chg = PFloat diff
         else \<exists>ssum. dec_add
                 (dec_or_zero
                    (dec_or (to_decimal bi (dict_get kvs ''accountBalanceCommitted''))
                            (to_decimal bi (dict_get kvs ''accountBalanceCommittedBR''))))
                 (dec_or_zero (to_decimal bi (dict_get kvs ''secondaryCostCommitted'')))
               = Inr ssum \<and> chg = PFloat ssum" .
  with f show "if ge then map_of out (slot_key ''EL_CHG_BALANCE'' (idx + 1)) = Some (PFloat diff)
     else \<exists>ssum. dec_add
                 (dec_or_zero
                    (dec_or (to_decimal bi (dict_get kvs ''accountBalanceCommitted''))
                            (to_decimal bi (dict_get kvs ''accountBalanceCommittedBR''))))
                 (dec_or_zero (to_decimal bi (dict_get kvs ''secondaryCostCommitted'')))
               = Inr ssum
             \<and> map_of out (slot_key ''EL_CHG_BALANCE'' (idx + 1)) = Some (PFloat ssum)"
    by (cases ge) auto
next
  assume h: "populate_bucket_slots bi bucket_subs out0 = Inr out' \<and> idx < 5
        \<and> idx < length bucket_subs"
  then have run: "populate_bucket_slots bi bucket_subs out0 = Inr out'" and i: "idx < 5"
    and l: "idx < length bucket_subs"
    by simp_all
  let ?bks = "buckets (bucket_subs ! idx)"
  from bucket_slots_content [OF run i] l
  obtain kv5 where s: "bucket_slot bi (idx + 1) (bucket_subs ! idx) = Inr kv5"
    and m: "\<forall>kv\<in>set kv5. map_of out' (fst kv) = Some (snd kv)"
    by auto
  from bucket_slot_chg [OF s] obtain vals
    where e: "map_err (bucket_chg_val bi) ?bks = Inr vals"
      and k: "(slot_key ''EL_BUCKET_CHG_BALANCE'' (idx + 1), PStr (join '','' vals)) \<in> set kv5"
    by blast
  from m k have f: "map_of out' (slot_key ''EL_BUCKET_CHG_BALANCE'' (idx + 1))
      = Some (PStr (join '','' vals))"
    by force
  from map_err_Inr [OF e] have len: "length vals = length ?bks"
    and each: "\<And>j. j < length ?bks \<Longrightarrow> bucket_chg_val bi (?bks ! j) = Inr (vals ! j)"
    by auto
  have "\<forall>j<length vals. \<forall>bef aft d g.
               bucketBalanceBefore (?bks ! j) = Some bef
               \<and> bucketBalanceAfter (?bks ! j) = Some aft
               \<and> dec_sub bef aft = Inr d \<and> dec_ge_zero d = Inr g \<longrightarrow>
               vals ! j = (if g then py_str bi (PFloat d) else committed_str bi (?bks ! j))"
  proof (intro allI impI)
    fix j bef aft d g
    assume j: "j < length vals"
      and b: "bucketBalanceBefore (?bks ! j) = Some bef
               \<and> bucketBalanceAfter (?bks ! j) = Some aft
               \<and> dec_sub bef aft = Inr d \<and> dec_ge_zero d = Inr g"
    from b have b1: "bucketBalanceBefore (?bks ! j) = Some bef"
      and b2: "bucketBalanceAfter (?bks ! j) = Some aft"
      and b3: "dec_sub bef aft = Inr d" and b4: "dec_ge_zero d = Inr g"
      by blast+
    from bucket_chg_val_value [OF b1 b2 b3 b4]
    have "bucket_chg_val bi (?bks ! j)
        = Inr (if g then py_str bi (PFloat d) else committed_str bi (?bks ! j))" .
    with each [of j] j len
    show "vals ! j = (if g then py_str bi (PFloat d) else committed_str bi (?bks ! j))"
      by simp
  qed
  with f len show "\<exists>vals. map_of out' (slot_key ''EL_BUCKET_CHG_BALANCE'' (idx + 1))
                 = Some (PStr (join '','' vals))
         \<and> length vals = length ?bks
         \<and> (\<forall>j<length vals. \<forall>bef aft d g.
               bucketBalanceBefore (?bks ! j) = Some bef
               \<and> bucketBalanceAfter (?bks ! j) = Some aft
               \<and> dec_sub bef aft = Inr d \<and> dec_ge_zero d = Inr g \<longrightarrow>
               vals ! j = (if g then py_str bi (PFloat d)
                           else committed_str bi (?bks ! j)))"
    by blast
next
  assume "\<forall>s p. bucketCommitedUnits bk \<noteq> Some (DNaN s True p)"
  then show "committed_str bi bk = py_str bi (PFloat (dec_or_zero (bucketCommitedUnits bk)))"
    by (rule committed_str_value)
next
  assume "v = signed s1 c1 * 10 ^ nat (e1 - min e1 e2) - signed s2 c2 * 10 ^ nat (e2 - min e1 e2)
        \<and> ndigits \<bar>v\<bar> \<le> prec \<and> Etiny \<le> min e1 e2
        \<and> int (ndigits \<bar>v\<bar>) + min e1 e2 - 1 \<le> Emax"
  then have x1: "v = signed s1 c1 * 10 ^ nat (e1 - min e1 e2)
                 - signed s2 c2 * 10 ^ nat (e2 - min e1 e2)"
    and x2: "ndigits \<bar>v\<bar> \<le> prec" and x3: "Etiny \<le> min e1 e2"
    and x4: "int (ndigits \<bar>v\<bar>) + min e1 e2 - 1 \<le> Emax"
    by blast+
  from dec_sub_exact [OF x1 x2 x3 x4]
  show "dec_sub (Dec s1 c1 e1) (Dec s2 c2 e2)
          = Inr (Dec (if v = 0 then s1 \<and> \<not> s2 else v < 0) \<bar>v\<bar> (min e1 e2))" .
qed

theorem charged_balance_witness:
  "field (populate_account_slots demo_builtins
            [\<lparr>ao_bundleName = PStr [],
              acct = PDict [(''accountBalanceBefore'', PStr ''50''),
                            (''accountBalanceAfter'', PStr ''80''),
                            (''accountBalanceCommitted'', PStr ''30''),
                            (''secondaryCostCommitted'', PStr ''5'')]\<rparr>] [])
     ''EL_CHG_BALANCE1'' = Some (PFloat (Dec False 35 0))
   \<and> field (populate_bucket_slots demo_builtins [numbered_entry 3] [])
       ''EL_BUCKET_CHG_BALANCE1'' = Some (PStr ''27.0'')
   \<and> committed_str demo_builtins (hd (buckets (numbered_entry 3))) = ''0.0''
   \<and> dec_sub (Dec False 10012345 (- 5)) (Dec False 4000000 (- 5))
     = Inr (Dec False 6012345 (- 5))"
proof -
  let ?kvs = "[(''accountBalanceBefore'', PStr ''50''), (''accountBalanceAfter'', PStr ''80''),
               (''accountBalanceCommitted'', PStr ''30''),
               (''secondaryCostCommitted'', PStr ''5'')]"
  let ?ao = "[\<lparr>ao_bundleName = PStr [], acct = PDict ?kvs\<rparr>]"
  let ?bs = "[numbered_entry 3]"
  let ?bk = "hd (buckets (numbered_entry 3))"
  let ?ra = "populate_account_slots demo_builtins ?ao []"
  let ?rb = "populate_bucket_slots demo_builtins ?bs []"
  have "\<not> isl ?ra" by code_simp
  then have ra: "?ra = Inr (projr ?ra)" by simp
  have "\<not> isl ?rb" by code_simp
  then have rb: "?rb = Inr (projr ?rb)" by simp
  note th = charged_balance [where bi = demo_builtins and account_only = ?ao
      and ?out0.0 = "[]" and out = "projr ?ra" and idx = 0 and kvs = ?kvs
      and b = "Dec False 50 0" and c = "Dec False 80 0" and diff = "Dec True 30 0"
      and ge = False and bucket_subs = ?bs and out' = "projr ?rb" and bk = ?bk
      and v = 6012345 and ?s1.0 = False and ?c1.0 = 10012345 and ?e1.0 = "- 5"
      and ?s2.0 = False and ?c2.0 = 4000000 and ?e2.0 = "- 5"]
  note t2 = th [THEN conjunct2]
  note t3 = t2 [THEN conjunct2]
  note t4 = t3 [THEN conjunct2]
  have k1: "slot_key ''EL_CHG_BALANCE'' (0 + 1) = ''EL_CHG_BALANCE1''" by code_simp
  have k2: "slot_key ''EL_BUCKET_CHG_BALANCE'' (0 + 1) = ''EL_BUCKET_CHG_BALANCE1''"
    by code_simp
  have a1: "to_decimal demo_builtins (dict_get ?kvs ''accountBalanceBefore'')
      = Some (Dec False 50 0)" by code_simp
  have a2: "to_decimal demo_builtins (dict_get ?kvs ''accountBalanceAfter'')
      = Some (Dec False 80 0)" by code_simp
  have a3: "dec_sub (Dec False 50 0) (Dec False 80 0) = Inr (Dec True 30 0)" by code_simp
  have a4: "dec_ge_zero (Dec True 30 0) = Inr False" by code_simp
  have a5: "dec_add
       (dec_or_zero
          (dec_or (to_decimal demo_builtins (dict_get ?kvs ''accountBalanceCommitted''))
                  (to_decimal demo_builtins (dict_get ?kvs ''accountBalanceCommittedBR''))))
       (dec_or_zero (to_decimal demo_builtins (dict_get ?kvs ''secondaryCostCommitted'')))
      = Inr (Dec False 35 0)" by code_simp
  have "?ra = Inr (projr ?ra) \<and> (0::nat) < 5 \<and> 0 < length ?ao
      \<and> acct (?ao ! 0) = PDict ?kvs
      \<and> to_decimal demo_builtins (dict_get ?kvs ''accountBalanceBefore'')
          = Some (Dec False 50 0)
      \<and> to_decimal demo_builtins (dict_get ?kvs ''accountBalanceAfter'')
          = Some (Dec False 80 0)
      \<and> dec_sub (Dec False 50 0) (Dec False 80 0) = Inr (Dec True 30 0)
      \<and> dec_ge_zero (Dec True 30 0) = Inr False"
    using ra a1 a2 a3 a4 by simp
  from th [THEN conjunct1, THEN mp, OF this]
  have "map_of (projr ?ra) ''EL_CHG_BALANCE1'' = Some (PFloat (Dec False 35 0))"
    unfolding k1 a5 by simp
  then have 1: "field ?ra ''EL_CHG_BALANCE1'' = Some (PFloat (Dec False 35 0))"
    by (subst ra) (simp add: field_def)
  have "?rb = Inr (projr ?rb) \<and> (0::nat) < 5 \<and> 0 < length ?bs"
    using rb by simp
  from t2 [THEN conjunct1, THEN mp, OF this] obtain vals
    where m: "map_of (projr ?rb) ''EL_BUCKET_CHG_BALANCE1'' = Some (PStr (join '','' vals))"
      and len: "length vals = length (buckets (?bs ! 0))"
      and each: "\<forall>j<length vals. \<forall>bef aft d g.
               bucketBalanceBefore (buckets (?bs ! 0) ! j) = Some bef
               \<and> bucketBalanceAfter (buckets (?bs ! 0) ! j) = Some aft
               \<and> dec_sub bef aft = Inr d \<and> dec_ge_zero d = Inr g \<longrightarrow>
               vals ! j = (if g then py_str demo_builtins (PFloat d)
                           else committed_str demo_builtins (buckets (?bs ! 0) ! j))"
    unfolding k2 by blast
  have l1: "length (buckets (?bs ! 0)) = 1" by code_simp
  with len obtain x where vx: "vals = [x]" by (cases vals) auto
  have b1: "bucketBalanceBefore (buckets (?bs ! 0) ! 0) = Some (Dec False 30 0)
      \<and> bucketBalanceAfter (buckets (?bs ! 0) ! 0) = Some (Dec False 3 0)
      \<and> dec_sub (Dec False 30 0) (Dec False 3 0) = Inr (Dec False 27 0)
      \<and> dec_ge_zero (Dec False 27 0) = Inr True"
    by code_simp
  have p: "py_str demo_builtins (PFloat (Dec False 27 0)) = ''27.0''" by code_simp
  from each [rule_format, of 0, OF _ b1] vx have "x = ''27.0''" by (simp add: p)
  with m vx have "map_of (projr ?rb) ''EL_BUCKET_CHG_BALANCE1'' = Some (PStr ''27.0'')"
    by simp
  then have 2: "field ?rb ''EL_BUCKET_CHG_BALANCE1'' = Some (PStr ''27.0'')"
    by (subst rb) (simp add: field_def)
  have "\<forall>s p. bucketCommitedUnits ?bk \<noteq> Some (DNaN s True p)"
    by (simp add: numbered_entry_def)
  from t3 [THEN conjunct1, THEN mp, OF this]
  have "committed_str demo_builtins ?bk
      = py_str demo_builtins (PFloat (dec_or_zero (bucketCommitedUnits ?bk)))" .
  also have "\<dots> = ''0.0''" by code_simp
  finally have 3: "committed_str demo_builtins ?bk = ''0.0''" .
  have "(6012345::int) = signed False 10012345 * 10 ^ nat (- 5 - min (- 5) (- 5))
          - signed False 4000000 * 10 ^ nat (- 5 - min (- 5) (- 5))
      \<and> ndigits \<bar>6012345\<bar> \<le> prec \<and> Etiny \<le> min (- 5) (- 5)
      \<and> int (ndigits \<bar>6012345\<bar>) + min (- 5) (- 5) - 1 \<le> Emax"
    by code_simp
  from t4 [THEN mp, OF this]
  have 4: "dec_sub (Dec False 10012345 (- 5)) (Dec False 4000000 (- 5))
      = Inr (Dec False 6012345 (- 5))"
    by simp
  from 1 2 3 4 show ?thesis by (simp only: simp_thms)
qed

section \<open>Properties of the billing mapper\<close>

lemma fmt_decimal_60: "fmt_decimal (Some (Dec False 6012345 (- 5))) = ''60.12345''"
  by code_simp

lemma to_decimal_before:
  "to_decimal bi (PStr ''100.12345'') = Some (Dec False 10012345 (- 5))"
  by code_simp

lemma to_decimal_after:
  "to_decimal bi (PStr ''40.00000'') = Some (Dec False 4000000 (- 5))"
  by code_simp

lemma dec_sub_60:
  "dec_sub (Dec False 10012345 (- 5)) (Dec False 4000000 (- 5))
     = Inr (Dec False 6012345 (- 5))"
  by code_simp


lemma collect_account_subscription:
  "collect_subscription_blocks bi (mscc_ext [account_subscription kvs])
     = Inr [account_subscription kvs]"
  by (simp add: collect_subscription_blocks_def mscc_ext_def node_def for_items_def
      sub_items_def py_get_default_def py_get_def dict_get_def py_or_def truthy_def
      py_iter_def account_subscription_def)

lemma billing_amounts_account_subscription:
  "billing_amounts bi [account_subscription kvs]
     = account_amounts bi (py_or bi (PDict kvs) (PDict []))"
  by (cases "account_amounts bi (py_or bi (PDict kvs) (PDict []))")
     (simp_all add: billing_amounts_def node_def sub_items_def py_get_default_def py_get_def
      dict_get_def py_or_def truthy_def py_iter_def account_subscription_def)

lemma account_amounts_difference:
  assumes "dict_get kvs ''accountBalanceBefore'' = PStr ''100.12345''"
    and "dict_get kvs ''accountBalanceAfter'' = PStr ''40.00000''"
    and "to_decimal bi (py_or bi (dict_get kvs ''accountBalanceCommittedBR'')
                                 (dict_get kvs ''accountBalanceCommitted'')) = None"
  shows "account_amounts bi (py_or bi (PDict kvs) (PDict []))
           = Inr (to_decimal bi (dict_get kvs ''committedTaxAmount''),
                  Some (Dec False 6012345 (- 5)))"
proof -
  from assms(1) have "kvs \<noteq> []" by (auto simp: dict_get_def)
  then have "py_or bi (PDict kvs) (PDict []) = PDict kvs"
    by (simp add: py_or_def truthy_def)
  with assms show ?thesis
    by (simp add: account_amounts_def py_get_def to_decimal_before to_decimal_after dec_sub_60)
qed

text \<open>
  C9. For a record whose one subscription holds one \<^verbatim>\<open>accountInfo\<close> block with
  before-balance \<^verbatim>\<open>"100.12345"\<close>, after-balance \<^verbatim>\<open>"40.00000"\<close> and no committed value, the
  gross amount is the decimal \<^verbatim>\<open>60.12345\<close>, the exact difference, and whenever
  \<^verbatim>\<open>map_billing\<close> returns, \<^verbatim>\<open>EL_GROSS_CALL_COST\<close> is the string \<^verbatim>\<open>"60.12345"\<close>; it does
  return when the block has no tax amount. No step of the computation is a float
  operation: the strings are read as decimals, subtracted as decimals and printed by
  \<^verbatim>\<open>fmt_decimal\<close>.
\<close>

theorem billing_gross_call_cost:
  "(dict_get kvs ''accountBalanceBefore'' = PStr ''100.12345''
      \<and> dict_get kvs ''accountBalanceAfter'' = PStr ''40.00000''
      \<and> to_decimal bi (py_or bi (dict_get kvs ''accountBalanceCommittedBR'')
                                  (dict_get kvs ''accountBalanceCommitted'')) = None \<longrightarrow>
      ebind (collect_subscription_blocks bi (mscc_ext [account_subscription kvs]))
            (billing_amounts bi)
        = Inr (to_decimal bi (dict_get kvs ''committedTaxAmount''),
               Some (Dec False 6012345 (- 5)))
      \<and> (\<forall>out. map_billing_costs bi (mscc_ext [account_subscription kvs]) = Inr out \<longrightarrow>
                 map_of out ''EL_GROSS_CALL_COST'' = Some (PStr ''60.12345''))
      \<and> (to_decimal bi (dict_get kvs ''committedTaxAmount'') = None \<longrightarrow>
            map_billing_costs bi (mscc_ext [account_subscription kvs])
              = Inr [(''EL_TAX_AMOUNT'', PStr []),
                     (''EL_GROSS_CALL_COST'', PStr ''60.12345''),
                     (''EL_CALL_COST'', PStr ''60.12345'')]))
   \<and> dec_sub (Dec False 10012345 (- 5)) (Dec False 4000000 (- 5))
     = Inr (Dec False 6012345 (- 5))
   \<and> fmt_decimal (Some (Dec False 6012345 (- 5))) = ''60.12345''"
proof (intro conjI impI allI)
  assume h: "dict_get kvs ''accountBalanceBefore'' = PStr ''100.12345''
      \<and> dict_get kvs ''accountBalanceAfter'' = PStr ''40.00000''
      \<and> to_decimal bi (py_or bi (dict_get kvs ''accountBalanceCommittedBR'')
                                  (dict_get kvs ''accountBalanceCommitted'')) = None"
  then have h1: "dict_get kvs ''accountBalanceBefore'' = PStr ''100.12345''"
    and h2: "dict_get kvs ''accountBalanceAfter'' = PStr ''40.00000''"
    and h3: "to_decimal bi (py_or bi (dict_get kvs ''accountBalanceCommittedBR'')
                                  (dict_get kvs ''accountBalanceCommitted'')) = None"
    by blast+
  have am: "billing_amounts bi [account_subscription kvs]
      = Inr (to_decimal bi (dict_get kvs ''committedTaxAmount''),
             Some (Dec False 6012345 (- 5)))"
    by (simp only: billing_amounts_account_subscription
        account_amounts_difference [OF h1 h2 h3])
  then show "ebind (collect_subscription_blocks bi (mscc_ext [account_subscription kvs]))
            (billing_amounts bi)
        = Inr (to_decimal bi (dict_get kvs ''committedTaxAmount''),
               Some (Dec False 6012345 (- 5)))"
    by (simp add: collect_account_subscription)
  {
    fix out
    assume "map_billing_costs bi (mscc_ext [account_subscription kvs]) = Inr out"
    then show "map_of out ''EL_GROSS_CALL_COST'' = Some (PStr ''60.12345'')"
      by (auto simp: map_billing_costs_def collect_account_subscription billing_costs_def am
          ebind_eq_Inr fmt_decimal_60)
  }
  {
    assume "to_decimal bi (dict_get kvs ''committedTaxAmount'') = None"
    moreover have "dec_sub (Dec False 6012345 (- 5)) (dec_or_zero None)
        = Inr (Dec False 6012345 (- 5))"
      by code_simp
    moreover have "fmt_decimal None = []" by code_simp
    ultimately show "map_billing_costs bi (mscc_ext [account_subscription kvs])
              = Inr [(''EL_TAX_AMOUNT'', PStr []),
                     (''EL_GROSS_CALL_COST'', PStr ''60.12345''),
                     (''EL_CALL_COST'', PStr ''60.12345'')]"
      by (simp add: map_billing_costs_def collect_account_subscription billing_costs_def am
          fmt_decimal_60)
  }
next
  show "dec_sub (Dec False 10012345 (- 5)) (Dec False 4000000 (- 5))
     = Inr (Dec False 6012345 (- 5))"
    by (rule dec_sub_60)
next
  show "fmt_decimal (Some (Dec False 6012345 (- 5))) = ''60.12345''"
    by (rule fmt_decimal_60)
qed

theorem billing_gross_call_cost_witness:
  "map_billing_costs demo_builtins
     (mscc_ext [account_subscription [(''accountBalanceBefore'', PStr ''100.12345''),
                                      (''accountBalanceAfter'', PStr ''40.00000'')]])
     = Inr [(''EL_TAX_AMOUNT'', PStr []), (''EL_GROSS_CALL_COST'', PStr ''60.12345''),
            (''EL_CALL_COST'', PStr ''60.12345'')]
   \<and> field (map_billing_costs demo_builtins
        (mscc_ext [account_subscription [(''accountBalanceBefore'', PStr ''100.12345''),
                                         (''accountBalanceAfter'', PStr ''40.00000'')]]))
       ''EL_GROSS_CALL_COST'' = Some (PStr ''60.12345'')"
proof -
  let ?kvs = "[(''accountBalanceBefore'', PStr ''100.12345''),
               (''accountBalanceAfter'', PStr ''40.00000'')]"
  have h: "dict_get ?kvs ''accountBalanceBefore'' = PStr ''100.12345''
      \<and> dict_get ?kvs ''accountBalanceAfter'' = PStr ''40.00000''
      \<and> to_decimal demo_builtins
            (py_or demo_builtins (dict_get ?kvs ''accountBalanceCommittedBR'')
                                 (dict_get ?kvs ''accountBalanceCommitted'')) = None"
    by code_simp
  have t: "to_decimal demo_builtins (dict_get ?kvs ''committedTaxAmount'') = None"
    by code_simp
  note th = billing_gross_call_cost [where kvs = ?kvs and bi = demo_builtins,
      THEN conjunct1, THEN mp, OF h]
  from th [THEN conjunct2, THEN conjunct2, THEN mp, OF t]
  have 1: "map_billing_costs demo_builtins (mscc_ext [account_subscription ?kvs])
      = Inr [(''EL_TAX_AMOUNT'', PStr []), (''EL_GROSS_CALL_COST'', PStr ''60.12345''),
             (''EL_CALL_COST'', PStr ''60.12345'')]" .
  from th [THEN conjunct2, THEN conjunct1, rule_format, OF 1]
  have "map_of [(''EL_TAX_AMOUNT'', PStr []), (''EL_GROSS_CALL_COST'', PStr ''60.12345''),
             (''EL_CALL_COST'', PStr ''60.12345'')] ''EL_GROSS_CALL_COST''
      = Some (PStr ''60.12345'')" .
  then have "field (map_billing_costs demo_builtins (mscc_ext [account_subscription ?kvs]))
       ''EL_GROSS_CALL_COST'' = Some (PStr ''60.12345'')"
    unfolding 1 field_def by simp
  with 1 show ?thesis by (simp only: simp_thms)
qed

section \<open>Properties of the routing\<close>

lemma evaluate_condition_absent:
  "map_of record_fields key = None \<Longrightarrow>
   evaluate_condition bi record_fields key condition = Inr False"
  by (simp add: evaluate_condition_def)

lemma conditions_match_absent:
  "(k, c) \<in> set conditions \<Longrightarrow> map_of el_fields k = None \<Longrightarrow>
   conditions_match bi el_fields conditions \<noteq> Inr True"
proof (induction conditions)
  case Nil
  then show ?case by simp
next
  case (Cons kc rest)
  obtain k' c' where kc: "kc = (k', c')" by (cases kc)
  show ?case
  proof (cases "kc = (k, c)")
    case True
    with Cons.prems show ?thesis by (simp add: evaluate_condition_absent)
  next
    case False
    with Cons have ih: "conditions_match bi el_fields rest \<noteq> Inr True" by simp
    show ?thesis
    proof (cases "evaluate_condition bi el_fields k' c'")
      case (Inl e)
      with kc show ?thesis by simp
    next
      case (Inr ok)
      with kc ih show ?thesis by simp
    qed
  qed
qed

lemma rule_match_absent:
  assumes "py_get_default rule ''conditions'' (PDict []) = Inr (PDict conditions)"
    and "(k, c) \<in> set conditions" and "map_of el_fields k = None"
  shows "rule_match bi el_fields rule \<noteq> Inr True"
proof -
  from assms(2) have "conditions \<noteq> []" by auto
  then have "py_or bi (PDict conditions) (PDict []) = PDict conditions"
    by (simp add: py_or_def truthy_def)
  with assms(1) conditions_match_absent [OF assms(2,3)] show ?thesis
    by (simp add: rule_match_def)
qed

lemma route_rule_no_match:
  "rule_match bi el_fields rule \<noteq> Inr True \<Longrightarrow>
   route_rule bi out_dirs el_fields rule = Inr ds \<Longrightarrow> ds = []"
  by (auto simp: route_rule_def ebind_eq_Inr split: if_splits)

lemma rule_match_empty:
  "py_get_default rule ''conditions'' (PDict []) = Inr (PDict []) \<Longrightarrow>
   rule_match bi el_fields rule = Inr True"
  by (simp add: rule_match_def py_or_def)

lemma route_rule_lms_skip:
  assumes "dict_get el_fields ''EL_REC_TYPE'' = PStr t" and "upper t = ''ECOMMERCE''"
    and "route_rule bi out_dirs el_fields rule = Inr ds" and "Dest n p \<in> set ds"
  shows "upper n \<noteq> ''LMS''"
proof -
  from assms(2) have "t \<noteq> []" by (auto simp: upper_def)
  with assms(1) have "py_or bi (dict_get el_fields ''EL_REC_TYPE'') (PStr []) = PStr t"
    by (simp add: py_or_def truthy_def)
  with assms(2,3,4) show ?thesis
    by (auto simp: route_rule_def ebind_eq_Inr split: if_splits pyval.splits)
qed

lemma route_using_config_no_lms:
  assumes "dict_get el_fields ''EL_REC_TYPE'' = PStr t" and "upper t = ''ECOMMERCE''"
  shows "Dest n p \<in> set (fst (route_using_config bi out_dirs routing_rules el_fields)) \<Longrightarrow>
         upper n \<noteq> ''LMS''"
proof (induction routing_rules)
  case Nil
  then show ?case by simp
next
  case (Cons rule rest)
  show ?case
  proof (cases "route_rule bi out_dirs el_fields rule")
    case (Inl e)
    with Cons.prems show ?thesis by simp
  next
    case (Inr ds)
    with Cons.prems have "Dest n p \<in> set ds
        \<or> Dest n p \<in> set (fst (route_using_config bi out_dirs rest el_fields))"
      by (auto split: prod.splits)
    with Cons.IH route_rule_lms_skip [OF assms Inr] show ?thesis by blast
  qed
qed

lemma route_rule_lms_matched:
  assumes "dict_get el_fields ''EL_REC_TYPE'' = PStr t" and "upper t = ''ECOMMERCE''"
    and "py_get rule ''name'' = Inr (PStr n)" and "upper n = ''LMS''"
    and "rule_match bi el_fields rule = Inr True"
  shows "route_rule bi out_dirs el_fields rule = Inr []"
proof -
  from assms(2) have "t \<noteq> []" by (auto simp: upper_def)
  with assms(1) have "py_or bi (dict_get el_fields ''EL_REC_TYPE'') (PStr []) = PStr t"
    by (simp add: py_or_def truthy_def)
  moreover from assms(4) have "upper n \<noteq> ''DWH''" by simp
  ultimately show ?thesis using assms(2-5)
    by (simp add: route_rule_def)
qed

text \<open>
  C8. When the record type \<^verbatim>\<open>EL_REC_TYPE\<close> is \<^verbatim>\<open>ECOMMERCE\<close> (in any letter case), no
  destination written by \<^verbatim>\<open>route_using_config\<close> is the one of a rule named \<^verbatim>\<open>LMS\<close> (in
  any letter case), whatever the rules, their conditions and the directories are; and a
  rule named \<^verbatim>\<open>LMS\<close> all of whose conditions match writes nothing and raises nothing.
\<close>

theorem lms_excludes_ecommerce:
  "dict_get el_fields ''EL_REC_TYPE'' = PStr t \<and> upper t = ''ECOMMERCE'' \<longrightarrow>
     (\<forall>n p. Dest n p \<in> set (fst (route_using_config bi out_dirs routing_rules el_fields))
              \<longrightarrow> upper n \<noteq> ''LMS'')
     \<and> (py_get rule ''name'' = Inr (PStr name) \<and> upper name = ''LMS''
          \<and> rule_match bi el_fields rule = Inr True \<longrightarrow>
        route_rule bi out_dirs el_fields rule = Inr [])"
proof (intro impI conjI allI)
  assume h: "dict_get el_fields ''EL_REC_TYPE'' = PStr t \<and> upper t = ''ECOMMERCE''"
  then have h1: "dict_get el_fields ''EL_REC_TYPE'' = PStr t"
    and h2: "upper t = ''ECOMMERCE''"
    by blast+
  {
    fix n p
    assume "Dest n p \<in> set (fst (route_using_config bi out_dirs routing_rules el_fields))"
    then show "upper n \<noteq> ''LMS''" by (rule route_using_config_no_lms [OF h1 h2])
  }
  {
    assume "py_get rule ''name'' = Inr (PStr name) \<and> upper name = ''LMS''
          \<and> rule_match bi el_fields rule = Inr True"
    then have "py_get rule ''name'' = Inr (PStr name)" and "upper name = ''LMS''"
      and "rule_match bi el_fields rule = Inr True"
      by blast+
    then show "route_rule bi out_dirs el_fields rule = Inr []"
      by (rule route_rule_lms_matched [OF h1 h2])
  }
qed

theorem lms_excludes_ecommerce_witness:
  "Dest ''LMS'' ''out/lms''
     \<notin> set (fst (route_using_config demo_builtins default_dirs default_rules
                   [(''EL_SUCCESS'', PInt 1), (''EL_DEBIT_AMOUNT'', PFloat (Dec False 5 0)),
                    (''EL_REC_TYPE'', PStr ''ECOMMERCE''), (''EL_PRE_POST'', PStr ''PREPAID''),
                    (''EL_GROUP_USAGE'', PInt 0)]))
   \<and> rule_match demo_builtins
        [(''EL_SUCCESS'', PInt 1), (''EL_DEBIT_AMOUNT'', PFloat (Dec False 5 0)),
         (''EL_REC_TYPE'', PStr ''ECOMMERCE''), (''EL_PRE_POST'', PStr ''PREPAID''),
         (''EL_GROUP_USAGE'', PInt 0)] (default_rules ! 2) = Inr True
   \<and> route_rule demo_builtins default_dirs
        [(''EL_SUCCESS'', PInt 1), (''EL_DEBIT_AMOUNT'', PFloat (Dec False 5 0)),
         (''EL_REC_TYPE'', PStr ''ECOMMERCE''), (''EL_PRE_POST'', PStr ''PREPAID''),
         (''EL_GROUP_USAGE'', PInt 0)] (default_rules ! 2) = Inr []"
proof -
  let ?f = "[(''EL_SUCCESS'', PInt 1), (''EL_DEBIT_AMOUNT'', PFloat (Dec False 5 0)),
             (''EL_REC_TYPE'', PStr ''ECOMMERCE''), (''EL_PRE_POST'', PStr ''PREPAID''),
             (''EL_GROUP_USAGE'', PInt 0)]"
  have h: "dict_get ?f ''EL_REC_TYPE'' = PStr ''ECOMMERCE''
      \<and> upper ''ECOMMERCE'' = ''ECOMMERCE''"
    by code_simp
  have u: "upper ''LMS'' = ''LMS''" by code_simp
  have m: "rule_match demo_builtins ?f (default_rules ! 2) = Inr True" by code_simp
  have n: "py_get (default_rules ! 2) ''name'' = Inr (PStr ''LMS'')" by code_simp
  note th = lms_excludes_ecommerce [where el_fields = ?f and t = "''ECOMMERCE''"
      and bi = demo_builtins and out_dirs = default_dirs and routing_rules = default_rules
      and rule = "default_rules ! 2" and name = "''LMS''", THEN mp, OF h]
  from th [THEN conjunct1, rule_format, of "''LMS''" "''out/lms''"] u
  have 1: "Dest ''LMS'' ''out/lms''
      \<notin> set (fst (route_using_config demo_builtins default_dirs default_rules ?f))"
    by blast
  from n u m have "py_get (default_rules ! 2) ''name'' = Inr (PStr ''LMS'')
      \<and> upper ''LMS'' = ''LMS'' \<and> rule_match demo_builtins ?f (default_rules ! 2) = Inr True"
    by (simp only: simp_thms)
  from th [THEN conjunct2, THEN mp, OF this]
  have 2: "route_rule demo_builtins default_dirs ?f (default_rules ! 2) = Inr []" .
  from 1 m 2 show ?thesis by (simp only: simp_thms)
qed

text \<open>
  C10. \<^verbatim>\<open>evaluate_condition\<close> returns \<^verbatim>\<open>False\<close> for a key that the record fields do not
  hold, whatever the condition is. So a rule one of whose conditions names such a key
  does not match, and writes nothing; a rule whose condition map is empty (or absent)
  matches.
\<close>

theorem absent_field_never_matches:
  "(map_of record_fields key = None \<longrightarrow>
      evaluate_condition bi record_fields key condition = Inr False)
   \<and> (py_get_default rule ''conditions'' (PDict []) = Inr (PDict conditions)
        \<and> (k, c) \<in> set conditions \<and> map_of el_fields k = None \<longrightarrow>
      rule_match bi el_fields rule \<noteq> Inr True
      \<and> (\<forall>ds. route_rule bi out_dirs el_fields rule = Inr ds \<longrightarrow> ds = []))
   \<and> (py_get_default rule' ''conditions'' (PDict []) = Inr (PDict []) \<longrightarrow>
        rule_match bi el_fields rule' = Inr True)
   \<and> conditions_match bi el_fields [] = Inr True"
proof (intro conjI impI allI)
  assume "map_of record_fields key = None"
  then show "evaluate_condition bi record_fields key condition = Inr False"
    by (rule evaluate_condition_absent)
next
  assume h: "py_get_default rule ''conditions'' (PDict []) = Inr (PDict conditions)
        \<and> (k, c) \<in> set conditions \<and> map_of el_fields k = None"
  then have h1: "py_get_default rule ''conditions'' (PDict []) = Inr (PDict conditions)"
    and h2: "(k, c) \<in> set conditions" and h3: "map_of el_fields k = None"
    by blast+
  from rule_match_absent [OF h1 h2 h3]
  show m: "rule_match bi el_fields rule \<noteq> Inr True" .
  fix ds
  assume "route_rule bi out_dirs el_fields rule = Inr ds"
  with m show "ds = []" by (rule route_rule_no_match)
next
  assume "py_get_default rule' ''conditions'' (PDict []) = Inr (PDict [])"
  then show "rule_match bi el_fields rule' = Inr True" by (rule rule_match_empty)
next
  show "conditions_match bi el_fields [] = Inr True" by simp
qed

theorem absent_field_never_matches_witness:
  "evaluate_condition demo_builtins [(''EL_SUCCESS'', PInt 1)] ''EL_DEBIT_AMOUNT'' (PStr ''>0'')
     = Inr False
   \<and> rule_match demo_builtins [(''EL_SUCCESS'', PInt 1)] (default_rules ! 2) \<noteq> Inr True
   \<and> route_rule demo_builtins default_dirs [(''EL_SUCCESS'', PInt 1)] (default_rules ! 2)
     = Inr []
   \<and> rule_match demo_builtins [(''EL_SUCCESS'', PInt 1)] (default_rules ! 0) = Inr True"
proof -
  let ?f = "[(''EL_SUCCESS'', PInt 1)]"
  let ?conds = "[(''EL_SUCCESS'', PInt 1), (''EL_DEBIT_AMOUNT'', PStr ''>0'')]"
  let ?r = "route_rule demo_builtins default_dirs ?f (default_rules ! 2)"
  note th = absent_field_never_matches [where record_fields = ?f
      and key = "''EL_DEBIT_AMOUNT''" and bi = demo_builtins and condition = "PStr ''>0''"
      and rule = "default_rules ! 2" and conditions = ?conds and k = "''EL_DEBIT_AMOUNT''"
      and c = "PStr ''>0''" and el_fields = ?f and out_dirs = default_dirs
      and rule' = "default_rules ! 0"]
  have a: "map_of ?f ''EL_DEBIT_AMOUNT'' = None" by code_simp
  from th [THEN conjunct1, THEN mp, OF a]
  have 1: "evaluate_condition demo_builtins ?f ''EL_DEBIT_AMOUNT'' (PStr ''>0'') = Inr False" .
  have "py_get_default (default_rules ! 2) ''conditions'' (PDict []) = Inr (PDict ?conds)"
    by code_simp
  moreover have "(''EL_DEBIT_AMOUNT'', PStr ''>0'') \<in> set ?conds" by simp
  ultimately have b: "py_get_default (default_rules ! 2) ''conditions'' (PDict [])
        = Inr (PDict ?conds)
      \<and> (''EL_DEBIT_AMOUNT'', PStr ''>0'') \<in> set ?conds
      \<and> map_of ?f ''EL_DEBIT_AMOUNT'' = None"
    using a by (simp only: simp_thms)
  note t2 = th [THEN conjunct2, THEN conjunct1, THEN mp, OF b]
  from t2 have 2: "rule_match demo_builtins ?f (default_rules ! 2) \<noteq> Inr True"
    by (rule conjunct1)
  have "\<not> isl ?r" by code_simp
  then have "?r = Inr (projr ?r)" by simp
  from t2 [THEN conjunct2, rule_format, OF this] \<open>?r = Inr (projr ?r)\<close>
  have 3: "?r = Inr []" by simp
  have "py_get_default (default_rules ! 0) ''conditions'' (PDict []) = Inr (PDict [])"
    by code_simp
  from th [THEN conjunct2, THEN conjunct2, THEN conjunct1, THEN mp, OF this]
  have 4: "rule_match demo_builtins ?f (default_rules ! 0) = Inr True" .
  from 1 2 3 4 show ?thesis by (simp only: simp_thms)
qed

end
